theory Spec2Isabelle
  imports Main "HOL-Library.AList" "HOL-Library.List_Lexorder"
begin

section \<open>Cards and the hand evaluator of server.js\<close>

text \<open>
  A card is the two-character string the server builds in \<open>createDeck\<close> (rank then suit).
  \<open>card[i]\<close> past the end of a JavaScript string is \<open>undefined\<close>; \<open>charAt\<close> returns
  \<open>None\<close> there.  Chip counts and rank values are JavaScript numbers holding integers and
  are modelled as \<open>int\<close>.
\<close>

type_synonym card = string

text \<open>How a call can fail: a thrown \<open>Error\<close> with its message, a \<open>TypeError\<close> (a property
  read on \<open>undefined\<close> or \<open>null\<close>), a payout that would be stored as \<open>NaN\<close>, and a loop
  that never ends.\<close>

datatype error = Error string | TypeError | NotANumber | Hangs

definition charAt :: "string \<Rightarrow> nat \<Rightarrow> char option" where
  "charAt s i = (if i < length s then Some (s ! i) else None)"

text \<open>\<open>rankValue\<close>: the digits by their code, then T, J, Q, K, and 14 for everything else
  (also for \<open>undefined\<close>, whose comparisons with a string are all false).\<close>

fun rankValue :: "char option \<Rightarrow> int" where
  "rankValue None = 14"
| "rankValue (Some c) =
     (if (50::nat) \<le> of_char c \<and> of_char c \<le> (57::nat) then int (of_char c) - 48
      else if c = CHR ''T'' then 10
      else if c = CHR ''J'' then 11
      else if c = CHR ''Q'' then 12
      else if c = CHR ''K'' then 13
      else 14)"

text \<open>\<open>Array.prototype.sort\<close> with a comparator function: a stable sort, modelled as
  insertion sort; \<open>x\<close> stays in front of \<open>y\<close> unless the comparator is positive.\<close>

fun insertBy :: "('a \<Rightarrow> 'a \<Rightarrow> int) \<Rightarrow> 'a \<Rightarrow> 'a list \<Rightarrow> 'a list" where
  "insertBy cmp x [] = [x]"
| "insertBy cmp x (y # ys) = (if cmp x y \<le> 0 then x # y # ys else y # insertBy cmp x ys)"

fun sortBy :: "('a \<Rightarrow> 'a \<Rightarrow> int) \<Rightarrow> 'a list \<Rightarrow> 'a list" where
  "sortBy cmp [] = []"
| "sortBy cmp (x # xs) = insertBy cmp x (sortBy cmp xs)"

definition descending :: "int \<Rightarrow> int \<Rightarrow> int" where
  "descending a b = b - a"

text \<open>\<open>[...new Set(xs)]\<close>: the first occurrence of every value, in order.\<close>

fun uniqueOf :: "'a list \<Rightarrow> 'a list \<Rightarrow> 'a list" where
  "uniqueOf seen [] = seen"
| "uniqueOf seen (x # xs) = uniqueOf (if x \<in> set seen then seen else seen @ [x]) xs"

definition getStraightHigh :: "int list \<Rightarrow> int" where
  "getStraightHigh sortedRanksDesc =
     (let unique = uniqueOf [] sortedRanksDesc in
      if length unique \<noteq> 5 then 0
      else if unique ! 0 - unique ! 4 = 4 then unique ! 0
      else if unique = [14, 5, 4, 3, 2] then 5 else 0)"

record score =
  category :: int
  ranks :: "int list"

record group =
  rank :: int
  count :: int

text \<open>The \<open>rankCounts\<close> map keeps its keys in insertion order, as a JavaScript \<open>Map\<close> does;
  \<open>rankCounts.get(rank) || 0\<close> is 0 for a key that is not there.  The advisor counts
  suits with the same statement.\<close>

definition countRank :: "('k \<times> int) list \<Rightarrow> 'k \<Rightarrow> ('k \<times> int) list" where
  "countRank rankCounts r =
     AList.update r ((case map_of rankCounts r of None \<Rightarrow> 0 | Some n \<Rightarrow> n) + 1) rankCounts"

definition groupOrder :: "group \<Rightarrow> group \<Rightarrow> int" where
  "groupOrder left right =
     (if count right - count left \<noteq> 0 then count right - count left else rank right - rank left)"

definition groupsOf :: "int list \<Rightarrow> group list" where
  "groupsOf rs =
     sortBy groupOrder (map (\<lambda>(r, n). \<lparr>rank = r, count = n\<rparr>) (foldl countRank [] rs))"

definition kickersOf :: "group list \<Rightarrow> int list" where
  "kickersOf groups = sortBy descending (map rank (filter (\<lambda>g. count g = 1) groups))"

text \<open>The category cascade of \<open>evaluateFiveCardHand\<close>.  Reading \<open>groups[0]\<close> or
  \<open>groups[1]\<close> where the array is too short is a TypeError in the source.\<close>

definition resolveCategory :: "bool \<Rightarrow> int \<Rightarrow> int list \<Rightarrow> group list \<Rightarrow> error + score" where
  "resolveCategory isFlush straightHigh rs groups =
     (if isFlush \<and> straightHigh > 0 then Inr \<lparr>category = 8, ranks = [straightHigh]\<rparr>
      else case groups of
        [] \<Rightarrow> Inl TypeError
      | g0 # gs \<Rightarrow>
          if count g0 = 4 then
            (case gs of [] \<Rightarrow> Inl TypeError
             | g1 # _ \<Rightarrow> Inr \<lparr>category = 7, ranks = [rank g0, rank g1]\<rparr>)
          else if count g0 = 3 \<and> gs = [] then Inl TypeError
          else if count g0 = 3 \<and> count (hd gs) = 2 then
            Inr \<lparr>category = 6, ranks = [rank g0, rank (hd gs)]\<rparr>
          else if isFlush then Inr \<lparr>category = 5, ranks = rs\<rparr>
          else if straightHigh > 0 then Inr \<lparr>category = 4, ranks = [straightHigh]\<rparr>
          else if count g0 = 3 then Inr \<lparr>category = 3, ranks = rank g0 # kickersOf groups\<rparr>
          else if count g0 = 2 \<and> gs = [] then Inl TypeError
          else if count g0 = 2 \<and> count (hd gs) = 2 then
            (let pairRanks = sortBy descending [rank g0, rank (hd gs)] in
             case find (\<lambda>g. count g = 1) groups of
               None \<Rightarrow> Inl TypeError
             | Some kicker \<Rightarrow>
                 Inr \<lparr>category = 2, ranks = [pairRanks ! 0, pairRanks ! 1, rank kicker]\<rparr>)
          else if count g0 = 2 then Inr \<lparr>category = 1, ranks = rank g0 # kickersOf groups\<rparr>
          else Inr \<lparr>category = 0, ranks = rs\<rparr>)"

definition isFlushOf :: "char option list \<Rightarrow> bool" where
  "isFlushOf suits = (case suits of [] \<Rightarrow> True | s0 # _ \<Rightarrow> list_all (\<lambda>s. s = s0) suits)"

definition evaluateFiveCardHand :: "card list \<Rightarrow> error + score" where
  "evaluateFiveCardHand cards =
     (let rs = sortBy descending (map (\<lambda>c. rankValue (charAt c 0)) cards);
          suits = map (\<lambda>c. charAt c 1) cards
      in resolveCategory (isFlushOf suits) (getStraightHigh rs) rs (groupsOf rs))"

text \<open>\<open>compareScores\<close>: \<open>ranks[i] || 0\<close> reads 0 past the end of the array.\<close>

definition rankAt :: "int list \<Rightarrow> nat \<Rightarrow> int" where
  "rankAt rs i = (if i < length rs then rs ! i else 0)"

function compareFrom :: "int list \<Rightarrow> int list \<Rightarrow> nat \<Rightarrow> nat \<Rightarrow> int" where
  "compareFrom l r maxLength i =
     (if i < maxLength then
        (if rankAt l i \<noteq> rankAt r i then rankAt l i - rankAt r i
         else compareFrom l r maxLength (i + 1))
      else 0)"
  by pat_completeness auto
termination
  by (relation "measure (\<lambda>(l, r, maxLength, i). maxLength - i)") auto

definition compareScores :: "score \<Rightarrow> score \<Rightarrow> int" where
  "compareScores left right =
     (if category left \<noteq> category right then category left - category right
      else compareFrom (ranks left) (ranks right)
             (max (length (ranks left)) (length (ranks right))) 0)"

text \<open>\<open>evaluateBestKnownHand\<close>: \<open>pickCards\<close> is the recursive closure, \<open>pickLoop\<close> its
  \<open>for\<close> loop; \<open>selection\<close> and \<open>bestScore\<close> are the closure's variables, passed
  explicitly.  The loop is only entered with fewer than five cards selected.\<close>

definition better :: "score option \<Rightarrow> score \<Rightarrow> score option" where
  "better bestScore sc =
     (case bestScore of None \<Rightarrow> Some sc
      | Some b \<Rightarrow> if compareScores sc b > 0 then Some sc else Some b)"

function pickCards :: "card list \<Rightarrow> card list \<Rightarrow> nat \<Rightarrow> score option \<Rightarrow> error + score option"
  and pickLoop :: "card list \<Rightarrow> card list \<Rightarrow> nat \<Rightarrow> score option \<Rightarrow> error + score option"
where
  "pickCards cards selection startIndex bestScore =
     (if length selection = 5 then
        (case evaluateFiveCardHand selection of
           Inl e \<Rightarrow> Inl e
         | Inr sc \<Rightarrow> Inr (better bestScore sc))
      else pickLoop cards selection startIndex bestScore)"
| "pickLoop cards selection i bestScore =
     (if length selection < 5 \<and> i + (5 - length selection) \<le> length cards then
        (case pickCards cards (selection @ [cards ! i]) (i + 1) bestScore of
           Inl e \<Rightarrow> Inl e
         | Inr b \<Rightarrow> pickLoop cards selection (i + 1) b)
      else Inr bestScore)"
  by pat_completeness auto
termination
  by (relation "inv_image (less_than <*lex*> less_than <*lex*> less_than)
        (\<lambda>x. case x of
           Inl (cards, selection, i, b) \<Rightarrow> (5 - length selection, Suc (length cards) - i, 1::nat)
         | Inr (cards, selection, i, b) \<Rightarrow> (5 - length selection, Suc (length cards) - i, 0))")
     auto

definition evaluateBestKnownHand :: "card list \<Rightarrow> error + score option" where
  "evaluateBestKnownHand cards =
     (if length cards < 5 \<or> length cards > 7
      then Inl (Error ''evaluateBestKnownHand expects between 5 and 7 cards.'')
      else pickCards cards [] 0 None)"

definition evaluateBestHand :: "card list \<Rightarrow> error + score option" where
  "evaluateBestHand cards =
     (if length cards \<noteq> 7 then Inl (Error ''evaluateBestHand expects exactly 7 cards.'')
      else evaluateBestKnownHand cards)"

section \<open>The table state\<close>

text \<open>
  The player objects and the singleton \<open>state\<close> of server.js.  A player object that the
  source holds by reference is named here by its seat, the index in \<open>state.players\<close>.
  A nullable id is an \<open>option\<close>; in a condition JavaScript also takes the empty string
  for false, which \<open>truthy\<close> models.
\<close>

record player =
  playerId :: string
  name :: string
  chips :: int
  isAdmin :: bool
  disconnected :: bool
  inHand :: bool
  folded :: bool
  allIn :: bool
  holeCards :: "card list"
  betThisRound :: int
  totalContribution :: int
  acted :: bool

datatype phase = Lobby | Preflop | Flop | Turn | River | Showdown

text \<open>A log entry; its \<open>id\<close> and \<open>at\<close> fields come from the clock and the random
  generator and are left out.\<close>

record logEntry =
  logText :: string

record handRow =
  hrId :: string
  hrName :: string
  hrCards :: "card list"
  hrHandName :: "string option"

record payoutRow =
  prId :: string
  prName :: string
  prAmount :: int

record showdown =
  sdType :: string
  sdCommunityCards :: "card list"
  sdHands :: "handRow list"
  sdPayouts :: "payoutRow list"

text \<open>The handle stored in \<open>state.nextHandTimer\<close>: of a timeout that is still pending, or
  of one that has fired already (firing does not clear the field).\<close>

datatype timer = TimerPending | TimerFired

record table =
  players :: "player list"
  startingStack :: int
  smallBlind :: int
  bigBlind :: int
  gameStarted :: bool
  handInProgress :: bool
  handNumber :: int
  phase :: phase
  deck :: "card list"
  burnCards :: "card list"
  seenCards :: "card list"
  communityCards :: "card list"
  pot :: int
  currentBet :: int
  lastRaiseSize :: int
  currentTurnId :: "string option"
  dealerId :: "string option"
  smallBlindId :: "string option"
  bigBlindId :: "string option"
  logs :: "logEntry list"
  lastShowdown :: "showdown option"
  nextHandTimer :: "timer option"

definition DEFAULT_STARTING_STACK :: int where "DEFAULT_STARTING_STACK = 1000"

definition SMALL_BLIND :: int where "SMALL_BLIND = 10"

definition BIG_BLIND :: int where "BIG_BLIND = 20"

definition NEXT_HAND_DELAY_MS :: int where "NEXT_HAND_DELAY_MS = 5000"

definition MAX_LOGS :: nat where "MAX_LOGS = 40"

definition FULL_DECK_SIZE :: nat where "FULL_DECK_SIZE = 52"

definition HAND_NAMES :: "string list" where
  "HAND_NAMES = [''High Card'', ''One Pair'', ''Two Pair'', ''Three of a Kind'', ''Straight'',
     ''Flush'', ''Full House'', ''Four of a Kind'', ''Straight Flush'']"

definition initialState :: table where
  "initialState = \<lparr>players = [], startingStack = DEFAULT_STARTING_STACK,
     smallBlind = SMALL_BLIND, bigBlind = BIG_BLIND, gameStarted = False,
     handInProgress = False, handNumber = 0, phase = Lobby, deck = [], burnCards = [],
     seenCards = [], communityCards = [], pot = 0, currentBet = 0, lastRaiseSize = BIG_BLIND,
     currentTurnId = None, dealerId = None, smallBlindId = None, bigBlindId = None,
     logs = [], lastShowdown = None, nextHandTimer = None\<rparr>"

definition truthy :: "string option \<Rightarrow> bool" where
  "truthy v = (case v of None \<Rightarrow> False | Some x \<Rightarrow> x \<noteq> [])"

text \<open>Decimal text of an integer, as a template literal prints it.\<close>

definition digitChar :: "nat \<Rightarrow> char" where
  "digitChar d = char_of (48 + d)"

function showNat :: "nat \<Rightarrow> string" where
  "showNat n = (if n < 10 then [digitChar n] else showNat (n div 10) @ [digitChar (n mod 10)])"
  by pat_completeness auto
termination
  by (relation "measure id") auto

definition showInt :: "int \<Rightarrow> string" where
  "showInt i = (if i < 0 then CHR ''-'' # showNat (nat (- i)) else showNat (nat i))"

fun joinWith :: "string \<Rightarrow> string list \<Rightarrow> string" where
  "joinWith sep [] = []"
| "joinWith sep [x] = x"
| "joinWith sep (x # y # ys) = x @ sep @ joinWith sep (y # ys)"

definition createPlayer :: "table \<Rightarrow> string \<Rightarrow> string \<Rightarrow> player" where
  "createPlayer s sid nm = \<lparr>playerId = sid, name = nm, chips = startingStack s,
     isAdmin = False, disconnected = False, inHand = False, folded = False, allIn = False,
     holeCards = [], betThisRound = 0, totalContribution = 0, acted = False\<rparr>"

text \<open>\<open>sanitizeName\<close>: \<open>None\<close> is a value that is not a string; the empty result is the
  rejected name.  White space is the ASCII white space.\<close>

definition isSpace :: "char \<Rightarrow> bool" where
  "isSpace c = (c \<in> set [CHR '' '', CHR 0x09, CHR 0x0A, CHR 0x0B, CHR 0x0C, CHR 0x0D])"

fun collapseFrom :: "bool \<Rightarrow> string \<Rightarrow> string" where
  "collapseFrom inRun [] = []"
| "collapseFrom inRun (c # cs) =
     (if isSpace c then (if inRun then collapseFrom True cs else CHR '' '' # collapseFrom True cs)
      else c # collapseFrom False cs)"

definition collapseSpaces :: "string \<Rightarrow> string" where
  "collapseSpaces v = collapseFrom False v"

definition trim :: "string \<Rightarrow> string" where
  "trim v = rev (dropWhile isSpace (rev (dropWhile isSpace v)))"

definition sanitizeName :: "string option \<Rightarrow> string" where
  "sanitizeName v =
     (case v of None \<Rightarrow> []
      | Some str \<Rightarrow>
          (let trimmed = collapseSpaces (trim str) in
           if length trimmed < 2 \<or> length trimmed > 20 then [] else trimmed))"

definition addLog :: "string \<Rightarrow> table \<Rightarrow> table" where
  "addLog message s =
     (let ls = logs s @ [\<lparr>logText = message\<rparr>] in
      s\<lparr>logs := (if length ls > MAX_LOGS then drop (length ls - MAX_LOGS) ls else ls)\<rparr>)"

definition findPlayerIndex :: "table \<Rightarrow> string \<Rightarrow> nat option" where
  "findPlayerIndex s pid = find (\<lambda>i. playerId (players s ! i) = pid) [0..<length (players s)]"

definition findPlayer :: "table \<Rightarrow> string \<Rightarrow> player option" where
  "findPlayer s pid = find (\<lambda>p. playerId p = pid) (players s)"

definition modifyPlayer :: "nat \<Rightarrow> (player \<Rightarrow> player) \<Rightarrow> table \<Rightarrow> table" where
  "modifyPlayer i f s = s\<lparr>players := (players s)[i := f (players s ! i)]\<rparr>"

definition getConnectedPlayers :: "table \<Rightarrow> player list" where
  "getConnectedPlayers s = filter (\<lambda>p. \<not> disconnected p) (players s)"

definition isPlayerActionable :: "player \<Rightarrow> bool" where
  "isPlayerActionable p = (inHand p \<and> \<not> folded p \<and> \<not> allIn p)"

definition getMinRaiseTo :: "table \<Rightarrow> int" where
  "getMinRaiseTo s = (if currentBet s = 0 then bigBlind s else currentBet s + lastRaiseSize s)"

definition countRemainingInHand :: "table \<Rightarrow> nat" where
  "countRemainingInHand s = length (filter (\<lambda>p. inHand p \<and> \<not> folded p) (players s))"

definition isBettingRoundComplete :: "table \<Rightarrow> bool" where
  "isBettingRoundComplete s =
     (let actionables = filter isPlayerActionable (players s) in
      if length actionables = 0 then True
      else list_all (\<lambda>p. acted p \<and> betThisRound p = currentBet s) actionables)"

definition resetPlayerHandState :: "player \<Rightarrow> player" where
  "resetPlayerHandState p = p\<lparr>inHand := False, folded := False, allIn := False,
     holeCards := [], betThisRound := 0, totalContribution := 0, acted := False\<rparr>"

definition commitBet :: "nat \<Rightarrow> int \<Rightarrow> table \<Rightarrow> table" where
  "commitBet i amount s =
     (if amount \<le> 0 then s
      else (modifyPlayer i (\<lambda>p. p\<lparr>chips := chips p - amount,
                                   betThisRound := betThisRound p + amount,
                                   totalContribution := totalContribution p + amount\<rparr>) s)
             \<lparr>pot := pot s + amount\<rparr>)"

definition cleanupDisconnectedPlayers :: "table \<Rightarrow> table" where
  "cleanupDisconnectedPlayers s = s\<lparr>players := filter (\<lambda>p. \<not> disconnected p) (players s)\<rparr>"

definition cancelNextHandTimer :: "table \<Rightarrow> table" where
  "cancelNextHandTimer s = (if nextHandTimer s \<noteq> None then s\<lparr>nextHandTimer := None\<rparr> else s)"

definition queueNextHand :: "table \<Rightarrow> table" where
  "queueNextHand s = (cancelNextHandTimer s)\<lparr>nextHandTimer := Some TimerPending\<rparr>"

text \<open>\<open>assignAdminIfNeeded\<close>: \<open>connectedPlayers[0]\<close> is the first seat that is not
  disconnected.\<close>

definition assignAdminIfNeeded :: "table \<Rightarrow> table" where
  "assignAdminIfNeeded s =
     (let connectedPlayers = getConnectedPlayers s in
      case find isAdmin connectedPlayers of
        Some existingAdmin \<Rightarrow>
          s\<lparr>players := map (\<lambda>p. if playerId p \<noteq> playerId existingAdmin
                                  then p\<lparr>isAdmin := False\<rparr> else p) (players s)\<rparr>
      | None \<Rightarrow>
          (let s1 = s\<lparr>players := map (\<lambda>p. p\<lparr>isAdmin := False\<rparr>) (players s)\<rparr> in
           case find (\<lambda>i. \<not> disconnected (players s1 ! i)) [0..<length (players s1)] of
             None \<Rightarrow> s1
           | Some i \<Rightarrow>
               addLog (name (players s1 ! i) @ '' is now admin.'')
                 (modifyPlayer i (\<lambda>p. p\<lparr>isAdmin := True\<rparr>) s1)))"

text \<open>\<open>getRingOrder\<close>, as seats: the seats after \<open>fromPlayerId\<close>, wrapping, that player
  last; from seat 0 when the id is null, empty or not seated.\<close>

definition findIndexOf :: "table \<Rightarrow> string \<Rightarrow> int" where
  "findIndexOf s pid = (case findPlayerIndex s pid of None \<Rightarrow> - 1 | Some i \<Rightarrow> int i)"

definition getRingSeats :: "table \<Rightarrow> string option \<Rightarrow> nat list" where
  "getRingSeats s fromPlayerId =
     (if length (players s) = 0 then []
      else (let startIndex = (if truthy fromPlayerId
                              then (case fromPlayerId of None \<Rightarrow> - 1 | Some pid \<Rightarrow> findIndexOf s pid)
                              else - 1)
            in map (\<lambda>i. nat ((startIndex + int i) mod int (length (players s))))
                 [1..<Suc (length (players s))]))"

definition getRingOrder :: "table \<Rightarrow> string option \<Rightarrow> player list" where
  "getRingOrder s fromPlayerId = map (\<lambda>i. players s ! i) (getRingSeats s fromPlayerId)"

definition getNextPlayer :: "table \<Rightarrow> string option \<Rightarrow> (player \<Rightarrow> bool) \<Rightarrow> nat option" where
  "getNextPlayer s fromPlayerId predicate =
     find (\<lambda>i. predicate (players s ! i)) (getRingSeats s fromPlayerId)"

definition seatId :: "table \<Rightarrow> nat option \<Rightarrow> string option" where
  "seatId s seat = map_option (\<lambda>i. playerId (players s ! i)) seat"

section \<open>The deck\<close>

definition createDeck :: "card list" where
  "createDeck = concat (map (\<lambda>suit. map (\<lambda>r. [r, suit]) ''23456789TJQKA'') ''SHDC'')"

text \<open>\<open>shuffleDeck\<close>: \<open>randomIndex i\<close> stands for the sample
  \<open>Math.floor(Math.random() * (i + 1))\<close> drawn at position \<open>i\<close>, reduced into \<open>0..i\<close>.\<close>

fun shuffleLoop :: "(nat \<Rightarrow> nat) \<Rightarrow> nat \<Rightarrow> card list \<Rightarrow> card list" where
  "shuffleLoop randomIndex 0 d = d"
| "shuffleLoop randomIndex (Suc i) d =
     (let j = randomIndex (Suc i) mod (Suc i + 1) in
      shuffleLoop randomIndex i (d[Suc i := d ! j, j := d ! Suc i]))"

definition shuffleDeck :: "(nat \<Rightarrow> nat) \<Rightarrow> card list \<Rightarrow> card list" where
  "shuffleDeck randomIndex d = shuffleLoop randomIndex (length d - 1) d"

definition cardShape :: "card \<Rightarrow> bool" where
  "cardShape c = (length c = 2 \<and> c ! 0 \<in> set ''23456789TJQKA'' \<and> c ! 1 \<in> set ''SHDC'')"

definition assertDeckShape :: "card list \<Rightarrow> error + unit" where
  "assertDeckShape d =
     (if length d \<noteq> FULL_DECK_SIZE
      then Inl (Error (''Deck must contain exactly '' @ showNat FULL_DECK_SIZE @ '' cards.''))
      else let uniqueCards = uniqueOf [] d in
        if length uniqueCards \<noteq> FULL_DECK_SIZE then Inl (Error ''Deck contains duplicate cards.'')
        else case find (\<lambda>c. \<not> cardShape c) uniqueCards of
               Some c \<Rightarrow> Inl (Error (''Invalid card in deck: '' @ c))
             | None \<Rightarrow> Inr ())"

text \<open>\<open>drawCard\<close> pops the last element; an empty deck (or an empty string on top) throws,
  and so does a card that was seen before.\<close>

definition drawCard :: "string \<Rightarrow> table \<Rightarrow> error + (card \<times> table)" where
  "drawCard reason s =
     (if deck s = [] \<or> last (deck s) = []
      then Inl (Error (''Deck is empty while '' @ reason @ ''.''))
      else let c = last (deck s) in
        if c \<in> set (seenCards s)
        then Inl (Error (''Duplicate card detected ('' @ c @ '') while '' @ reason @ ''.''))
        else Inr (c, s\<lparr>deck := butlast (deck s), seenCards := seenCards s @ [c]\<rparr>))"

definition burnTopCard :: "table \<Rightarrow> error + table" where
  "burnTopCard s =
     (case drawCard ''burning'' s of
        Inl e \<Rightarrow> Inl e
      | Inr (burnedCard, s1) \<Rightarrow>
          Inr (addLog ''Dealer burns a card.'' (s1\<lparr>burnCards := burnCards s1 @ [burnedCard]\<rparr>)))"

section \<open>The advisor\<close>

record insight =
  currentHand :: string
  strengthScore :: int
  strengthLabel :: string
  draws :: "string list"
  recommendation :: string

text \<open>A rank read from \<open>score.ranks[i]\<close> may be \<open>undefined\<close> (\<open>None\<close>).\<close>

definition rankIndex :: "int list \<Rightarrow> nat \<Rightarrow> int option" where
  "rankIndex rs i = (if i < length rs then Some (rs ! i) else None)"

definition rankToLabel :: "int option \<Rightarrow> string" where
  "rankToLabel r =
     (case r of None \<Rightarrow> ''A''
      | Some v \<Rightarrow> if v \<le> 10 then showInt v
                  else if v = 11 then ''J'' else if v = 12 then ''Q''
                  else if v = 13 then ''K'' else ''A'')"

definition rankWords :: "(int \<times> string) list" where
  "rankWords = [(2, ''Two''), (3, ''Three''), (4, ''Four''), (5, ''Five''), (6, ''Six''),
     (7, ''Seven''), (8, ''Eight''), (9, ''Nine''), (10, ''Ten''), (11, ''Jack''),
     (12, ''Queen''), (13, ''King''), (14, ''Ace'')]"

definition rankPlurals :: "(int \<times> string) list" where
  "rankPlurals = [(2, ''Twos''), (3, ''Threes''), (4, ''Fours''), (5, ''Fives''), (6, ''Sixes''),
     (7, ''Sevens''), (8, ''Eights''), (9, ''Nines''), (10, ''Tens''), (11, ''Jacks''),
     (12, ''Queens''), (13, ''Kings''), (14, ''Aces'')]"

definition rankWord :: "int option \<Rightarrow> string" where
  "rankWord r =
     (case r of None \<Rightarrow> ''undefined''
      | Some v \<Rightarrow> (case map_of rankWords v of Some w \<Rightarrow> w | None \<Rightarrow> showInt v))"

definition rankWordPlural :: "int option \<Rightarrow> string" where
  "rankWordPlural r =
     (case r of None \<Rightarrow> ''undefineds''
      | Some v \<Rightarrow> (case map_of rankPlurals v of Some w \<Rightarrow> w | None \<Rightarrow> showInt v @ ''s''))"

definition clampStrength :: "int \<Rightarrow> int" where
  "clampStrength v = max 1 (min 100 v)"

definition strengthLabelFromScore :: "int \<Rightarrow> string" where
  "strengthLabelFromScore sc =
     (if sc \<ge> 90 then ''Monster'' else if sc \<ge> 78 then ''Very Strong''
      else if sc \<ge> 64 then ''Strong'' else if sc \<ge> 50 then ''Playable''
      else if sc \<ge> 36 then ''Marginal'' else ''Weak'')"

definition recommendationFromInsight :: "int \<Rightarrow> string list \<Rightarrow> string" where
  "recommendationFromInsight sc ds =
     (if sc \<ge> 85 then ''You are usually ahead. Bet or raise for value.''
      else if sc \<ge> 68 then ''Solid hand. Keep betting, but watch heavy aggression.''
      else if length ds > 0 \<and> sc \<ge> 42
        then ''You are drawing. Continue when the price is reasonable.''
      else if sc \<ge> 50 then ''Medium strength. Prefer pot control against big bets.''
      else ''Mostly weak. Check/fold unless you have a strong read.'')"

text \<open>\<open>evaluatePreflopStrength\<close> is called with exactly two hole cards.  The pair score
  \<open>Math.round(58 + high * 2.6)\<close> is computed on tenths: for an integer \<open>high\<close> the exact
  product is never within 0.1 of a rounding boundary, so the double agrees.\<close>

definition evaluatePreflopStrength :: "card list \<Rightarrow> insight" where
  "evaluatePreflopStrength hole =
     (let firstRank = rankValue (charAt (hole ! 0) 0);
          secondRank = rankValue (charAt (hole ! 1) 0);
          high = max firstRank secondRank;
          low = min firstRank secondRank;
          suited = (charAt (hole ! 0) 1 = charAt (hole ! 1) 1);
          isPair = (firstRank = secondRank);
          gap = high - low - 1;
          sc0 = (if isPair then (580 + 26 * high + 5) div 10
                 else 18 + high * 2 + low + (if suited then 7 else 0)
                      + (if gap = 0 then 6 else if gap = 1 then 3
                         else if gap \<ge> 3 then - (min 12 ((gap - 2) * 3)) else 0)
                      + (if high \<ge> 11 \<and> low \<ge> 10 then 8 else 0)
                      + (if high = 14 \<and> low \<ge> 10 then 4 else 0));
          hand = (if isPair then ''Pocket '' @ rankWordPlural (Some high)
                  else rankToLabel (Some high) @ ''-'' @ rankToLabel (Some low) @ '' ''
                       @ (if suited then ''suited'' else ''offsuit''));
          sc = clampStrength sc0
      in \<lparr>currentHand = hand, strengthScore = sc, strengthLabel = strengthLabelFromScore sc,
          draws = [], recommendation = recommendationFromInsight sc []\<rparr>)"

text \<open>\<open>detectStraightDraw\<close>: for each window of five ranks, how many are present and the
  last missing position.\<close>

definition windowMissing :: "int list \<Rightarrow> int \<Rightarrow> nat \<times> int" where
  "windowMissing rankSet start =
     foldl (\<lambda>(present, missingIndex) i.
              if start + int i \<in> set rankSet then (present + 1, missingIndex)
              else (present, int i))
       (0, - 1) [0..<5]"

definition detectStraightDraw :: "card list \<Rightarrow> string" where
  "detectStraightDraw knownCards =
     (let rs0 = uniqueOf [] (map (\<lambda>c. rankValue (charAt c 0)) knownCards);
          rankSet = (if 14 \<in> set rs0 then uniqueOf rs0 [1] else rs0);
          windows = map (windowMissing rankSet) (map int [1..<11]);
          hasOpenEnded = list_ex (\<lambda>(present, missingIndex).
                            present = 4 \<and> (missingIndex = 0 \<or> missingIndex = 4)) windows;
          hasGutshot = list_ex (\<lambda>(present, missingIndex).
                            present = 4 \<and> \<not> (missingIndex = 0 \<or> missingIndex = 4)) windows
      in if hasOpenEnded then ''open'' else if hasGutshot then ''gutshot'' else [])"

definition detectDraws :: "table \<Rightarrow> card list \<Rightarrow> score \<Rightarrow> string list" where
  "detectDraws s knownCards madeScore =
     (if length (communityCards s) \<ge> 5 then []
      else
        (if category madeScore < 5
            \<and> list_ex (\<lambda>(suit, n). n \<ge> 4)
                 (foldl countRank [] (map (\<lambda>c. charAt c 1) knownCards))
         then [''Flush draw''] else [])
        @ (if category madeScore < 4 then
             (let straightDraw = detectStraightDraw knownCards in
              if straightDraw = ''open'' then [''Open-ended straight draw'']
              else if straightDraw = ''gutshot'' then [''Gutshot straight draw'']
              else [])
           else []))"

text \<open>\<open>scorePostflopStrength\<close>; the evaluator never returns an empty \<open>ranks\<close>, so
  \<open>ranks[0]\<close> is read with \<open>rankAt\<close>.\<close>

definition scorePostflopStrength :: "score \<Rightarrow> string list \<Rightarrow> nat \<Rightarrow> int" where
  "scorePostflopStrength madeScore ds communityCount =
     (let baseByCategory = [24, 44, 62, 73, 83, 87, 93, 98, 100];
          c = category madeScore;
          base = (if 0 \<le> c \<and> c < 9 then baseByCategory ! nat c else 20);
          r0 = rankAt (ranks madeScore) 0;
          sc1 = base + (if c = 0 then max 0 (r0 - 10) * 2
                        else if c = 1 then max 0 (r0 - 8) * 2
                        else if c = 2 then max 0 (r0 - 9)
                        else if c = 3 then max 0 (r0 - 7)
                        else if c \<ge> 4 then max 0 (r0 - 10) else 0);
          sc2 = sc1 + (if ''Flush draw'' \<in> set ds then 8 else 0);
          sc3 = sc2 + (if ''Open-ended straight draw'' \<in> set ds then 6
                       else if ''Gutshot straight draw'' \<in> set ds then 3 else 0);
          sc4 = (if communityCount < 5 \<and> c < 4 then min sc3 97 else sc3)
      in clampStrength sc4)"

definition describeScore :: "score \<Rightarrow> string option" where
  "describeScore sc =
     (let c = category sc;
          base = (if 0 \<le> c \<and> c < 9 then Some (HAND_NAMES ! nat c) else None);
          baseText = (case base of None \<Rightarrow> ''undefined'' | Some b \<Rightarrow> b)
      in if c = 4 \<or> c = 8
         then Some (baseText @ '' ('' @ rankToLabel (rankIndex (ranks sc) 0) @ '' high)'')
         else if c = 7
         then Some (baseText @ '' ('' @ rankToLabel (rankIndex (ranks sc) 0) @ ''s)'')
         else if c = 6
         then Some (baseText @ '' ('' @ rankToLabel (rankIndex (ranks sc) 0) @ '' over ''
                    @ rankToLabel (rankIndex (ranks sc) 1) @ '')'')
         else base)"

definition describeScoreDetailed :: "score \<Rightarrow> string" where
  "describeScoreDetailed sc =
     (let c = category sc; r0 = rankIndex (ranks sc) 0; r1 = rankIndex (ranks sc) 1 in
      if c = 0 then ''High Card ('' @ rankWord r0 @ '')''
      else if c = 1 then ''One Pair ('' @ rankWordPlural r0 @ '')''
      else if c = 2 then ''Two Pair ('' @ rankWordPlural r0 @ '' and '' @ rankWordPlural r1 @ '')''
      else if c = 3 then ''Three of a Kind ('' @ rankWordPlural r0 @ '')''
      else if c = 4 then ''Straight ('' @ rankWord r0 @ '' high)''
      else if c = 5 then ''Flush ('' @ rankWord r0 @ '' high)''
      else if c = 6
        then ''Full House ('' @ rankWordPlural r0 @ '' over '' @ rankWordPlural r1 @ '')''
      else if c = 7 then ''Four of a Kind ('' @ rankWordPlural r0 @ '')''
      else ''Straight Flush ('' @ rankWord r0 @ '' high)'')"

text \<open>\<open>buildHandInsight\<close>: \<open>None\<close> is the \<open>null\<close> insight.  With one or two community
  cards \<open>evaluateBestKnownHand\<close> throws.\<close>

definition buildHandInsight :: "table \<Rightarrow> player option \<Rightarrow> error + insight option" where
  "buildHandInsight s viewer =
     (case viewer of
        None \<Rightarrow> Inr None
      | Some p \<Rightarrow>
          if \<not> handInProgress s \<or> \<not> inHand p \<or> folded p \<or> length (holeCards p) \<noteq> 2
          then Inr None
          else if length (communityCards s) = 0
          then Inr (Some (evaluatePreflopStrength (holeCards p)))
          else
            (let knownCards = holeCards p @ communityCards s in
             case evaluateBestKnownHand knownCards of
               Inl e \<Rightarrow> Inl e
             | Inr None \<Rightarrow> Inl TypeError
             | Inr (Some madeScore) \<Rightarrow>
                 (let ds = detectDraws s knownCards madeScore;
                      sc = scorePostflopStrength madeScore ds (length (communityCards s))
                  in Inr (Some \<lparr>currentHand = describeScoreDetailed madeScore,
                        strengthScore = sc, strengthLabel = strengthLabelFromScore sc,
                        draws = ds, recommendation = recommendationFromInsight sc ds\<rparr>))))"

section \<open>The per-viewer projection\<close>

record actions =
  canFold :: bool
  canCheck :: bool
  canCall :: bool
  canRaise :: bool
  callAmount :: int
  minRaiseTo :: int
  maxRaiseTo :: int

record playerView =
  pvId :: string
  pvName :: string
  pvChips :: int
  pvIsAdmin :: bool
  pvInHand :: bool
  pvFolded :: bool
  pvAllIn :: bool
  pvBetThisRound :: int
  pvTotalContribution :: int
  pvIsTurn :: bool

record view =
  joined :: bool
  youId :: string
  vGameStarted :: bool
  vHandInProgress :: bool
  vHandNumber :: int
  vPhase :: phase
  vStartingStack :: int
  vSmallBlind :: int
  vBigBlind :: int
  vPot :: int
  vCurrentBet :: int
  deckRemaining :: nat
  burnCount :: nat
  dealtCount :: nat
  vMinRaiseTo :: int
  vDealerId :: "string option"
  vSmallBlindId :: "string option"
  vBigBlindId :: "string option"
  vCurrentTurnId :: "string option"
  vCommunityCards :: "card list"
  yourCards :: "card list"
  handInsight :: "insight option"
  availableActions :: actions
  canAct :: bool
  vPlayers :: "playerView list"
  vLogs :: "logEntry list"
  vLastShowdown :: "showdown option"

definition noActions :: "table \<Rightarrow> actions" where
  "noActions s = \<lparr>canFold = False, canCheck = False, canCall = False, canRaise = False,
     callAmount = 0, minRaiseTo = getMinRaiseTo s, maxRaiseTo = 0\<rparr>"

definition computeAvailableActions :: "table \<Rightarrow> player option \<Rightarrow> actions" where
  "computeAvailableActions s viewer =
     (case viewer of
        None \<Rightarrow> noActions s
      | Some p \<Rightarrow>
          if \<not> handInProgress s \<or> currentTurnId s \<noteq> Some (playerId p) \<or> \<not> isPlayerActionable p
          then noActions s
          else
            (let toCall = max 0 (currentBet s - betThisRound p);
                 maxTotal = betThisRound p + chips p;
                 minRaise = getMinRaiseTo s;
                 raiseRightsOpen = (\<not> acted p \<or> toCall = 0);
                 raisable = (raiseRightsOpen \<and> chips p > 0 \<and> maxTotal > currentBet s);
                 minRaiseTarget = (if maxTotal < minRaise then maxTotal else minRaise)
             in \<lparr>canFold = True, canCheck = (toCall = 0),
                  canCall = (toCall > 0 \<and> chips p > 0), canRaise = raisable,
                  callAmount = min toCall (chips p), minRaiseTo = minRaiseTarget,
                  maxRaiseTo = maxTotal\<rparr>))"

definition playerViewOf :: "table \<Rightarrow> player \<Rightarrow> playerView" where
  "playerViewOf s p = \<lparr>pvId = playerId p, pvName = name p, pvChips = chips p,
     pvIsAdmin = isAdmin p, pvInHand = inHand p, pvFolded = folded p, pvAllIn = allIn p,
     pvBetThisRound = betThisRound p, pvTotalContribution = totalContribution p,
     pvIsTurn = (Some (playerId p) = currentTurnId s)\<rparr>"

definition buildStateFor :: "table \<Rightarrow> string \<Rightarrow> error + view" where
  "buildStateFor s viewerId =
     (let viewer = findPlayer s viewerId;
          shownPlayers = filter (\<lambda>p. \<not> disconnected p) (players s)
      in case buildHandInsight s viewer of
           Inl e \<Rightarrow> Inl e
         | Inr ins \<Rightarrow>
             Inr \<lparr>joined = (viewer \<noteq> None), youId = viewerId,
                  vGameStarted = gameStarted s, vHandInProgress = handInProgress s,
                  vHandNumber = handNumber s, vPhase = phase s,
                  vStartingStack = startingStack s, vSmallBlind = smallBlind s,
                  vBigBlind = bigBlind s, vPot = pot s, vCurrentBet = currentBet s,
                  deckRemaining = length (deck s), burnCount = length (burnCards s),
                  dealtCount = length (seenCards s), vMinRaiseTo = getMinRaiseTo s,
                  vDealerId = dealerId s, vSmallBlindId = smallBlindId s,
                  vBigBlindId = bigBlindId s, vCurrentTurnId = currentTurnId s,
                  vCommunityCards = communityCards s,
                  yourCards = (case viewer of None \<Rightarrow> []
                               | Some p \<Rightarrow> if inHand p then holeCards p else []),
                  handInsight = ins,
                  availableActions = computeAvailableActions s viewer,
                  canAct = (case viewer of None \<Rightarrow> False
                            | Some p \<Rightarrow> currentTurnId s = Some (playerId p)
                                         \<and> isPlayerActionable p),
                  vPlayers = map (playerViewOf s) shownPlayers,
                  vLogs = logs s, vLastShowdown = lastShowdown s\<rparr>)"

section \<open>Events, outputs and the handlers\<close>

text \<open>
  What a handler sends: an \<open>errorMessage\<close> to one socket, or a \<open>state\<close> projection to one
  socket.  The environment of a handler is the list of connected sockets
  (\<open>io.sockets.sockets\<close>) and the random samples of the shuffle.  A handler returns the new
  table and what it sent, or the exception it threw.
\<close>

datatype out = ErrorMessage string string | StateMsg string view

record env =
  sockets :: "string list"
  randomIndex :: "nat \<Rightarrow> nat"

fun emitStates :: "table \<Rightarrow> string list \<Rightarrow> error + out list" where
  "emitStates s [] = Inr []"
| "emitStates s (socketId # rest) =
     (case buildStateFor s socketId of
        Inl e \<Rightarrow> Inl e
      | Inr v \<Rightarrow> (case emitStates s rest of
                    Inl e \<Rightarrow> Inl e
                  | Inr outs \<Rightarrow> Inr (StateMsg socketId v # outs)))"

definition emitStateToAll :: "env \<Rightarrow> table \<Rightarrow> error + out list" where
  "emitStateToAll ev s = emitStates s (sockets ev)"

definition emitting :: "env \<Rightarrow> table \<Rightarrow> error + (table \<times> out list)" where
  "emitting ev s = (case emitStateToAll ev s of Inl e \<Rightarrow> Inl e | Inr outs \<Rightarrow> Inr (s, outs))"

definition sendError :: "env \<Rightarrow> string \<Rightarrow> string \<Rightarrow> out list" where
  "sendError ev pid message = (if pid \<in> set (sockets ev) then [ErrorMessage pid message] else [])"

definition revealNextStreet :: "table \<Rightarrow> error + table" where
  "revealNextStreet s =
     (case phase s of
        Preflop \<Rightarrow>
          (case burnTopCard s of Inl e \<Rightarrow> Inl e | Inr s1 \<Rightarrow>
           (case drawCard ''dealing flop'' (s1\<lparr>phase := Flop\<rparr>) of Inl e \<Rightarrow> Inl e | Inr (c1, s2) \<Rightarrow>
            (case drawCard ''dealing flop'' s2 of Inl e \<Rightarrow> Inl e | Inr (c2, s3) \<Rightarrow>
             (case drawCard ''dealing flop'' s3 of Inl e \<Rightarrow> Inl e | Inr (c3, s4) \<Rightarrow>
                (let s5 = s4\<lparr>communityCards := communityCards s4 @ [c1, c2, c3]\<rparr>
                 in Inr (addLog (''Flop: '' @ joinWith '' '' (communityCards s5)) s5))))))
      | Flop \<Rightarrow>
          (case burnTopCard s of Inl e \<Rightarrow> Inl e | Inr s1 \<Rightarrow>
           (case drawCard ''dealing turn'' (s1\<lparr>phase := Turn\<rparr>) of Inl e \<Rightarrow> Inl e | Inr (c, s2) \<Rightarrow>
              Inr (addLog (''Turn: '' @ c) (s2\<lparr>communityCards := communityCards s2 @ [c]\<rparr>))))
      | Turn \<Rightarrow>
          (case burnTopCard s of Inl e \<Rightarrow> Inl e | Inr s1 \<Rightarrow>
           (case drawCard ''dealing river'' (s1\<lparr>phase := River\<rparr>) of Inl e \<Rightarrow> Inl e | Inr (c, s2) \<Rightarrow>
              Inr (addLog (''River: '' @ c) (s2\<lparr>communityCards := communityCards s2 @ [c]\<rparr>))))
      | _ \<Rightarrow> Inr s)"

fun streetsLeft :: "phase \<Rightarrow> nat" where
  "streetsLeft Preflop = 3"
| "streetsLeft Flop = 2"
| "streetsLeft Turn = 1"
| "streetsLeft _ = 0"

lemma phase_addLog: "phase (addLog m s) = phase s"
  by (simp add: addLog_def Let_def)

lemma phase_drawCard: "drawCard r s = Inr (c, s') \<Longrightarrow> phase s' = phase s"
  by (auto simp: drawCard_def Let_def split: if_splits)

lemma phase_burnTopCard: "burnTopCard s = Inr s' \<Longrightarrow> phase s' = phase s"
  by (auto simp: burnTopCard_def phase_addLog split: sum.splits dest: phase_drawCard)

lemma streetsLeft_revealNextStreet:
  assumes "revealNextStreet s = Inr s'" "phase s \<noteq> River" "phase s \<noteq> Lobby" "phase s \<noteq> Showdown"
  shows "streetsLeft (phase s') < streetsLeft (phase s)"
proof (cases "phase s")
  case Preflop
  with assms(1) show ?thesis
    by (auto simp: revealNextStreet_def phase_addLog Let_def split: sum.splits
          dest!: phase_drawCard phase_burnTopCard)
next
  case Flop
  with assms(1) show ?thesis
    by (auto simp: revealNextStreet_def phase_addLog split: sum.splits
          dest!: phase_drawCard phase_burnTopCard)
next
  case Turn
  with assms(1) show ?thesis
    by (auto simp: revealNextStreet_def phase_addLog split: sum.splits
          dest!: phase_drawCard phase_burnTopCard)
qed (use assms in auto)

text \<open>The loop \<open>while (state.phase !== "river") revealNextStreet()\<close> of
  \<open>fastForwardBoardAndShowdown\<close>.  In the phases lobby and showdown the body changes
  nothing, so the loop never ends.\<close>

function revealUntilRiver :: "table \<Rightarrow> error + table" where
  "revealUntilRiver s =
     (if phase s = River then Inr s
      else if phase s = Lobby \<or> phase s = Showdown then Inl Hangs
      else case revealNextStreet s of Inl e \<Rightarrow> Inl e | Inr s' \<Rightarrow> revealUntilRiver s')"
  by pat_completeness auto
termination
  by (relation "measure (\<lambda>s. streetsLeft (phase s))")
     (auto dest: streetsLeft_revealNextStreet)

section \<open>Showdown and payouts\<close>

text \<open>\<open>scoreById\<close> and \<open>payoutMap\<close> are JavaScript Maps keyed by player id, kept as
  association lists in insertion order.  \<open>evaluateBestKnownHand\<close> never returns \<open>null\<close> on
  seven cards; a \<open>null\<close> score is reported where the source would first read a property
  of it.\<close>

fun scoreContenders :: "table \<Rightarrow> player list \<Rightarrow> (string \<times> score) list
    \<Rightarrow> error + (string \<times> score) list" where
  "scoreContenders s [] scoreById = Inr scoreById"
| "scoreContenders s (contender # rest) scoreById =
     (case evaluateBestHand (holeCards contender @ communityCards s) of
        Inl e \<Rightarrow> Inl e
      | Inr None \<Rightarrow> Inl TypeError
      | Inr (Some sc) \<Rightarrow>
          scoreContenders s rest (AList.update (playerId contender) sc scoreById))"

fun pickWinners :: "(string \<times> score) list \<Rightarrow> player list \<Rightarrow> score option \<Rightarrow> player list
    \<Rightarrow> error + player list" where
  "pickWinners scoreById [] bestScore winners = Inr winners"
| "pickWinners scoreById (p # ps) bestScore winners =
     (case map_of scoreById (playerId p) of
        None \<Rightarrow> Inl TypeError
      | Some sc \<Rightarrow>
          (case bestScore of
             None \<Rightarrow> pickWinners scoreById ps (Some sc) [p]
           | Some b \<Rightarrow>
               if compareScores sc b > 0 then pickWinners scoreById ps (Some sc) [p]
               else if compareScores sc b = 0 then pickWinners scoreById ps bestScore (winners @ [p])
               else pickWinners scoreById ps bestScore winners))"

definition orderBySeatAfterDealer :: "table \<Rightarrow> string list \<Rightarrow> string list" where
  "orderBySeatAfterDealer s playerIds =
     filter (\<lambda>pid. pid \<in> set playerIds) (map playerId (getRingOrder s (dealerId s)))"

text \<open>\<open>payoutMap.set(id, payoutMap.get(id) + x)\<close>; for an id that is not a key the source
  would store \<open>NaN\<close>.\<close>

definition credit :: "(string \<times> int) list \<Rightarrow> string \<Rightarrow> int \<Rightarrow> error + (string \<times> int) list" where
  "credit payoutMap pid x =
     (case map_of payoutMap pid of
        None \<Rightarrow> Inl NotANumber
      | Some v \<Rightarrow> Inr (AList.update pid (v + x) payoutMap))"

fun addShares :: "player list \<Rightarrow> int \<Rightarrow> (string \<times> int) list \<Rightarrow> error + (string \<times> int) list" where
  "addShares [] evenShare payoutMap = Inr payoutMap"
| "addShares (winner # rest) evenShare payoutMap =
     (case credit payoutMap (playerId winner) evenShare of
        Inl e \<Rightarrow> Inl e
      | Inr m \<Rightarrow> addShares rest evenShare m)"

fun giveChips :: "string list \<Rightarrow> nat list \<Rightarrow> (string \<times> int) list \<Rightarrow> error + (string \<times> int) list" where
  "giveChips orderedWinnerIds [] payoutMap = Inr payoutMap"
| "giveChips orderedWinnerIds (i # rest) payoutMap =
     (if orderedWinnerIds = [] then Inl NotANumber
      else case credit payoutMap (orderedWinnerIds ! (i mod length orderedWinnerIds)) 1 of
             Inl e \<Rightarrow> Inl e
           | Inr m \<Rightarrow> giveChips orderedWinnerIds rest m)"

text \<open>One side pot (the even shares and the ordered remainder of \<open>calculatePayouts\<close>).\<close>

definition awardSidePot :: "table \<Rightarrow> player list \<Rightarrow> int \<Rightarrow> (string \<times> int) list
    \<Rightarrow> error + (string \<times> int) list" where
  "awardSidePot s winners sidePot payoutMap =
     (let evenShare = sidePot div int (length winners);
          remainder = sidePot mod int (length winners)
      in case addShares winners evenShare payoutMap of
           Inl e \<Rightarrow> Inl e
         | Inr m \<Rightarrow>
             if remainder > 0
             then giveChips (orderBySeatAfterDealer s (map playerId winners))
                    [0..<nat remainder] m
             else Inr m)"

fun payoutLevels :: "table \<Rightarrow> (string \<times> score) list \<Rightarrow> player list \<Rightarrow> int \<Rightarrow> int list
    \<Rightarrow> (string \<times> int) list \<Rightarrow> error + (string \<times> int) list" where
  "payoutLevels s scoreById contributors previousLevel [] payoutMap = Inr payoutMap"
| "payoutLevels s scoreById contributors previousLevel (level # rest) payoutMap =
     (let involved = filter (\<lambda>p. totalContribution p \<ge> level) contributors;
          sidePot = (level - previousLevel) * int (length involved)
      in if sidePot \<le> 0 then payoutLevels s scoreById contributors level rest payoutMap
         else
           (let eligible = filter (\<lambda>p. map_of scoreById (playerId p) \<noteq> None) involved in
            if length eligible = 0
            then payoutLevels s scoreById contributors level rest payoutMap
            else case pickWinners scoreById eligible None [] of
                   Inl e \<Rightarrow> Inl e
                 | Inr winners \<Rightarrow>
                     if length winners = 0
                     then payoutLevels s scoreById contributors level rest payoutMap
                     else case awardSidePot s winners sidePot payoutMap of
                            Inl e \<Rightarrow> Inl e
                          | Inr m \<Rightarrow> payoutLevels s scoreById contributors level rest m))"

definition ascending :: "int \<Rightarrow> int \<Rightarrow> int" where
  "ascending a b = a - b"

definition calculatePayouts :: "table \<Rightarrow> (string \<times> score) list \<Rightarrow> error + (string \<times> int) list" where
  "calculatePayouts s scoreById =
     (let contributors = filter (\<lambda>p. totalContribution p > 0) (players s);
          payoutMap = foldl (\<lambda>m p. AList.update (playerId p) 0 m) [] (players s);
          levels = sortBy ascending (uniqueOf [] (map totalContribution contributors))
      in payoutLevels s scoreById contributors 0 levels payoutMap)"

section \<open>Finishing and starting a hand\<close>

definition finishHand :: "env \<Rightarrow> table \<Rightarrow> error + (table \<times> out list)" where
  "finishHand ev s =
     (let s1 = s\<lparr>handInProgress := False, currentTurnId := None, currentBet := 0,
                 lastRaiseSize := bigBlind s, smallBlindId := None, bigBlindId := None,
                 deck := [], burnCards := [], seenCards := []\<rparr>;
          s2 = s1\<lparr>players := map resetPlayerHandState (players s1)\<rparr>;
          s3 = assignAdminIfNeeded (cleanupDisconnectedPlayers s2);
          eligible = filter (\<lambda>p. \<not> disconnected p \<and> chips p > 0) (players s3)
      in if gameStarted s3 \<and> length eligible \<ge> 2
         then
           (let s4 = addLog (''Next hand in '' @ showInt (NEXT_HAND_DELAY_MS div 1000)
                             @ '' seconds.'') s3
            in case emitStateToAll ev s4 of
                 Inl e \<Rightarrow> Inl e
               | Inr outs \<Rightarrow> Inr (queueNextHand s4, outs))
         else
           (let s4 = cancelNextHandTimer (s3\<lparr>gameStarted := False, phase := Lobby\<rparr>);
                s5 = addLog (if length eligible = 1 then name (eligible ! 0) @ '' wins the game.''
                             else ''Game ended.'') s4
            in emitting ev s5))"

fun handRowsOf :: "(string \<times> score) list \<Rightarrow> player list \<Rightarrow> error + handRow list" where
  "handRowsOf scoreById [] = Inr []"
| "handRowsOf scoreById (contender # rest) =
     (case map_of scoreById (playerId contender) of
        None \<Rightarrow> Inl TypeError
      | Some sc \<Rightarrow>
          (case handRowsOf scoreById rest of
             Inl e \<Rightarrow> Inl e
           | Inr rows \<Rightarrow>
               Inr (\<lparr>hrId = playerId contender, hrName = name contender,
                     hrCards = holeCards contender, hrHandName = describeScore sc\<rparr> # rows)))"

definition payWinner :: "table \<Rightarrow> string \<times> int \<Rightarrow> table" where
  "payWinner s entry =
     (case entry of (winnerId, amount) \<Rightarrow>
        if amount > 0
        then (case findPlayerIndex s winnerId of
                Some i \<Rightarrow> modifyPlayer i (\<lambda>p. p\<lparr>chips := chips p + amount\<rparr>) s
              | None \<Rightarrow> s)
        else s)"

definition payoutRowOf :: "table \<Rightarrow> string \<times> int \<Rightarrow> payoutRow" where
  "payoutRowOf s entry =
     (case entry of (winnerId, amount) \<Rightarrow>
        \<lparr>prId = winnerId,
         prName = (case findPlayer s winnerId of Some w \<Rightarrow> name w | None \<Rightarrow> ''Unknown''),
         prAmount = amount\<rparr>)"

definition resolveShowdown :: "env \<Rightarrow> table \<Rightarrow> error + (table \<times> out list)" where
  "resolveShowdown ev s =
     (let contenders = filter (\<lambda>p. inHand p \<and> \<not> folded p) (players s) in
      if length contenders = 0
      then finishHand ev (addLog ''Hand ended with no contenders.'' s)
      else case scoreContenders s contenders [] of
        Inl e \<Rightarrow> Inl e
      | Inr scoreById \<Rightarrow>
         (case calculatePayouts s scoreById of
            Inl e \<Rightarrow> Inl e
          | Inr payouts \<Rightarrow>
             (let s1 = foldl payWinner s payouts;
                  payoutRows = sortBy (\<lambda>a b. prAmount b - prAmount a)
                     (map (payoutRowOf s1) (filter (\<lambda>(winnerId, amount). amount > 0) payouts))
              in case handRowsOf scoreById contenders of
                   Inl e \<Rightarrow> Inl e
                 | Inr handRows \<Rightarrow>
                    (let s2 = s1\<lparr>phase := Showdown,
                                 lastShowdown := Some \<lparr>sdType = ''showdown'',
                                   sdCommunityCards = communityCards s1,
                                   sdHands = handRows, sdPayouts = payoutRows\<rparr>\<rparr>;
                         s3 = addLog
                                (if length payoutRows > 0
                                 then joinWith '' | ''
                                        (map (\<lambda>entry. prName entry @ '' wins ''
                                                       @ showInt (prAmount entry)) payoutRows)
                                 else ''Showdown ended with no payout.'') s2
                     in finishHand ev s3))))"

definition resolveHandByFold :: "env \<Rightarrow> table \<Rightarrow> error + (table \<times> out list)" where
  "resolveHandByFold ev s =
     (let remainingSeats = filter (\<lambda>i. inHand (players s ! i) \<and> \<not> folded (players s ! i))
                             [0..<length (players s)]
      in if length remainingSeats \<noteq> 1 then resolveShowdown ev s
         else
           (let w = remainingSeats ! 0;
                winner = players s ! w;
                winAmount = pot s;
                s1 = modifyPlayer w (\<lambda>p. p\<lparr>chips := chips p + winAmount\<rparr>) s;
                s2 = s1\<lparr>phase := Showdown,
                        lastShowdown := Some \<lparr>sdType = ''fold'',
                          sdCommunityCards = communityCards s1,
                          sdHands = [\<lparr>hrId = playerId winner, hrName = name winner,
                                     hrCards = holeCards winner,
                                     hrHandName = Some ''Won by fold''\<rparr>],
                          sdPayouts = [\<lparr>prId = playerId winner, prName = name winner,
                                       prAmount = winAmount\<rparr>]\<rparr>\<rparr>;
                s3 = addLog (name winner @ '' wins '' @ showInt winAmount
                             @ '' (everyone else folded).'') s2
            in finishHand ev s3))"

definition fastForwardBoardAndShowdown :: "env \<Rightarrow> table \<Rightarrow> error + (table \<times> out list)" where
  "fastForwardBoardAndShowdown ev s =
     (if \<not> handInProgress s then Inr (s, [])
      else if countRemainingInHand s \<le> 1 then resolveHandByFold ev s
      else case revealUntilRiver s of
             Inl e \<Rightarrow> Inl e
           | Inr s1 \<Rightarrow> resolveShowdown ev s1)"

section \<open>Streets and the turn pointer\<close>

definition goToNextStreet :: "env \<Rightarrow> table \<Rightarrow> error + (table \<times> out list)" where
  "goToNextStreet ev s =
     (if \<not> handInProgress s then Inr (s, [])
      else if phase s = River then resolveShowdown ev s
      else case revealNextStreet s of
        Inl e \<Rightarrow> Inl e
      | Inr s1 \<Rightarrow>
         (let s2 = s1\<lparr>players := map (\<lambda>p. if inHand p
                                             then (p\<lparr>betThisRound := 0\<rparr>)
                                                    \<lparr>acted := \<not> isPlayerActionable p\<rparr>
                                             else p) (players s1)\<rparr>;
              s3 = s2\<lparr>currentBet := 0, lastRaiseSize := bigBlind s2\<rparr>;
              firstToAct = getNextPlayer s3 (dealerId s3) isPlayerActionable;
              s4 = s3\<lparr>currentTurnId := seatId s3 firstToAct\<rparr>
          in if \<not> truthy (currentTurnId s4) then fastForwardBoardAndShowdown ev s4
             else emitting ev s4))"

definition advanceAfterAction :: "env \<Rightarrow> table \<Rightarrow> string \<Rightarrow> error + (table \<times> out list)" where
  "advanceAfterAction ev s lastActorId =
     (if \<not> handInProgress s then Inr (s, [])
      else if countRemainingInHand s \<le> 1 then resolveHandByFold ev s
      else if isBettingRoundComplete s then goToNextStreet ev s
      else case getNextPlayer s (Some lastActorId) isPlayerActionable of
             None \<Rightarrow> goToNextStreet ev s
           | Some i \<Rightarrow> emitting ev (s\<lparr>currentTurnId := Some (playerId (players s ! i))\<rparr>))"

definition postForcedBet :: "nat \<Rightarrow> int \<Rightarrow> string \<Rightarrow> table \<Rightarrow> table" where
  "postForcedBet i amount label s =
     (let paid = min amount (chips (players s ! i));
          s1 = commitBet i paid s;
          s2 = (if chips (players s1 ! i) = 0 then modifyPlayer i (\<lambda>p. p\<lparr>allIn := True\<rparr>) s1
                else s1)
      in addLog (name (players s2 ! i) @ '' posts '' @ label @ '' ('' @ showInt paid @ '').'') s2)"

text \<open>The blinds of \<open>startNextHand\<close>, for the small-blind and big-blind seats.\<close>

definition postBlinds :: "nat \<Rightarrow> nat \<Rightarrow> table \<Rightarrow> table" where
  "postBlinds sb bb s =
     (let s1 = s\<lparr>smallBlindId := Some (playerId (players s ! sb)),
                 bigBlindId := Some (playerId (players s ! bb))\<rparr>;
          s2 = postForcedBet sb (smallBlind s1) ''small blind'' s1;
          s3 = postForcedBet bb (bigBlind s2) ''big blind'' s2;
          s4 = s3\<lparr>currentBet := max (bigBlind s3)
                      (max (betThisRound (players s3 ! sb)) (betThisRound (players s3 ! bb))),
                   lastRaiseSize := bigBlind s3\<rparr>;
          s5 = s4\<lparr>players := map (\<lambda>p. p\<lparr>acted := \<not> isPlayerActionable p\<rparr>) (players s4)\<rparr>;
          firstToAct = getNextPlayer s5 (bigBlindId s5) isPlayerActionable
      in s5\<lparr>currentTurnId := seatId s5 firstToAct\<rparr>)"

fun dealRound :: "nat list \<Rightarrow> table \<Rightarrow> error + table" where
  "dealRound [] s = Inr s"
| "dealRound (i # rest) s =
     (if inHand (players s ! i)
      then (case drawCard ''dealing hole cards'' s of
              Inl e \<Rightarrow> Inl e
            | Inr (c, s1) \<Rightarrow>
                dealRound rest (modifyPlayer i (\<lambda>p. p\<lparr>holeCards := holeCards p @ [c]\<rparr>) s1))
      else dealRound rest s)"

definition dealHoleCards :: "table \<Rightarrow> error + table" where
  "dealHoleCards s =
     (case dealRound [0..<length (players s)] s of
        Inl e \<Rightarrow> Inl e
      | Inr s1 \<Rightarrow> dealRound [0..<length (players s1)] s1)"

definition startHandState :: "player \<Rightarrow> player" where
  "startHandState p =
     (let h = (\<not> disconnected p \<and> chips p > 0) in
      p\<lparr>inHand := h, folded := \<not> h, allIn := False, holeCards := [], betThisRound := 0,
        totalContribution := 0, acted := False\<rparr>)"

text \<open>\<open>startNextHand\<close> in its steps: the lobby fallback, the reset of the table for a new
  hand, the dealer button, the blind seats, and the start of the betting.\<close>

definition stopForLackOfPlayers :: "player list \<Rightarrow> table \<Rightarrow> table" where
  "stopForLackOfPlayers eligible s0 =
     (let s1 = cancelNextHandTimer
                 (s0\<lparr>gameStarted := False, handInProgress := False, phase := Lobby,
                     deck := [], burnCards := [], seenCards := [], currentTurnId := None,
                     smallBlindId := None, bigBlindId := None, currentBet := 0,
                     lastRaiseSize := bigBlind s0\<rparr>)
      in addLog (if length eligible = 1 then name (eligible ! 0) @ '' wins the game.''
                 else ''Game stopped: not enough players.'') s1)"

definition resetForHand :: "table \<Rightarrow> table" where
  "resetForHand s0 =
     s0\<lparr>handInProgress := True, phase := Preflop,
        handNumber := handNumber s0 + 1, communityCards := [], pot := 0,
        currentBet := 0, lastRaiseSize := bigBlind s0, currentTurnId := None,
        smallBlindId := None, bigBlindId := None, lastShowdown := None,
        burnCards := [], seenCards := []\<rparr>"

definition chooseDealer :: "player list \<Rightarrow> table \<Rightarrow> table" where
  "chooseDealer eligible s3 =
     (if \<not> truthy (dealerId s3)
         \<or> \<not> list_ex (\<lambda>p. Some (playerId p) = dealerId s3) eligible
      then s3\<lparr>dealerId := Some (playerId (eligible ! 0))\<rparr>
      else (case getNextPlayer s3 (dealerId s3) inHand of
              Some nextDealer \<Rightarrow> s3\<lparr>dealerId := Some (playerId (players s3 ! nextDealer))\<rparr>
            | None \<Rightarrow> s3\<lparr>dealerId := Some (playerId (eligible ! 0))\<rparr>))"

definition blindSeats :: "table \<Rightarrow> nat option \<times> nat option" where
  "blindSeats s5 =
     (let playersInHand = filter inHand (players s5);
          smallBlindPlayer =
            (if length playersInHand = 2
             then (case dealerId s5 of None \<Rightarrow> None | Some d \<Rightarrow> findPlayerIndex s5 d)
             else getNextPlayer s5 (dealerId s5) inHand);
          bigBlindPlayer =
            (if length playersInHand = 2
             then getNextPlayer s5 (dealerId s5) inHand
             else getNextPlayer s5
                    (case smallBlindPlayer of
                       Some sb \<Rightarrow> Some (playerId (players s5 ! sb))
                     | None \<Rightarrow> dealerId s5) inHand)
      in (smallBlindPlayer, bigBlindPlayer))"

definition startBetting :: "env \<Rightarrow> table \<Rightarrow> error + (table \<times> out list)" where
  "startBetting ev s5 =
     (case blindSeats s5 of
        (Some sb, Some bb) \<Rightarrow>
          (let s6 = postBlinds sb bb s5 in
           case (case dealerId s6 of None \<Rightarrow> None | Some d \<Rightarrow> findPlayer s6 d) of
             None \<Rightarrow> Inl TypeError
           | Some dealer \<Rightarrow>
              (let s7 = addLog (''Hand #'' @ showInt (handNumber s6)
                                @ '' started. Dealer: '' @ name dealer @ ''.'') s6
               in if \<not> truthy (currentTurnId s7)
                  then fastForwardBoardAndShowdown ev s7
                  else emitting ev s7))
      | _ \<Rightarrow> resolveHandByFold ev (addLog ''Unable to assign blinds.'' s5))"

definition startNextHand :: "env \<Rightarrow> table \<Rightarrow> error + (table \<times> out list)" where
  "startNextHand ev s =
     (let s0 = assignAdminIfNeeded (cleanupDisconnectedPlayers s);
          eligible = filter (\<lambda>p. \<not> disconnected p \<and> chips p > 0) (players s0)
      in if length eligible < 2
         then emitting ev (stopForLackOfPlayers eligible s0)
         else
           (let s1 = resetForHand s0;
                freshDeck = createDeck
            in case assertDeckShape freshDeck of
              Inl e \<Rightarrow> Inl e
            | Inr _ \<Rightarrow>
               (let s2 = s1\<lparr>deck := shuffleDeck (randomIndex ev) freshDeck\<rparr> in
                case assertDeckShape (deck s2) of
                  Inl e \<Rightarrow> Inl e
                | Inr _ \<Rightarrow>
                   (let s3 = s2\<lparr>players := map startHandState (players s2)\<rparr>;
                        s4 = chooseDealer eligible s3
                    in case dealHoleCards s4 of
                         Inl e \<Rightarrow> Inl e
                       | Inr s5 \<Rightarrow> startBetting ev s5))))"

section \<open>The action handler\<close>

text \<open>The payload of an \<open>action\<close> event: \<open>actionType\<close> is \<open>None\<close> when \<open>action.type\<close> is not
  a string; \<open>actionAmount\<close> is \<open>Number(action.amount)\<close> when that is an integer and
  \<open>None\<close> otherwise (NaN, a fraction, an infinity).\<close>

record actionPayload =
  actionType :: "string option"
  actionAmount :: "int option"

definition toLowerCase :: "string \<Rightarrow> string" where
  "toLowerCase v = map (\<lambda>c. if (65::nat) \<le> of_char c \<and> of_char c \<le> (90::nat)
                            then char_of (of_char c + (32::nat)) else c) v"

text \<open>The mutation of an accepted raise, from \<open>commitBet\<close> to the all-in flag.\<close>

definition applyRaise :: "nat \<Rightarrow> int \<Rightarrow> table \<Rightarrow> table" where
  "applyRaise i targetTotal s =
     (let raiseSize = targetTotal - currentBet s;
          isFullRaise = (raiseSize \<ge> lastRaiseSize s);
          raiseAmount = targetTotal - betThisRound (players s ! i);
          s1 = commitBet i raiseAmount s;
          s2 = s1\<lparr>currentBet := targetTotal\<rparr>;
          s3 = (if isFullRaise
                then s2\<lparr>lastRaiseSize := raiseSize,
                        players := map (\<lambda>p. p\<lparr>acted := \<not> isPlayerActionable p\<rparr>) (players s2)\<rparr>
                else s2);
          s4 = modifyPlayer i (\<lambda>p. p\<lparr>acted := True\<rparr>) s3;
          s5 = (if chips (players s4 ! i) = 0 then modifyPlayer i (\<lambda>p. p\<lparr>allIn := True\<rparr>) s4
                else s4)
      in addLog (name (players s5 ! i) @ '' raises to '' @ showInt targetTotal @ ''.'') s5)"

text \<open>The four branches of \<open>handleAction\<close>, for the acting seat \<open>i\<close>.\<close>

definition toCallOf :: "table \<Rightarrow> player \<Rightarrow> int" where
  "toCallOf s p = max 0 (currentBet s - betThisRound p)"

definition handleFold :: "env \<Rightarrow> table \<Rightarrow> string \<Rightarrow> nat \<Rightarrow> error + (table \<times> out list)" where
  "handleFold ev s pid i =
     advanceAfterAction ev
       (addLog (name (players s ! i) @ '' folds.'')
          (modifyPlayer i (\<lambda>q. q\<lparr>folded := True, inHand := False, acted := True\<rparr>) s))
       pid"

definition handleCheck :: "env \<Rightarrow> table \<Rightarrow> string \<Rightarrow> nat \<Rightarrow> error + (table \<times> out list)" where
  "handleCheck ev s pid i =
     (if toCallOf s (players s ! i) \<noteq> 0
      then Inr (s, sendError ev pid ''You cannot check when facing a bet.'')
      else advanceAfterAction ev
             (addLog (name (players s ! i) @ '' checks.'')
                (modifyPlayer i (\<lambda>q. q\<lparr>acted := True\<rparr>) s))
             pid)"

definition applyCall :: "nat \<Rightarrow> table \<Rightarrow> table" where
  "applyCall i s =
     (let p = players s ! i;
          callAmount = min (toCallOf s p) (chips p);
          s1 = modifyPlayer i (\<lambda>q. q\<lparr>acted := True\<rparr>) (commitBet i callAmount s)
      in if chips (players s1 ! i) = 0
         then addLog (name p @ '' calls all-in for '' @ showInt callAmount @ ''.'')
                (modifyPlayer i (\<lambda>q. q\<lparr>allIn := True\<rparr>) s1)
         else addLog (name p @ '' calls '' @ showInt callAmount @ ''.'') s1)"

definition handleCall :: "env \<Rightarrow> table \<Rightarrow> string \<Rightarrow> nat \<Rightarrow> error + (table \<times> out list)" where
  "handleCall ev s pid i =
     (if toCallOf s (players s ! i) = 0
      then Inr (s, sendError ev pid ''Nothing to call. Use check.'')
      else advanceAfterAction ev (applyCall i s) pid)"

definition handleRaise :: "env \<Rightarrow> table \<Rightarrow> string \<Rightarrow> nat \<Rightarrow> int option
    \<Rightarrow> error + (table \<times> out list)" where
  "handleRaise ev s pid i amount =
     (let p = players s ! i in
      case amount of
        None \<Rightarrow> Inr (s, sendError ev pid ''Raise amount must be an integer.'')
      | Some targetTotal \<Rightarrow>
         (let maxTotal = betThisRound p + chips p;
              minRaise = getMinRaiseTo s;
              raiseRightsOpen = (\<not> acted p \<or> toCallOf s p = 0);
              isAllInRaise = (targetTotal = maxTotal)
          in if \<not> raiseRightsOpen
             then Inr (s, sendError ev pid
                     ''Betting is not reopened. You may only call or fold.'')
             else if targetTotal \<le> currentBet s
             then Inr (s, sendError ev pid ''Raise must be higher than current bet.'')
             else if targetTotal > maxTotal
             then Inr (s, sendError ev pid ''You do not have enough chips for that raise.'')
             else if targetTotal < minRaise \<and> \<not> isAllInRaise
             then Inr (s, sendError ev pid
                     (''Minimum raise is to '' @ showInt minRaise
                      @ '', unless you are all-in.''))
             else advanceAfterAction ev (applyRaise i targetTotal s) pid))"

definition handleAction :: "env \<Rightarrow> table \<Rightarrow> string \<Rightarrow> actionPayload
    \<Rightarrow> error + (table \<times> out list)" where
  "handleAction ev s pid action =
     (case findPlayerIndex s pid of
        None \<Rightarrow> Inr (s, [])
      | Some i \<Rightarrow>
          if \<not> gameStarted s \<or> \<not> handInProgress s
          then Inr (s, sendError ev pid ''No active hand right now.'')
          else if currentTurnId s \<noteq> Some pid
          then Inr (s, sendError ev pid ''It is not your turn.'')
          else if \<not> isPlayerActionable (players s ! i)
          then Inr (s, sendError ev pid ''You cannot act right now.'')
          else
           (let actionType = (case actionType action of None \<Rightarrow> [] | Some t \<Rightarrow> toLowerCase t)
            in if actionType = ''fold'' then handleFold ev s pid i
               else if actionType = ''check'' then handleCheck ev s pid i
               else if actionType = ''call'' then handleCall ev s pid i
               else if actionType = ''raise'' then handleRaise ev s pid i (actionAmount action)
               else Inr (s, sendError ev pid ''Invalid action.'')))"

section \<open>Disconnects and the lobby handlers\<close>

definition stopIfTooFew :: "table \<Rightarrow> table" where
  "stopIfTooFew s =
     (if gameStarted s \<and> \<not> handInProgress s
      then (let eligible = filter (\<lambda>seat. \<not> disconnected seat \<and> chips seat > 0) (players s) in
            if length eligible < 2
            then addLog ''Game stopped: not enough players.''
                   (cancelNextHandTimer (s\<lparr>gameStarted := False, phase := Lobby\<rparr>))
            else s)
      else s)"

definition handleDisconnect :: "env \<Rightarrow> table \<Rightarrow> string \<Rightarrow> error + (table \<times> out list)" where
  "handleDisconnect ev s pid =
     (case findPlayerIndex s pid of
        None \<Rightarrow> Inr (s, [])
      | Some i \<Rightarrow>
         (let nm = name (players s ! i);
              s1 = assignAdminIfNeeded
                     (addLog (nm @ '' disconnected.'')
                        (modifyPlayer i (\<lambda>q. q\<lparr>disconnected := True, isAdmin := False\<rparr>) s));
              p = players s1 ! i
          in if handInProgress s1 \<and> inHand p \<and> \<not> folded p
             then (if allIn p
                   then emitting ev (stopIfTooFew
                          (addLog (nm @ '' is all-in; hand will continue to showdown.'') s1))
                   else
                     (let s2 = addLog (nm @ '' folds due to disconnect.'')
                                 (modifyPlayer i (\<lambda>q. q\<lparr>folded := True, inHand := False,
                                                         acted := True\<rparr>) s1)
                      in if currentTurnId s2 = Some (playerId (players s2 ! i))
                         then advanceAfterAction ev s2 (playerId (players s2 ! i))
                         else if countRemainingInHand s2 \<le> 1 then resolveHandByFold ev s2
                         else emitting ev (stopIfTooFew s2)))
             else if \<not> handInProgress s1
             then emitting ev (stopIfTooFew (cleanupDisconnectedPlayers s1))
             else emitting ev (stopIfTooFew s1)))"

definition onJoin :: "env \<Rightarrow> table \<Rightarrow> string \<Rightarrow> string option \<Rightarrow> error + (table \<times> out list)" where
  "onJoin ev s sid payloadName =
     (if findPlayer s sid \<noteq> None
      then Inr (s, [ErrorMessage sid ''You are already seated.''])
      else if gameStarted s
      then Inr (s, [ErrorMessage sid ''Game already started. Wait for the next game.''])
      else (let nm = sanitizeName payloadName in
            if nm = [] then Inr (s, [ErrorMessage sid ''Enter a valid name (2-20 characters).''])
            else emitting ev
                   (addLog (nm @ '' joined the lobby.'')
                      (assignAdminIfNeeded (s\<lparr>players := players s @ [createPlayer s sid nm]\<rparr>)))))"

text \<open>\<open>setStartingStack\<close>: the payload amount is \<open>Number(payload.amount)\<close> when that is an
  integer, \<open>None\<close> otherwise.\<close>

definition onSetStartingStack :: "env \<Rightarrow> table \<Rightarrow> string \<Rightarrow> int option
    \<Rightarrow> error + (table \<times> out list)" where
  "onSetStartingStack ev s sid payloadAmount =
     (case findPlayer s sid of
        None \<Rightarrow> Inr (s, [ErrorMessage sid ''Only the admin can set starting money.''])
      | Some p \<Rightarrow>
          if \<not> isAdmin p
          then Inr (s, [ErrorMessage sid ''Only the admin can set starting money.''])
          else if gameStarted s
          then Inr (s, [ErrorMessage sid ''Cannot change starting money after game start.''])
          else (case payloadAmount of
                  None \<Rightarrow> Inr (s, [ErrorMessage sid
                             ''Starting money must be an integer between 50 and 1,000,000.''])
                | Some amount \<Rightarrow>
                    if amount < 50 \<or> amount > 1000000
                    then Inr (s, [ErrorMessage sid
                             ''Starting money must be an integer between 50 and 1,000,000.''])
                    else emitting ev
                           (addLog (name p @ '' set starting money to '' @ showInt amount @ ''.'')
                              (s\<lparr>startingStack := amount,
                                 players := map (\<lambda>seatedPlayer.
                                     if \<not> disconnected seatedPlayer
                                     then seatedPlayer\<lparr>chips := amount\<rparr>
                                     else seatedPlayer) (players s)\<rparr>))))"

definition onStartGame :: "env \<Rightarrow> table \<Rightarrow> string \<Rightarrow> error + (table \<times> out list)" where
  "onStartGame ev s sid =
     (case findPlayer s sid of
        None \<Rightarrow> Inr (s, [ErrorMessage sid ''Only the admin can start the game.''])
      | Some p \<Rightarrow>
          if \<not> isAdmin p
          then Inr (s, [ErrorMessage sid ''Only the admin can start the game.''])
          else if gameStarted s
          then Inr (s, [ErrorMessage sid ''Game is already running.''])
          else
            (let s1 = cleanupDisconnectedPlayers s;
                 connectedPlayers = getConnectedPlayers s1
             in if length connectedPlayers < 2
                then Inr (s1, [ErrorMessage sid ''Need at least 2 players to start.''])
                else
                  (let s2 = s1\<lparr>players := map (\<lambda>q. if \<not> disconnected q
                                   then resetPlayerHandState (q\<lparr>chips := startingStack s1\<rparr>)
                                   else q) (players s1)\<rparr>;
                       s3 = (cancelNextHandTimer s2)\<lparr>gameStarted := True, handNumber := 0,
                               dealerId := None, lastShowdown := None\<rparr>;
                       s4 = addLog (name p @ '' started the game.'') s3
                   in startNextHand ev s4)))"

definition onConnection :: "env \<Rightarrow> table \<Rightarrow> string \<Rightarrow> error + (table \<times> out list)" where
  "onConnection ev s sid =
     (case buildStateFor s sid of Inl e \<Rightarrow> Inl e | Inr v \<Rightarrow> Inr (s, [StateMsg sid v]))"

text \<open>The timer callback runs only for a pending timeout.\<close>

definition onNextHandTimer :: "env \<Rightarrow> table \<Rightarrow> error + (table \<times> out list)" where
  "onNextHandTimer ev s =
     (if nextHandTimer s = Some TimerPending
      then startNextHand ev (s\<lparr>nextHandTimer := Some TimerFired\<rparr>)
      else Inr (s, []))"

datatype event =
    Connection string
  | Join string "string option"
  | SetStartingStack string "int option"
  | StartGame string
  | Action string actionPayload
  | Disconnect string
  | NextHandTimer

fun handleEvent :: "env \<Rightarrow> table \<Rightarrow> event \<Rightarrow> error + (table \<times> out list)" where
  "handleEvent ev s (Connection sid) = onConnection ev s sid"
| "handleEvent ev s (Join sid nm) = onJoin ev s sid nm"
| "handleEvent ev s (SetStartingStack sid amount) = onSetStartingStack ev s sid amount"
| "handleEvent ev s (StartGame sid) = onStartGame ev s sid"
| "handleEvent ev s (Action sid action) = handleAction ev s sid action"
| "handleEvent ev s (Disconnect sid) = handleDisconnect ev s sid"
| "handleEvent ev s NextHandTimer = onNextHandTimer ev s"

section \<open>Reference notions for the evaluator\<close>

text \<open>
  The five-card sub-hands of a hand in the order the search visits them, the running best
  over a list of hands, and the comparator as the specification words it: category first,
  then the tiebreak lists in lexicographic order with missing positions read as 0.
\<close>

fun combos :: "nat \<Rightarrow> 'a list \<Rightarrow> 'a list list" where
  "combos 0 xs = [[]]"
| "combos (Suc k) [] = []"
| "combos (Suc k) (x # xs) = map ((#) x) (combos k xs) @ combos (Suc k) xs"

fun considerAll :: "score option \<Rightarrow> card list list \<Rightarrow> error + score option" where
  "considerAll b [] = Inr b"
| "considerAll b (h # hs) =
     (case evaluateFiveCardHand h of Inl e \<Rightarrow> Inl e | Inr sc \<Rightarrow> considerAll (better b sc) hs)"

definition padZeros :: "nat \<Rightarrow> int list \<Rightarrow> int list" where
  "padZeros n xs = xs @ replicate (n - length xs) 0"

definition lexSign :: "int list \<Rightarrow> int list \<Rightarrow> int" where
  "lexSign x y = (if x < y then - 1 else if y < x then 1 else 0)"

definition specCompare :: "score \<Rightarrow> score \<Rightarrow> int" where
  "specCompare a b =
     (if category a < category b then - 1
      else if category b < category a then 1
      else (let n = max (length (ranks a)) (length (ranks b))
            in lexSign (padZeros n (ranks a)) (padZeros n (ranks b))))"

definition scoresOf :: "card list list \<Rightarrow> score set" where
  "scoresOf hs = {sc. \<exists>h \<in> set hs. evaluateFiveCardHand h = Inr sc}"

definition sameSuit :: "card list \<Rightarrow> bool" where
  "sameSuit cards = (\<forall>c \<in> set cards. \<forall>d \<in> set cards. charAt c 1 = charAt d 1)"

definition hasRanks :: "card list \<Rightarrow> string \<Rightarrow> bool" where
  "hasRanks cards rs = (length cards = length rs \<and> (\<lambda>c. charAt c 0) ` set cards = Some ` set rs)"

section \<open>Notions used in the statements\<close>

definition onlyStates :: "out list \<Rightarrow> bool" where
  "onlyStates outs = (\<forall>x \<in> set outs. \<exists>sid v. x = StateMsg sid v)"

definition stackRequestOk :: "table \<Rightarrow> string \<Rightarrow> int option \<Rightarrow> bool" where
  "stackRequestOk s sid payloadAmount =
     ((case findPlayer s sid of None \<Rightarrow> False | Some p \<Rightarrow> isAdmin p) \<and> \<not> gameStarted s \<and>
      (case payloadAmount of None \<Rightarrow> False
       | Some amount \<Rightarrow> 50 \<le> amount \<and> amount \<le> 1000000))"

definition otherCards :: "string \<Rightarrow> player \<Rightarrow> player \<Rightarrow> bool" where
  "otherCards viewerId p q =
     (if playerId p = viewerId then q = p else q = p\<lparr>holeCards := holeCards q\<rparr>)"

definition totalContributions :: "table \<Rightarrow> int" where
  "totalContributions s = sum_list (map totalContribution (players s))"

definition potMatches :: "table \<Rightarrow> bool" where
  "potMatches s = (pot s = totalContributions s)"

definition tableInv :: "table \<Rightarrow> bool" where
  "tableInv s = ((handInProgress s \<longrightarrow> gameStarted s \<and> potMatches s) \<and>
                 (nextHandTimer s = Some TimerPending \<longrightarrow> gameStarted s))"

definition sameMoney :: "table \<Rightarrow> table \<Rightarrow> bool" where
  "sameMoney s s' = (players s' = players s \<and> pot s' = pot s \<and> gameStarted s' = gameStarted s \<and>
    handInProgress s' = handInProgress s \<and> nextHandTimer s' = nextHandTimer s \<and>
    bigBlind s' = bigBlind s \<and> dealerId s' = dealerId s)"

definition raiseLegal :: "table \<Rightarrow> player \<Rightarrow> int \<Rightarrow> bool" where
  "raiseLegal s p n =
     ((\<not> acted p \<or> max 0 (currentBet s - betThisRound p) = 0) \<and>
      n > currentBet s \<and>
      n \<le> betThisRound p + chips p \<and>
      (n \<ge> getMinRaiseTo s \<or> n = betThisRound p + chips p))"

definition isRaise :: "actionPayload \<Rightarrow> int \<Rightarrow> bool" where
  "isRaise a n = ((case actionType a of None \<Rightarrow> False | Some t \<Rightarrow> toLowerCase t = ''raise'') \<and>
                  actionAmount a = Some n)"

definition onTurn :: "env \<Rightarrow> table \<Rightarrow> string \<Rightarrow> nat \<Rightarrow> bool" where
  "onTurn ev s pid i =
     (findPlayerIndex s pid = Some i \<and> gameStarted s \<and> handInProgress s \<and>
      currentTurnId s = Some pid \<and> isPlayerActionable (players s ! i) \<and> pid \<in> set (sockets ev))"


definition seated :: "string \<Rightarrow> string \<Rightarrow> int \<Rightarrow> player" where
  "seated sid nm stack = (createPlayer initialState sid nm)\<lparr>chips := stack\<rparr>"

definition demoEnv :: env where
  "demoEnv = \<lparr>sockets = [''p1'', ''p2'', ''p3''], randomIndex = (\<lambda>i. 7 * i + 3)\<rparr>"

definition shortBlindTable :: table where
  "shortBlindTable = initialState\<lparr>players := [(seated ''p1'' ''Ann'' 1000)\<lparr>isAdmin := True\<rparr>,
      seated ''p2'' ''Bob'' 1000, seated ''p3'' ''Cyd'' 15], gameStarted := True\<rparr>"

definition payoutTotal :: "(string \<times> int) list \<Rightarrow> int" where
  "payoutTotal m = sum_list (map snd m)"

text \<open>The ring order is a rotation of the seat list.\<close>

definition dealerOffset :: "table \<Rightarrow> nat" where
  "dealerOffset s =
     (case dealerId s of
        None \<Rightarrow> 0
      | Some d \<Rightarrow> if d = [] then 0
                  else (case findPlayerIndex s d of None \<Rightarrow> 0 | Some i \<Rightarrow> Suc i))"

definition inPlay :: "string \<Rightarrow> string \<Rightarrow> int \<Rightarrow> int \<Rightarrow> bool \<Rightarrow> card list \<Rightarrow> player" where
  "inPlay sid nm stack bet hasActed cards =
     (seated sid nm stack)\<lparr>inHand := True, betThisRound := bet, totalContribution := bet,
        acted := hasActed, holeCards := cards\<rparr>"

definition underRaiseTable :: table where
  "underRaiseTable = initialState\<lparr>
     players := [(inPlay ''p1'' ''Ann'' 900 100 False [''AS'', ''KS''])\<lparr>isAdmin := True\<rparr>,
                 inPlay ''p2'' ''Bob'' 750 250 True [''QH'', ''QC''],
                 inPlay ''p3'' ''Cyd'' 300 0 False [''7D'', ''7H'']],
     gameStarted := True, handInProgress := True, handNumber := 1, phase := Flop,
     communityCards := [''2S'', ''7S'', ''9S''], pot := 350, currentBet := 250,
     lastRaiseSize := 150, currentTurnId := Some ''p3'', dealerId := Some ''p3''\<rparr>"

definition otherCardsTable :: table where
  "otherCardsTable = underRaiseTable\<lparr>
     players := [(inPlay ''p1'' ''Ann'' 900 100 False [''AS'', ''KS''])\<lparr>isAdmin := True\<rparr>,
                 inPlay ''p2'' ''Bob'' 750 250 True [''3H'', ''4C''],
                 inPlay ''p3'' ''Cyd'' 300 0 False [''7D'', ''7H'']]\<rparr>"

definition raiseTo :: "int \<Rightarrow> actionPayload" where
  "raiseTo n = \<lparr>actionType = Some ''Raise'', actionAmount = Some n\<rparr>"

definition tiedTable :: table where
  "tiedTable = initialState\<lparr>
     players := [inPlay ''p1'' ''Ann'' 0 101 True [''AS'', ''KS''],
                 inPlay ''p2'' ''Bob'' 0 100 True [''AH'', ''KH''],
                 inPlay ''p3'' ''Cyd'' 0 100 True [''AD'', ''KD'']],
     gameStarted := True, handInProgress := True, handNumber := 1, phase := River,
     communityCards := [''2C'', ''7C'', ''9S'', ''JH'', ''QD''], pot := 301,
     dealerId := Some ''p1''\<rparr>"

definition tiedScores :: "(string \<times> score) list" where
  "tiedScores = map (\<lambda>p. (playerId p, \<lparr>category = 0, ranks = [14, 13, 12, 11, 9]\<rparr>))
                  (players tiedTable)"

definition lobbyTable :: table where
  "lobbyTable = initialState\<lparr>players := [(seated ''p1'' ''Ann'' 1000)\<lparr>isAdmin := True\<rparr>,
      (seated ''p2'' ''Bob'' 1000)\<lparr>disconnected := True\<rparr>]\<rparr>"

definition stateAfter :: "error + (table \<times> out list) \<Rightarrow> table option" where
  "stateAfter res = (case res of Inl e \<Rightarrow> None | Inr (s, outs) \<Rightarrow> Some s)"

definition blindFacts :: "table \<Rightarrow> int \<times> int \<times> int \<times> int \<times> int \<times> bool \<times> string option" where
  "blindFacts s = (currentBet s, getMinRaiseTo s, lastRaiseSize s,
     betThisRound (players s ! 2), chips (players s ! 2), allIn (players s ! 2), bigBlindId s)"

text \<open>A run of the server: the events in the order they are handled, each with the
  environment it meets.  A handler that throws ends the run.\<close>

fun runEvents :: "table \<Rightarrow> (env \<times> event) list \<Rightarrow> error + table" where
  "runEvents s [] = Inr s"
| "runEvents s ((ev, e) # rest) =
     (case handleEvent ev s e of Inl x \<Rightarrow> Inl x | Inr (s', outs) \<Rightarrow> runEvents s' rest)"

definition headsUpEnv :: env where
  "headsUpEnv = \<lparr>sockets = [''p1'', ''p2''], randomIndex = (\<lambda>i. 7 * i + 3)\<rparr>"

definition foldAction :: actionPayload where
  "foldAction = \<lparr>actionType = Some ''fold'', actionAmount = None\<rparr>"

definition headsUpStart :: "(env \<times> event) list" where
  "headsUpStart = map (Pair headsUpEnv)
     [Join ''p1'' (Some ''Ann''), Join ''p2'' (Some ''Bob''), StartGame ''p1'']"


text \<open>Between hands no player holds a contribution, and the timer of the next hand is
  pending only between hands.\<close>

definition noContributions :: "table \<Rightarrow> bool" where
  "noContributions s = (\<forall>p \<in> set (players s). totalContribution p = 0)"

definition settled :: "table \<Rightarrow> bool" where
  "settled s = ((\<not> handInProgress s \<longrightarrow> noContributions s) \<and>
                (nextHandTimer s = Some TimerPending \<longrightarrow> \<not> handInProgress s))"



















text \<open>Two tables that are equal except for the hole cards of players other than the
  viewer and for the \<open>lastShowdown\<close> snapshot; and a projection with its snapshot left
  out.\<close>

definition sameButHiddenCards :: "string \<Rightarrow> table \<Rightarrow> table \<Rightarrow> bool" where
  "sameButHiddenCards viewerId s t =
     (t = s\<lparr>players := players t, lastShowdown := lastShowdown t\<rparr> \<and>
      list_all2 (otherCards viewerId) (players s) (players t))"

definition liveView :: "error + view \<Rightarrow> error + view" where
  "liveView res = map_sum id (\<lambda>v. v\<lparr>vLastShowdown := None\<rparr>) res"

definition shownCards :: "table \<Rightarrow> card list list" where
  "shownCards s = (case lastShowdown s of None \<Rightarrow> [] | Some sd \<Rightarrow> map hrCards (sdHands sd))"

text \<open>The hole cards a projection carries in its snapshot, and those in the \<open>state\<close>
  messages a handler sends to one socket.\<close>

definition snapshotCards :: "view \<Rightarrow> card list list" where
  "snapshotCards v = (case vLastShowdown v of None \<Rightarrow> [] | Some sd \<Rightarrow> map hrCards (sdHands sd))"

definition cardsSentTo :: "string \<Rightarrow> error + (table \<times> out list) \<Rightarrow> card list list list" where
  "cardsSentTo sid res =
     concat (map (\<lambda>x. case x of
                        StateMsg to v \<Rightarrow> if to = sid then [snapshotCards v] else []
                      | ErrorMessage to m \<Rightarrow> [])
               (snd (projr res)))"

definition dealtTable :: table where
  "dealtTable = projr (runEvents initialState headsUpStart)"

definition otherDeal :: table where
  "otherDeal = modifyPlayer 1 (\<lambda>p. p\<lparr>holeCards := [''AS'', ''AH'']\<rparr>) dealtTable"

definition leakFacts :: "env \<Rightarrow> table \<Rightarrow> table \<Rightarrow> string \<Rightarrow> actionPayload
    \<Rightarrow> bool \<times> string list \<times> card list list \<times> card list list
       \<times> (bool \<times> card list list list) \<times> (bool \<times> card list list list)" where
  "leakFacts ev s t pid a =
     (sameButHiddenCards pid s t, map playerId (players s),
      map holeCards (players s), map holeCards (players t),
      (isl (handleAction ev s pid a), cardsSentTo pid (handleAction ev s pid a)),
      (isl (handleAction ev t pid a), cardsSentTo pid (handleAction ev t pid a)))"

definition foldedTable :: table where
  "foldedTable = addLog ''Ann folds.''
     (modifyPlayer 0 (\<lambda>q. q\<lparr>folded := True, inHand := False, acted := True\<rparr>) dealtTable)"

section \<open>The evaluator: properties\<close>

declare pickCards.simps [simp del] pickLoop.simps [simp del]

lemma combos_filter_subseqs: "combos k xs = filter (\<lambda>s. length s = k) (subseqs xs)"
proof (induction k xs rule: combos.induct)
  case (1 xs)
  show ?case by (induction xs) (auto simp: Let_def filter_map comp_def)
next
  case (2 k)
  show ?case by simp
next
  case (3 k x xs)
  then show ?case by (simp add: Let_def filter_map comp_def)
qed

lemma length_combos: "length (combos k xs) = length xs choose k"
  by (induction k xs rule: combos.induct) auto

lemma combos_short: "length xs < k \<Longrightarrow> combos k xs = []"
  by (induction k xs rule: combos.induct) auto

lemma length_in_combos: "ys \<in> set (combos k xs) \<Longrightarrow> length ys = k"
  by (simp add: combos_filter_subseqs)

lemma considerAll_append:
  "considerAll b (hs @ hs') =
     (case considerAll b hs of Inl e \<Rightarrow> Inl e | Inr b' \<Rightarrow> considerAll b' hs')"
  by (induction hs arbitrary: b) (auto split: sum.splits)

lemma pick_enumerates:
  "(length selection \<le> 5 \<longrightarrow>
      pickCards cards selection startIndex bestScore =
        considerAll bestScore
          (map ((@) selection) (combos (5 - length selection) (drop startIndex cards))))"
  "(length selection' < 5 \<longrightarrow>
      pickLoop cards' selection' i bestScore' =
        considerAll bestScore'
          (map ((@) selection') (combos (5 - length selection') (drop i cards'))))"
proof (induction cards selection startIndex bestScore and cards' selection' i bestScore'
        rule: pickCards_pickLoop.induct)
  case (1 cards selection startIndex bestScore)
  show ?case
  proof (cases "length selection = 5")
    case True
    then show ?thesis by (simp add: pickCards.simps split: sum.splits)
  next
    case False
    with 1 show ?thesis by (simp add: pickCards.simps)
  qed
next
  case (2 cards selection i bestScore)
  show ?case
  proof (intro impI)
    assume lt: "length selection < 5"
    then obtain k where k: "5 - length selection = Suc k" "5 - Suc (length selection) = k"
      by (cases "5 - length selection") auto
    show "pickLoop cards selection i bestScore =
        considerAll bestScore
          (map ((@) selection) (combos (5 - length selection) (drop i cards)))"
    proof (cases "i + (5 - length selection) \<le> length cards")
      case True
      then have i: "i < length cards" using k by simp
      have d: "drop i cards = cards ! i # drop (Suc i) cards"
        using i by (simp add: Cons_nth_drop_Suc)
      have c: "length selection < 5 \<and> i + (5 - length selection) \<le> length cards"
        using lt True by simp
      have ih1: "pickCards cards (selection @ [cards ! i]) (i + 1) bestScore =
          considerAll bestScore (map (\<lambda>a. selection @ cards ! i # a) (combos k (drop (Suc i) cards)))"
        using "2.IH"(1)[OF c] lt k by simp
      have ih2: "\<And>b. pickCards cards (selection @ [cards ! i]) (i + 1) bestScore = Inr b \<Longrightarrow>
          pickLoop cards selection (i + 1) b =
            considerAll b (map ((@) selection) (combos (Suc k) (drop (Suc i) cards)))"
        using "2.IH"(2)[OF c] lt k by simp
      show ?thesis
        using c ih1 ih2
        by (subst pickLoop.simps) (simp add: k d considerAll_append comp_def split: sum.splits)
    next
      case False
      then have "length (drop i cards) < 5 - length selection" using lt by simp
      then have "combos (5 - length selection) (drop i cards) = []" by (rule combos_short)
      with False show ?thesis by (simp add: pickLoop.simps)
    qed
  qed
qed

declare compareFrom.simps [simp del]

lemma length_padZeros: "length xs \<le> n \<Longrightarrow> length (padZeros n xs) = n"
  by (simp add: padZeros_def)

lemma nth_padZeros: "i < n \<Longrightarrow> length xs \<le> n \<Longrightarrow> padZeros n xs ! i = rankAt xs i"
  by (simp add: padZeros_def rankAt_def nth_append)

lemma compareFrom_lexSign:
  "i \<le> n \<Longrightarrow> length l \<le> n \<Longrightarrow> length r \<le> n \<Longrightarrow>
   sgn (compareFrom l r n i) = lexSign (drop i (padZeros n l)) (drop i (padZeros n r))"
proof (induction l r n i rule: compareFrom.induct)
  case (1 l r n i)
  show ?case
  proof (cases "i < n")
    case True
    have dl: "drop i (padZeros n l) = rankAt l i # drop (Suc i) (padZeros n l)"
      using True 1(3) Cons_nth_drop_Suc[of i "padZeros n l"]
      by (simp add: length_padZeros nth_padZeros)
    have dr: "drop i (padZeros n r) = rankAt r i # drop (Suc i) (padZeros n r)"
      using True 1(4) Cons_nth_drop_Suc[of i "padZeros n r"]
      by (simp add: length_padZeros nth_padZeros)
    show ?thesis
    proof (cases "rankAt l i = rankAt r i")
      case eq: True
      have "sgn (compareFrom l r n (i + 1)) =
              lexSign (drop (i + 1) (padZeros n l)) (drop (i + 1) (padZeros n r))"
        using "1.IH"[OF True] eq True 1(3,4) by simp
      then show ?thesis
        using True eq by (subst compareFrom.simps) (simp add: dl dr lexSign_def)
    next
      case False
      then show ?thesis
        using True by (subst compareFrom.simps) (auto simp: dl dr lexSign_def sgn_if)
    qed
  next
    case False
    then have "i = n" using 1(2) by simp
    then show ?thesis
      using 1(3,4) by (subst compareFrom.simps) (simp add: lexSign_def length_padZeros)
  qed
qed

lemma compareScores_sign: "sgn (compareScores a b) = specCompare a b"
proof (cases "category a = category b")
  case True
  then show ?thesis
    using compareFrom_lexSign[of 0 "max (length (ranks a)) (length (ranks b))" "ranks a" "ranks b"]
    by (simp add: compareScores_def specCompare_def Let_def)
next
  case False
  then show ?thesis
    by (auto simp: compareScores_def specCompare_def sgn_if)
qed

lemma append_same_less: "length x = length y \<Longrightarrow> (x @ z < y @ z) = (x < (y :: int list))"
  by (induction x y rule: list_induct2) auto

lemma padZeros_extend:
  "length xs \<le> n \<Longrightarrow> n \<le> N \<Longrightarrow> padZeros N xs = padZeros n xs @ replicate (N - n) 0"
  by (simp add: padZeros_def replicate_add[symmetric])

lemma lexSign_pad:
  assumes "length x \<le> n" "length y \<le> n" "n \<le> N"
  shows "lexSign (padZeros N x) (padZeros N y) = lexSign (padZeros n x) (padZeros n y)"
  using assms
  by (simp add: padZeros_extend[of x n N] padZeros_extend[of y n N] lexSign_def
        append_same_less length_padZeros)

text \<open>The comparator is the order of the key (category, zero-padded tiebreaks).\<close>

lemma compareScores_le_iff:
  assumes "length (ranks a) \<le> N" "length (ranks b) \<le> N"
  shows "compareScores a b \<le> 0 \<longleftrightarrow>
           category a < category b \<or>
           (category a = category b \<and> padZeros N (ranks a) \<le> padZeros N (ranks b))"
proof -
  let ?n = "max (length (ranks a)) (length (ranks b))"
  have "lexSign (padZeros N (ranks a)) (padZeros N (ranks b)) =
        lexSign (padZeros ?n (ranks a)) (padZeros ?n (ranks b))"
    using assms by (intro lexSign_pad) auto
  then have "specCompare a b =
     (if category a < category b then - 1
      else if category b < category a then 1
      else lexSign (padZeros N (ranks a)) (padZeros N (ranks b)))"
    by (simp add: specCompare_def Let_def)
  moreover have "compareScores a b \<le> 0 \<longleftrightarrow> sgn (compareScores a b) \<le> 0"
    by (simp add: sgn_if)
  ultimately show ?thesis
    by (auto simp: compareScores_sign lexSign_def split: if_splits)
qed

lemma compareScores_trans:
  assumes "compareScores a b \<le> 0" "compareScores b c \<le> 0"
  shows "compareScores a c \<le> 0"
proof -
  define N where "N = max (length (ranks a)) (max (length (ranks b)) (length (ranks c)))"
  have n: "length (ranks a) \<le> N" "length (ranks b) \<le> N" "length (ranks c) \<le> N"
    by (simp_all add: N_def)
  show ?thesis
    using assms
    unfolding compareScores_le_iff[OF n(1,2)] compareScores_le_iff[OF n(2,3)]
      compareScores_le_iff[OF n(1,3)]
    by auto
qed

lemma compareScores_total: "compareScores a b \<le> 0 \<or> compareScores b a \<le> 0"
proof -
  define N where "N = max (length (ranks a)) (length (ranks b))"
  have n: "length (ranks a) \<le> N" "length (ranks b) \<le> N"
    by (simp_all add: N_def)
  show ?thesis
    unfolding compareScores_le_iff[OF n(1,2)] compareScores_le_iff[OF n(2,1)]
    by auto
qed

lemma compareScores_refl: "compareScores a a \<le> 0"
  using compareScores_total[of a a] by simp

lemma sum_insertBy:
  "sum_list (map f (insertBy cmp x ys)) = (f x :: int) + sum_list (map f ys)"
  by (induction ys) auto

lemma sum_sortBy: "sum_list (map f (sortBy cmp xs)) = (sum_list (map f xs) :: int)"
  by (induction xs) (auto simp: sum_insertBy)

lemma set_insertBy: "set (insertBy cmp x ys) = insert x (set ys)"
  by (induction ys) auto

lemma set_sortBy: "set (sortBy cmp xs) = set xs"
  by (induction xs) (auto simp: set_insertBy)

lemma length_insertBy: "length (insertBy cmp x ys) = Suc (length ys)"
  by (induction ys) auto

lemma length_sortBy: "length (sortBy cmp xs) = length xs"
  by (induction xs) (auto simp: length_insertBy)

lemma sum_update:
  "sum_list (map snd (AList.update k v m)) =
     sum_list (map snd m) + v - (case map_of m k of None \<Rightarrow> 0 | Some u \<Rightarrow> (u::int))"
  by (induction m) auto

lemma sum_countRank: "sum_list (map snd (countRank m r)) = sum_list (map snd m) + 1"
  by (simp add: countRank_def sum_update split: option.splits)

lemma sum_foldl_countRank:
  "sum_list (map snd (foldl countRank m rs)) = sum_list (map snd m) + int (length rs)"
  by (induction rs arbitrary: m) (auto simp: sum_countRank)

lemma pos_update: "\<forall>p \<in> set m. 1 \<le> snd p \<Longrightarrow> 1 \<le> (v::int) \<Longrightarrow> \<forall>p \<in> set (AList.update k v m). 1 \<le> snd p"
  by (induction m) auto

lemma pos_countRank: "\<forall>p \<in> set m. 1 \<le> snd p \<Longrightarrow> \<forall>p \<in> set (countRank m r). 1 \<le> snd p"
  unfolding countRank_def
  by (rule pos_update) (force split: option.splits dest: map_of_SomeD)+

lemma pos_foldl_countRank:
  "\<forall>p \<in> set m. 1 \<le> snd p \<Longrightarrow> \<forall>p \<in> set (foldl countRank m rs). 1 \<le> snd p"
proof (induction rs arbitrary: m)
  case Nil
  then show ?case by simp
next
  case (Cons r rs)
  show ?case
    using Cons.IH[OF pos_countRank[OF Cons.prems]] by simp
qed

lemma groupsOf_sum: "sum_list (map count (groupsOf rs)) = int (length rs)"
proof -
  have "(count \<circ> (\<lambda>(r, n). \<lparr>rank = r, count = n\<rparr>)) = snd" by auto
  then show ?thesis
    using sum_foldl_countRank[of "[]" rs]
    by (simp add: groupsOf_def sum_sortBy)
qed

lemma groupsOf_pos: "g \<in> set (groupsOf rs) \<Longrightarrow> 1 \<le> count g"
  using pos_foldl_countRank[of "[]" rs]
  by (auto simp: groupsOf_def set_sortBy)

lemma resolveCategory_total:
  assumes s: "sum_list (map count groups) = 5" and p: "\<forall>g \<in> set groups. 1 \<le> count g"
  shows "\<exists>sc. resolveCategory isFlush straightHigh rs groups = Inr sc"
proof (cases groups)
  case Nil
  with s show ?thesis by simp
next
  case (Cons g0 gs)
  note g = Cons
  show ?thesis
  proof (cases gs)
    case Nil
    with g s show ?thesis by (simp add: resolveCategory_def)
  next
    case (Cons g1 gs')
    have k: "count g0 = 2 \<Longrightarrow> count g1 = 2 \<Longrightarrow> find (\<lambda>g. count g = 1) groups \<noteq> None"
    proof -
      assume c: "count g0 = 2" "count g1 = 2"
      then have r: "sum_list (map count gs') = 1" using s g Cons by simp
      then obtain g2 gs'' where gs': "gs' = g2 # gs''" by (cases gs') auto
      have "1 \<le> count g2" using p g Cons gs' by simp
      moreover have "0 \<le> sum_list (map count gs'')"
        using p g Cons gs' by (intro sum_list_nonneg) auto
      ultimately have "count g2 = 1" using r gs' by simp
      then show ?thesis using g Cons gs' by (auto simp: find_None_iff)
    qed
    show ?thesis
      using g Cons k
      by (auto simp: resolveCategory_def Let_def split: option.splits)
  qed
qed

lemma evaluateFiveCardHand_total:
  assumes "length cards = 5"
  shows "\<exists>sc. evaluateFiveCardHand cards = Inr sc"
  unfolding evaluateFiveCardHand_def Let_def
  by (rule resolveCategory_total)
     (use assms in \<open>auto simp: groupsOf_sum length_sortBy groupsOf_pos\<close>)

text \<open>The running best of \<open>considerAll\<close> is a maximum under the comparator.\<close>

lemma better_cases:
  "better b sc = Some sc \<or> better b sc = b"
  by (auto simp: better_def split: option.splits)

lemma better_ge_new: "better b sc = Some r \<Longrightarrow> compareScores sc r \<le> 0"
  by (auto simp: better_def compareScores_refl split: option.splits if_splits)

lemma better_ge_old: "better (Some b) sc = Some r \<Longrightarrow> compareScores b r \<le> 0"
  using compareScores_total[of sc b]
  by (auto simp: better_def compareScores_refl split: if_splits)

lemma better_Some: "\<exists>r. better b sc = Some r"
  by (auto simp: better_def split: option.splits)

lemma considerAll_max:
  assumes "\<forall>h \<in> set hs. length h = 5"
  shows "\<exists>r. considerAll b hs = Inr r \<and>
           (hs \<noteq> [] \<longrightarrow> r \<noteq> None) \<and>
           (\<forall>x. r = Some x \<longrightarrow>
              (b = Some x \<or> x \<in> scoresOf hs) \<and>
              (\<forall>y. b = Some y \<longrightarrow> compareScores y x \<le> 0) \<and>
              (\<forall>y \<in> scoresOf hs. compareScores y x \<le> 0))"
  using assms
proof (induction hs arbitrary: b)
  case Nil
  then show ?case by (simp add: scoresOf_def compareScores_refl)
next
  case (Cons h hs)
  obtain sc where sc: "evaluateFiveCardHand h = Inr sc"
    using evaluateFiveCardHand_total[of h] Cons.prems by auto
  obtain b' where b': "better b sc = Some b'" using better_Some by blast
  from Cons.IH[of "Some b'"] Cons.prems
  obtain r where r: "considerAll (Some b') hs = Inr r"
      and rn: "hs \<noteq> [] \<longrightarrow> r \<noteq> None"
      and rx: "\<forall>x. r = Some x \<longrightarrow>
              (Some b' = Some x \<or> x \<in> scoresOf hs) \<and>
              (\<forall>y. Some b' = Some y \<longrightarrow> compareScores y x \<le> 0) \<and>
              (\<forall>y \<in> scoresOf hs. compareScores y x \<le> 0)"
    by auto
  have r0: "hs = [] \<Longrightarrow> r = Some b'" using r by simp
  have sco: "scoresOf (h # hs) = insert sc (scoresOf hs)"
    using sc by (auto simp: scoresOf_def)
  have "\<And>x. r = Some x \<Longrightarrow>
              (b = Some x \<or> x \<in> scoresOf (h # hs)) \<and>
              (\<forall>y. b = Some y \<longrightarrow> compareScores y x \<le> 0) \<and>
              (\<forall>y \<in> scoresOf (h # hs). compareScores y x \<le> 0)"
  proof -
    fix x assume x: "r = Some x"
    have bx: "compareScores b' x \<le> 0" using rx x by simp
    have scx: "compareScores sc x \<le> 0"
      using better_ge_new[OF b'] bx compareScores_trans by blast
    have old: "\<And>y. b = Some y \<Longrightarrow> compareScores y x \<le> 0"
      using better_ge_old b' bx compareScores_trans by blast
    have mem: "b = Some x \<or> x \<in> scoresOf (h # hs)"
      using rx x better_cases[of b sc] b' by (auto simp: sco)
    show "(b = Some x \<or> x \<in> scoresOf (h # hs)) \<and>
              (\<forall>y. b = Some y \<longrightarrow> compareScores y x \<le> 0) \<and>
              (\<forall>y \<in> scoresOf (h # hs). compareScores y x \<le> 0)"
      using mem old scx rx x by (auto simp: sco)
  qed
  moreover have "r \<noteq> None" using rn r0 by (cases "hs = []") auto
  ultimately show ?case using sc b' r by auto
qed

lemma choose_7_5: "(7::nat) choose 5 = 21"
  by (simp add: eval_nat_numeral binomial_Suc_Suc del: binomial_Suc_Suc[symmetric])

text \<open>
  Claim C1.  For a hand of seven cards the best-hand evaluator returns a rank tuple, and
  that tuple is the comparator's maximum over the 21 five-card sub-hands: it is the value
  of \<open>evaluateFiveCardHand\<close> on one of them, and no sub-hand's value compares above
  it, under \<open>compareScores\<close> and equally under the order of the specification
  (category first, then the zero-padded tiebreak lists lexicographically), whose sign
  \<open>compareScores\<close> always has.  The cards need not even be valid.
\<close>

theorem best_hand_is_maximum_of_subsets:
  assumes "length cards = 7"
  shows "\<exists>best. evaluateBestKnownHand cards = Inr (Some best) \<and>
           evaluateBestHand cards = Inr (Some best) \<and>
           length (filter (\<lambda>s. length s = 5) (subseqs cards)) = 21 \<and>
           (\<exists>s \<in> set (subseqs cards). length s = 5 \<and> evaluateFiveCardHand s = Inr best) \<and>
           (\<forall>s \<in> set (subseqs cards). length s = 5 \<longrightarrow>
              (\<exists>sc. evaluateFiveCardHand s = Inr sc \<and> compareScores sc best \<le> 0 \<and>
                    specCompare sc best \<le> 0)) \<and>
           (\<forall>a b. sgn (compareScores a b) = specCompare a b)"
proof -
  let ?hs = "combos 5 cards"
  have five: "\<forall>h \<in> set ?hs. length h = 5"
    by (simp add: length_in_combos)
  have pk: "pickCards cards [] 0 None = considerAll None ?hs"
    using pick_enumerates(1)[of "[]" cards 0 None] by (simp add: append_Nil[abs_def])
  have n21: "length ?hs = 21"
    using assms by (simp add: length_combos choose_7_5)
  then have ne: "?hs \<noteq> []" by auto
  from considerAll_max[OF five, of None] ne
  obtain best where r: "considerAll None ?hs = Inr (Some best)"
      and mem: "best \<in> scoresOf ?hs"
      and mx: "\<forall>y \<in> scoresOf ?hs. compareScores y best \<le> 0"
    by auto
  have ev: "evaluateBestKnownHand cards = Inr (Some best)"
    using assms pk r by (simp add: evaluateBestKnownHand_def)
  have hs: "set ?hs = {s \<in> set (subseqs cards). length s = 5}"
    by (auto simp: combos_filter_subseqs)
  have m: "\<exists>s \<in> set (subseqs cards). length s = 5 \<and> evaluateFiveCardHand s = Inr best"
    using mem hs by (auto simp: scoresOf_def)
  have a: "\<forall>s \<in> set (subseqs cards). length s = 5 \<longrightarrow>
              (\<exists>sc. evaluateFiveCardHand s = Inr sc \<and> compareScores sc best \<le> 0 \<and>
                    specCompare sc best \<le> 0)"
  proof (intro ballI impI)
    fix s assume s: "s \<in> set (subseqs cards)" "length s = 5"
    then obtain sc where sc: "evaluateFiveCardHand s = Inr sc"
      using evaluateFiveCardHand_total by blast
    then have "sc \<in> scoresOf ?hs" using s hs by (auto simp: scoresOf_def)
    then have le: "compareScores sc best \<le> 0" using mx by blast
    then have "sgn (compareScores sc best) \<le> 0" by (simp add: sgn_if)
    then have "specCompare sc best \<le> 0" by (simp add: compareScores_sign)
    with sc le show "\<exists>sc. evaluateFiveCardHand s = Inr sc \<and> compareScores sc best \<le> 0 \<and>
                    specCompare sc best \<le> 0" by blast
  qed
  show ?thesis
    using ev assms m a n21
    by (auto simp: evaluateBestHand_def combos_filter_subseqs compareScores_sign)
qed

theorem best_hand_is_maximum_of_subsets_witness:
  "\<exists>best. evaluateBestKnownHand [''AS'', ''KS'', ''2S'', ''7S'', ''9S'', ''2D'', ''3C''] = Inr (Some best) \<and>
     (\<exists>sc. evaluateFiveCardHand [''AS'', ''KS'', ''2S'', ''2D'', ''3C''] = Inr sc \<and>
           compareScores sc best \<le> 0)"
proof -
  have l: "length [''AS'', ''KS'', ''2S'', ''7S'', ''9S'', ''2D'', ''3C''] = 7" by simp
  have m: "[''AS'', ''KS'', ''2S'', ''2D'', ''3C'']
             \<in> set (subseqs [''AS'', ''KS'', ''2S'', ''7S'', ''9S'', ''2D'', ''3C''])"
    by (simp add: Let_def)
  from best_hand_is_maximum_of_subsets[OF l] m show ?thesis by fastforce
qed

lemma distinct_insertBy: "distinct (insertBy cmp x ys) = (x \<notin> set ys \<and> distinct ys)"
  by (induction ys) (auto simp: set_insertBy)

lemma distinct_sortBy: "distinct (sortBy cmp xs) = distinct xs"
  by (induction xs) (auto simp: distinct_insertBy set_sortBy)

lemma sorted_insertBy_desc:
  "sorted (rev ys) \<Longrightarrow> sorted (rev (insertBy descending x ys))"
  by (induction ys) (auto simp: sorted_append set_insertBy descending_def)

lemma sorted_sortBy_desc: "sorted (rev (sortBy descending xs))"
  by (induction xs) (auto simp: sorted_insertBy_desc)

lemma sortBy_desc_unique:
  assumes "distinct xs" "set xs = set ys" "sorted ys" "distinct ys"
  shows "sortBy descending xs = rev ys"
proof -
  have "rev (sortBy descending xs) = ys"
    using assms
    by (intro sorted_distinct_set_unique) (auto simp: sorted_sortBy_desc distinct_sortBy set_sortBy)
  then show ?thesis by (metis rev_rev_ident)
qed

lemma hasRanks_sorted:
  assumes "hasRanks cards rs" "distinct (map (\<lambda>c. rankValue (Some c)) rs)"
    "sorted ys" "distinct ys" "set ys = (\<lambda>c. rankValue (Some c)) ` set rs"
  shows "sortBy descending (map (\<lambda>c. rankValue (charAt c 0)) cards) = rev ys"
proof -
  let ?xs = "map (\<lambda>c. rankValue (charAt c 0)) cards"
  have "set ?xs = rankValue ` ((\<lambda>c. charAt c 0) ` set cards)"
    by (simp only: set_map image_image)
  also have "\<dots> = rankValue ` (Some ` set rs)"
    using assms(1) by (simp only: hasRanks_def)
  also have "\<dots> = (\<lambda>c. rankValue (Some c)) ` set rs"
    by (simp only: image_image)
  finally have sx: "set ?xs = set ys" using assms(5) by (simp del: rankValue.simps)
  have "card (set (map (\<lambda>c. rankValue (Some c)) rs)) = length (map (\<lambda>c. rankValue (Some c)) rs)"
    using assms(2) by (rule distinct_card)
  then have "card (set ys) = length rs" using assms(5) by (simp del: rankValue.simps)
  then have "card (set ?xs) = length ?xs"
    using assms(1) sx by (simp add: hasRanks_def del: rankValue.simps)
  then have "distinct ?xs" by (rule card_distinct)
  then show ?thesis using sx assms(3,4) by (intro sortBy_desc_unique) auto
qed

lemma isFlushOf_sameSuit:
  "isFlushOf (map (\<lambda>c. charAt c 1) cards) = sameSuit cards"
  by (cases cards) (auto simp: isFlushOf_def sameSuit_def list_all_iff)

lemmas isFlushOf_sameSuit' = isFlushOf_sameSuit[simplified]

lemma wheel_ranks:
  assumes "hasRanks w ''A2345''"
  shows "sortBy descending (map (\<lambda>c. rankValue (charAt c 0)) w) = [14, 5, 4, 3, 2]"
  using hasRanks_sorted[OF assms, of "[2, 3, 4, 5, 14]"] by auto

lemma six_ranks:
  assumes "hasRanks s ''23456''"
  shows "sortBy descending (map (\<lambda>c. rankValue (charAt c 0)) s) = [6, 5, 4, 3, 2]"
  using hasRanks_sorted[OF assms, of "[2, 3, 4, 5, 6]"] by auto

lemma groups_wheel: "groupsOf [14, 5, 4, 3, 2] =
  [\<lparr>rank = 14, count = 1\<rparr>, \<lparr>rank = 5, count = 1\<rparr>, \<lparr>rank = 4, count = 1\<rparr>,
   \<lparr>rank = 3, count = 1\<rparr>, \<lparr>rank = 2, count = 1\<rparr>]"
  by code_simp

lemma groups_six: "groupsOf [6, 5, 4, 3, 2] =
  [\<lparr>rank = 6, count = 1\<rparr>, \<lparr>rank = 5, count = 1\<rparr>, \<lparr>rank = 4, count = 1\<rparr>,
   \<lparr>rank = 3, count = 1\<rparr>, \<lparr>rank = 2, count = 1\<rparr>]"
  by code_simp

lemma straight_wheel: "getStraightHigh [14, 5, 4, 3, 2] = 5"
  by (simp add: getStraightHigh_def)

lemma straight_six: "getStraightHigh [6, 5, 4, 3, 2] = 6"
  by (simp add: getStraightHigh_def)

lemma eval_wheel:
  assumes "hasRanks w ''A2345''"
  shows "evaluateFiveCardHand w = Inr \<lparr>category = (if sameSuit w then 8 else 4), ranks = [5]\<rparr>"
  by (simp add: evaluateFiveCardHand_def wheel_ranks[OF assms] isFlushOf_sameSuit' groups_wheel
        Let_def straight_wheel resolveCategory_def)

lemma eval_six:
  assumes "hasRanks s ''23456''"
  shows "evaluateFiveCardHand s = Inr \<lparr>category = (if sameSuit s then 8 else 4), ranks = [6]\<rparr>"
  by (simp add: evaluateFiveCardHand_def six_ranks[OF assms] isFlushOf_sameSuit' groups_six
        Let_def straight_six resolveCategory_def)

text \<open>
  Claim C2.  Five cards with the ranks A, 2, 3, 4, 5, in any order and with any suits,
  evaluate to category 4 (Straight), or 8 (Straight Flush) when all five suits are equal,
  with the single tiebreak 5, not 14.  Five cards with the ranks 2, 3, 4, 5, 6 evaluate
  likewise with the tiebreak 6.  The wheel compares strictly lower than the six-high hand
  exactly when it is not a straight flush facing a plain straight: hands of the same
  category are decided by the tiebreak, 5 against 6, and a one-suited wheel beats an
  off-suit six-high straight by its category.
\<close>

theorem wheel_scores_five_high:
  assumes "hasRanks w ''A2345''" and "hasRanks s ''23456''"
  shows "\<exists>a b. evaluateFiveCardHand w = Inr a \<and> evaluateFiveCardHand s = Inr b \<and>
           category a = (if sameSuit w then 8 else 4) \<and> ranks a = [5] \<and>
           category b = (if sameSuit s then 8 else 4) \<and> ranks b = [6] \<and>
           (compareScores a b < 0) = (sameSuit w \<longrightarrow> sameSuit s) \<and>
           (compareScores a b > 0) = (sameSuit w \<and> \<not> sameSuit s)"
  by (simp add: eval_wheel[OF assms(1)] eval_six[OF assms(2)] compareScores_def
        compareFrom.simps rankAt_def)

theorem wheel_scores_five_high_witness:
  "hasRanks [''3D'', ''AS'', ''5S'', ''2H'', ''4C''] ''A2345'' \<and>
   hasRanks [''2S'', ''3S'', ''4S'', ''5S'', ''6H''] ''23456'' \<and>
   hasRanks [''5H'', ''4H'', ''AH'', ''2H'', ''3H''] ''A2345'' \<and>
   hasRanks [''6H'', ''2H'', ''3H'', ''4H'', ''5H''] ''23456'' \<and>
   (\<exists>a b. evaluateFiveCardHand [''3D'', ''AS'', ''5S'', ''2H'', ''4C''] = Inr a \<and>
          evaluateFiveCardHand [''2S'', ''3S'', ''4S'', ''5S'', ''6H''] = Inr b \<and>
          category a = 4 \<and> ranks a = [5] \<and> category b = 4 \<and> ranks b = [6] \<and>
          compareScores a b < 0) \<and>
   (\<exists>a b. evaluateFiveCardHand [''5H'', ''4H'', ''AH'', ''2H'', ''3H''] = Inr a \<and>
          evaluateFiveCardHand [''6H'', ''2H'', ''3H'', ''4H'', ''5H''] = Inr b \<and>
          category a = 8 \<and> ranks a = [5] \<and> category b = 8 \<and> ranks b = [6] \<and>
          compareScores a b < 0)"
proof -
  have w1: "hasRanks [''3D'', ''AS'', ''5S'', ''2H'', ''4C''] ''A2345''"
    by (auto simp: hasRanks_def charAt_def)
  have s1: "hasRanks [''2S'', ''3S'', ''4S'', ''5S'', ''6H''] ''23456''"
    by (auto simp: hasRanks_def charAt_def)
  have w2: "hasRanks [''5H'', ''4H'', ''AH'', ''2H'', ''3H''] ''A2345''"
    by (auto simp: hasRanks_def charAt_def)
  have s2: "hasRanks [''6H'', ''2H'', ''3H'', ''4H'', ''5H''] ''23456''"
    by (auto simp: hasRanks_def charAt_def)
  have n1: "\<not> sameSuit [''3D'', ''AS'', ''5S'', ''2H'', ''4C'']"
    "\<not> sameSuit [''2S'', ''3S'', ''4S'', ''5S'', ''6H'']"
    by (simp_all add: sameSuit_def charAt_def)
  have n2: "sameSuit [''5H'', ''4H'', ''AH'', ''2H'', ''3H'']"
    "sameSuit [''6H'', ''2H'', ''3H'', ''4H'', ''5H'']"
    by (simp_all add: sameSuit_def charAt_def)
  have a: "\<exists>a b. evaluateFiveCardHand [''3D'', ''AS'', ''5S'', ''2H'', ''4C''] = Inr a \<and>
          evaluateFiveCardHand [''2S'', ''3S'', ''4S'', ''5S'', ''6H''] = Inr b \<and>
          category a = 4 \<and> ranks a = [5] \<and> category b = 4 \<and> ranks b = [6] \<and>
          compareScores a b < 0"
    using wheel_scores_five_high[OF w1 s1] n1 by auto
  have b: "\<exists>a b. evaluateFiveCardHand [''5H'', ''4H'', ''AH'', ''2H'', ''3H''] = Inr a \<and>
          evaluateFiveCardHand [''6H'', ''2H'', ''3H'', ''4H'', ''5H''] = Inr b \<and>
          category a = 8 \<and> ranks a = [5] \<and> category b = 8 \<and> ranks b = [6] \<and>
          compareScores a b < 0"
    using wheel_scores_five_high[OF w2 s2] n2 by auto
  show ?thesis
    using w1 s1 w2 s2 a b by blast
qed

theorem suited_wheel_beats_offsuit_six_high:
  "evaluateFiveCardHand [''AS'', ''2S'', ''3S'', ''4S'', ''5S'']
     = Inr \<lparr>category = 8, ranks = [5]\<rparr> \<and>
   evaluateFiveCardHand [''2H'', ''3S'', ''4S'', ''5S'', ''6S'']
     = Inr \<lparr>category = 4, ranks = [6]\<rparr> \<and>
   compareScores \<lparr>category = 8, ranks = [5]\<rparr> \<lparr>category = 4, ranks = [6]\<rparr> = 4"
  by code_simp

section \<open>The table engine: properties\<close>

lemma onlyStates_emitStates: "emitStates s socks = Inr outs \<Longrightarrow> onlyStates outs"
  by (induction socks arbitrary: outs) (auto simp: onlyStates_def split: sum.splits)

lemma onlyStates_emitStateToAll: "emitStateToAll ev s = Inr outs \<Longrightarrow> onlyStates outs"
  by (simp add: emitStateToAll_def onlyStates_emitStates)

lemma emitting_Inr: "emitting ev s = Inr (s', outs) \<Longrightarrow> s' = s \<and> onlyStates outs"
  by (auto simp: emitting_def onlyStates_emitStateToAll split: sum.splits)

lemma buildHandInsight_idle: "\<not> handInProgress s \<Longrightarrow> buildHandInsight s viewer = Inr None"
  by (simp add: buildHandInsight_def split: option.splits)

lemma buildStateFor_idle: "\<not> handInProgress s \<Longrightarrow> \<exists>v. buildStateFor s sid = Inr v"
  by (simp add: buildStateFor_def Let_def buildHandInsight_idle)

lemma emitStates_idle: "\<not> handInProgress s \<Longrightarrow> \<exists>outs. emitStates s socks = Inr outs"
proof (induction socks)
  case Nil
  then show ?case by simp
next
  case (Cons a socks)
  then show ?case using buildStateFor_idle[of s a] by auto
qed

lemma emitting_idle:
  "\<not> handInProgress s \<Longrightarrow> \<exists>outs. emitting ev s = Inr (s, outs) \<and> onlyStates outs"
  using emitStates_idle[of s "sockets ev"]
  by (auto simp: emitting_def emitStateToAll_def onlyStates_emitStates)

lemma addLog_fields [simp]:
  "players (addLog m s) = players s" "startingStack (addLog m s) = startingStack s"
  "handInProgress (addLog m s) = handInProgress s" "gameStarted (addLog m s) = gameStarted s"
  "pot (addLog m s) = pot s" "currentBet (addLog m s) = currentBet s"
  "lastRaiseSize (addLog m s) = lastRaiseSize s" "bigBlind (addLog m s) = bigBlind s"
  "smallBlind (addLog m s) = smallBlind s" "currentTurnId (addLog m s) = currentTurnId s"
  "dealerId (addLog m s) = dealerId s" "phase (addLog m s) = phase s"
  "nextHandTimer (addLog m s) = nextHandTimer s" "communityCards (addLog m s) = communityCards s"
  "deck (addLog m s) = deck s" "seenCards (addLog m s) = seenCards s"
  "burnCards (addLog m s) = burnCards s" "lastShowdown (addLog m s) = lastShowdown s"
  "smallBlindId (addLog m s) = smallBlindId s" "bigBlindId (addLog m s) = bigBlindId s"
  "handNumber (addLog m s) = handNumber s"
  by (simp_all add: addLog_def Let_def)

lemma addLog_restore: "(addLog m s)\<lparr>logs := logs s\<rparr> = s"
  by (simp add: addLog_def Let_def)

text \<open>
  Claim C10.  A \<open>setStartingStack\<close> request is accepted when the sender is seated and
  admin, the game has not started and the amount is an integer from 50 to 1000000.  An
  accepted request sets \<open>startingStack\<close> to the amount and the chips of every player that
  is not disconnected, changes no other field but the log, and broadcasts the new state
  (outside a hand the broadcast cannot throw).  A rejected request leaves the table as it
  was and sends one \<open>errorMessage\<close>, to the sender.
\<close>

theorem setStartingStack_frame:
  "(stackRequestOk s sid payloadAmount \<longrightarrow>
      (\<exists>s' amount. payloadAmount = Some amount \<and>
         onSetStartingStack ev s sid payloadAmount = emitting ev s' \<and>
         startingStack s' = amount \<and>
         players s' = map (\<lambda>q. if disconnected q then q else q\<lparr>chips := amount\<rparr>) (players s) \<and>
         s'\<lparr>startingStack := startingStack s, players := players s, logs := logs s\<rparr> = s \<and>
         (\<not> handInProgress s \<longrightarrow>
            (\<exists>outs. onSetStartingStack ev s sid payloadAmount = Inr (s', outs) \<and> onlyStates outs)))) \<and>
   (\<not> stackRequestOk s sid payloadAmount \<longrightarrow>
      (\<exists>message. onSetStartingStack ev s sid payloadAmount = Inr (s, [ErrorMessage sid message])))"
proof (intro conjI impI)
  assume ok: "stackRequestOk s sid payloadAmount"
  then obtain p amount where p: "findPlayer s sid = Some p" "isAdmin p" "\<not> gameStarted s"
      and a: "payloadAmount = Some amount" "50 \<le> amount" "amount \<le> 1000000"
    by (auto simp: stackRequestOk_def split: option.splits)
  define s' where "s' = addLog (name p @ '' set starting money to '' @ showInt amount @ ''.'')
       (s\<lparr>startingStack := amount,
          players := map (\<lambda>q. if \<not> disconnected q then q\<lparr>chips := amount\<rparr> else q) (players s)\<rparr>)"
  have run: "onSetStartingStack ev s sid payloadAmount = emitting ev s'"
    using p a by (simp add: onSetStartingStack_def s'_def)
  have st: "startingStack s' = amount" by (simp add: s'_def)
  have pl: "players s' = map (\<lambda>q. if disconnected q then q else q\<lparr>chips := amount\<rparr>) (players s)"
    by (simp add: s'_def) 
  have fr: "s'\<lparr>startingStack := startingStack s, players := players s, logs := logs s\<rparr> = s"
    by (simp add: s'_def addLog_def Let_def)
  have idle: "\<not> handInProgress s \<Longrightarrow>
      \<exists>outs. onSetStartingStack ev s sid payloadAmount = Inr (s', outs) \<and> onlyStates outs"
  proof -
    assume "\<not> handInProgress s"
    then have "\<not> handInProgress s'" by (simp add: s'_def)
    from emitting_idle[OF this, of ev] run show ?thesis by auto
  qed
  show "\<exists>s' amount. payloadAmount = Some amount \<and>
         onSetStartingStack ev s sid payloadAmount = emitting ev s' \<and>
         startingStack s' = amount \<and>
         players s' = map (\<lambda>q. if disconnected q then q else q\<lparr>chips := amount\<rparr>) (players s) \<and>
         s'\<lparr>startingStack := startingStack s, players := players s, logs := logs s\<rparr> = s \<and>
         (\<not> handInProgress s \<longrightarrow>
            (\<exists>outs. onSetStartingStack ev s sid payloadAmount = Inr (s', outs) \<and> onlyStates outs))"
    using a(1) run st pl fr idle by blast
next
  assume "\<not> stackRequestOk s sid payloadAmount"
  then show "\<exists>message. onSetStartingStack ev s sid payloadAmount = Inr (s, [ErrorMessage sid message])"
    by (auto simp: onSetStartingStack_def stackRequestOk_def split: option.splits)
qed

lemma otherCards_fields:
  assumes "otherCards v p q"
  shows "playerId q = playerId p" "name q = name p" "chips q = chips p" "isAdmin q = isAdmin p"
    "disconnected q = disconnected p" "inHand q = inHand p" "folded q = folded p"
    "allIn q = allIn p" "betThisRound q = betThisRound p"
    "totalContribution q = totalContribution p" "acted q = acted p"
proof -
  have "q = p\<lparr>holeCards := holeCards q\<rparr>"
    using assms by (cases "playerId p = v") (auto simp: otherCards_def)
  then obtain cs where "q = p\<lparr>holeCards := cs\<rparr>" ..
  then show "playerId q = playerId p" "name q = name p" "chips q = chips p" "isAdmin q = isAdmin p"
    "disconnected q = disconnected p" "inHand q = inHand p" "folded q = folded p"
    "allIn q = allIn p" "betThisRound q = betThisRound p"
    "totalContribution q = totalContribution p" "acted q = acted p"
    by simp_all
qed

lemma findPlayer_otherCards:
  assumes "list_all2 (otherCards v) ps qs"
  shows "find (\<lambda>p. playerId p = v) qs = find (\<lambda>p. playerId p = v) ps"
  using assms
proof (induction rule: list_all2_induct)
  case Nil
  then show ?case by simp
next
  case (Cons p ps q qs)
  then show ?case
    using otherCards_fields(1)[OF Cons.hyps(1)] by (auto simp: otherCards_def)
qed

lemma playerViewOf_otherCards:
  "otherCards v p q \<Longrightarrow> currentTurnId t = currentTurnId s \<Longrightarrow> playerViewOf t q = playerViewOf s p"
  by (simp add: playerViewOf_def otherCards_fields)

lemma shown_otherCards:
  assumes "list_all2 (otherCards v) ps qs" "currentTurnId t = currentTurnId s"
  shows "map (playerViewOf t) (filter (\<lambda>p. \<not> disconnected p) qs)
       = map (playerViewOf s) (filter (\<lambda>p. \<not> disconnected p) ps)"
  using assms(1)
proof (induction rule: list_all2_induct)
  case Nil
  then show ?case by simp
next
  case (Cons p ps q qs)
  then show ?case
    using otherCards_fields(5)[OF Cons.hyps(1)] playerViewOf_otherCards[OF Cons.hyps(1) assms(2)]
    by simp
qed

lemma buildHandInsight_cong:
  assumes "handInProgress t = handInProgress s" "communityCards t = communityCards s"
  shows "buildHandInsight t viewer = buildHandInsight s viewer"
  unfolding buildHandInsight_def detectDraws_def assms by (rule refl)

lemma computeAvailableActions_cong:
  assumes "handInProgress t = handInProgress s" "currentTurnId t = currentTurnId s"
    "currentBet t = currentBet s" "bigBlind t = bigBlind s" "lastRaiseSize t = lastRaiseSize s"
  shows "computeAvailableActions t viewer = computeAvailableActions s viewer"
  unfolding computeAvailableActions_def noActions_def getMinRaiseTo_def assms by (rule refl)

lemma modifyPlayer_fields [simp]:
  "players (modifyPlayer i f s) = (players s)[i := f (players s ! i)]"
  "pot (modifyPlayer i f s) = pot s" "currentBet (modifyPlayer i f s) = currentBet s"
  "lastRaiseSize (modifyPlayer i f s) = lastRaiseSize s" "bigBlind (modifyPlayer i f s) = bigBlind s"
  "smallBlind (modifyPlayer i f s) = smallBlind s"
  "handInProgress (modifyPlayer i f s) = handInProgress s"
  "gameStarted (modifyPlayer i f s) = gameStarted s"
  "currentTurnId (modifyPlayer i f s) = currentTurnId s"
  "nextHandTimer (modifyPlayer i f s) = nextHandTimer s"
  "phase (modifyPlayer i f s) = phase s" "dealerId (modifyPlayer i f s) = dealerId s"
  "communityCards (modifyPlayer i f s) = communityCards s"
  "deck (modifyPlayer i f s) = deck s" "seenCards (modifyPlayer i f s) = seenCards s"
  "logs (modifyPlayer i f s) = logs s" "startingStack (modifyPlayer i f s) = startingStack s"
  by (simp_all add: modifyPlayer_def)



lemma sum_map_same:
  "(\<And>p. p \<in> set ps \<Longrightarrow> f (g p) = f p) \<Longrightarrow> sum_list (map f (map g ps)) = (sum_list (map f ps) :: int)"
  by (induction ps) auto



lemma commitBet_fields [simp]:
  "handInProgress (commitBet i a s) = handInProgress s" "gameStarted (commitBet i a s) = gameStarted s"
  "nextHandTimer (commitBet i a s) = nextHandTimer s" "currentBet (commitBet i a s) = currentBet s"
  "lastRaiseSize (commitBet i a s) = lastRaiseSize s" "bigBlind (commitBet i a s) = bigBlind s"
  "smallBlind (commitBet i a s) = smallBlind s" "currentTurnId (commitBet i a s) = currentTurnId s"
  "length (players (commitBet i a s)) = length (players s)"
  by (simp_all add: commitBet_def)

text \<open>Whatever state it is given, \<open>finishHand\<close> ends with no hand in progress and with the
  timer pending only while the game goes on.\<close>

lemma cleanup_fields [simp]:
  "gameStarted (cleanupDisconnectedPlayers s) = gameStarted s"
  "handInProgress (cleanupDisconnectedPlayers s) = handInProgress s"
  "nextHandTimer (cleanupDisconnectedPlayers s) = nextHandTimer s"
  "pot (cleanupDisconnectedPlayers s) = pot s"
  by (simp_all add: cleanupDisconnectedPlayers_def)

lemma assignAdmin_fields [simp]:
  "gameStarted (assignAdminIfNeeded s) = gameStarted s"
  "handInProgress (assignAdminIfNeeded s) = handInProgress s"
  "nextHandTimer (assignAdminIfNeeded s) = nextHandTimer s"
  "pot (assignAdminIfNeeded s) = pot s"
  by (simp_all add: assignAdminIfNeeded_def Let_def split: option.splits)

lemma map_field_update:
  "f (g (xs ! i)) = f (xs ! i) \<Longrightarrow> map f (xs[i := g (xs ! i)]) = map f xs"
  by (cases "i < length xs") (simp_all add: map_update list_update_same_conv list_update_beyond)

lemma assignAdmin_contributions [simp]:
  "map totalContribution (players (assignAdminIfNeeded s)) = map totalContribution (players s)"
proof (cases "find isAdmin (getConnectedPlayers s)")
  case (Some a)
  then show ?thesis by (simp add: assignAdminIfNeeded_def Let_def comp_def)
next
  case None
  let ?ps = "map (\<lambda>p. p\<lparr>isAdmin := False\<rparr>) (players s)"
  have a: "map totalContribution ?ps = map totalContribution (players s)"
    by (simp add: comp_def)
  have b: "\<And>i. map totalContribution (?ps[i := (?ps ! i)\<lparr>isAdmin := True\<rparr>]) = map totalContribution ?ps"
    by (rule map_field_update) simp
  show ?thesis
    using None a b by (simp add: assignAdminIfNeeded_def Let_def split: option.splits)
qed

lemma totalContributions_assignAdmin [simp]:
  "totalContributions (assignAdminIfNeeded s) = totalContributions s"
  by (simp add: totalContributions_def)

lemma cancel_fields [simp]:
  "gameStarted (cancelNextHandTimer s) = gameStarted s"
  "handInProgress (cancelNextHandTimer s) = handInProgress s"
  "nextHandTimer (cancelNextHandTimer s) = None"
  "players (cancelNextHandTimer s) = players s" "pot (cancelNextHandTimer s) = pot s"
  by (auto simp: cancelNextHandTimer_def)

lemma queue_fields [simp]:
  "gameStarted (queueNextHand s) = gameStarted s"
  "handInProgress (queueNextHand s) = handInProgress s"
  "players (queueNextHand s) = players s" "pot (queueNextHand s) = pot s"
  by (auto simp: queueNextHand_def)

lemma finishHand_result:
  assumes "finishHand ev s = Inr (s', outs)"
  shows "tableInv s' \<and> \<not> handInProgress s' \<and> onlyStates outs"
  using assms
  by (auto simp: finishHand_def Let_def tableInv_def onlyStates_emitStateToAll
      split: if_splits sum.splits dest!: emitting_Inr)

lemma resolveShowdown_result:
  assumes "resolveShowdown ev s = Inr (s', outs)"
  shows "tableInv s' \<and> \<not> handInProgress s' \<and> onlyStates outs"
  using assms
  by (auto simp: resolveShowdown_def Let_def split: if_splits sum.splits dest!: finishHand_result)

lemma resolveHandByFold_result:
  assumes "resolveHandByFold ev s = Inr (s', outs)"
  shows "tableInv s' \<and> \<not> handInProgress s' \<and> onlyStates outs"
  using assms
  by (auto simp: resolveHandByFold_def Let_def split: if_splits
      dest!: finishHand_result resolveShowdown_result)

lemma onlyStates_Nil [simp]: "onlyStates []"
  by (simp add: onlyStates_def)


lemma drawCard_Inr:
  assumes "drawCard r s = Inr x"
  shows "x = (last (deck s),
              s\<lparr>deck := butlast (deck s), seenCards := seenCards s @ [last (deck s)]\<rparr>)"
  using assms by (simp add: drawCard_def Let_def split: if_splits)

lemma drawCard_frame:
  assumes "drawCard r s = Inr (c, s')"
  shows "players s' = players s \<and> pot s' = pot s \<and> gameStarted s' = gameStarted s \<and>
    handInProgress s' = handInProgress s \<and> nextHandTimer s' = nextHandTimer s \<and>
    bigBlind s' = bigBlind s \<and> dealerId s' = dealerId s"
  using drawCard_Inr[OF assms] by simp

lemma burnTopCard_frame:
  assumes "burnTopCard s = Inr s'"
  shows "players s' = players s \<and> pot s' = pot s \<and> gameStarted s' = gameStarted s \<and>
    handInProgress s' = handInProgress s \<and> nextHandTimer s' = nextHandTimer s \<and>
    bigBlind s' = bigBlind s \<and> dealerId s' = dealerId s"
  using assms by (auto simp: burnTopCard_def split: sum.splits dest!: drawCard_frame)

lemma sameMoney_trans: "sameMoney s t \<Longrightarrow> sameMoney t u \<Longrightarrow> sameMoney s u"
  by (simp add: sameMoney_def)

lemma sameMoney_drawCard: "drawCard r s = Inr (c, s') \<Longrightarrow> sameMoney s s'"
  using drawCard_frame by (simp add: sameMoney_def)

lemma sameMoney_burn: "burnTopCard s = Inr s' \<Longrightarrow> sameMoney s s'"
  using burnTopCard_frame by (simp add: sameMoney_def)

lemma sameMoney_addLog: "sameMoney s (addLog m s)"
  by (simp add: sameMoney_def)

lemma sameMoney_phase: "sameMoney s (s\<lparr>phase := x\<rparr>)"
  by (simp add: sameMoney_def)

lemma sameMoney_community: "sameMoney s (s\<lparr>communityCards := x\<rparr>)"
  by (simp add: sameMoney_def)







lemma fastForward_outs:
  assumes "fastForwardBoardAndShowdown ev s = Inr (s', outs)"
  shows "onlyStates outs"
proof (cases "handInProgress s")
  case False
  then have "outs = []"
    using assms by (simp add: fastForwardBoardAndShowdown_def)
  then show ?thesis by simp
next
  case True
  show ?thesis
  proof (cases "countRemainingInHand s \<le> 1")
    case c: True
    then have "resolveHandByFold ev s = Inr (s', outs)"
      using assms True by (simp add: fastForwardBoardAndShowdown_def)
    then show ?thesis using resolveHandByFold_result by blast
  next
    case c: False
    then obtain s1 where "resolveShowdown ev s1 = Inr (s', outs)"
      using assms True by (auto simp: fastForwardBoardAndShowdown_def split: sum.splits)
    then show ?thesis using resolveShowdown_result by blast
  qed
qed

lemma goToNextStreet_outs:
  assumes "goToNextStreet ev s = Inr (s', outs)"
  shows "onlyStates outs"
proof (cases "handInProgress s")
  case False
  then have "outs = []" using assms by (simp add: goToNextStreet_def)
  then show ?thesis by simp
next
  case True
  show ?thesis
  proof (cases "phase s = River")
    case r: True
    then have "resolveShowdown ev s = Inr (s', outs)"
      using assms True by (simp add: goToNextStreet_def)
    then show ?thesis using resolveShowdown_result by blast
  next
    case r: False
    then obtain s4 where "fastForwardBoardAndShowdown ev s4 = Inr (s', outs)
                          \<or> emitting ev s4 = Inr (s', outs)"
      using assms True
      by (auto simp: goToNextStreet_def Let_def split: sum.splits if_splits)
    then show ?thesis using fastForward_outs emitting_Inr by blast
  qed
qed

lemma advanceAfterAction_outs:
  assumes "advanceAfterAction ev s pid = Inr (s', outs)"
  shows "onlyStates outs"
proof (cases "handInProgress s")
  case False
  then have "outs = []" using assms by (simp add: advanceAfterAction_def)
  then show ?thesis by simp
next
  case True
  then have "resolveHandByFold ev s = Inr (s', outs) \<or> goToNextStreet ev s = Inr (s', outs)
     \<or> (\<exists>t. emitting ev t = Inr (s', outs))"
    using assms
    by (auto simp: advanceAfterAction_def split: if_splits option.splits)
  then show ?thesis
    using resolveHandByFold_result goToNextStreet_outs emitting_Inr by blast
qed

lemma not_onlyStates_error: "\<not> onlyStates [ErrorMessage pid m]"
  by (simp add: onlyStates_def)

lemma handleAction_raise:
  assumes "onTurn ev s pid i" "isRaise a n"
  shows "handleAction ev s pid a =
     (if \<not> (\<not> acted (players s ! i) \<or> max 0 (currentBet s - betThisRound (players s ! i)) = 0)
      then Inr (s, [ErrorMessage pid ''Betting is not reopened. You may only call or fold.''])
      else if n \<le> currentBet s
      then Inr (s, [ErrorMessage pid ''Raise must be higher than current bet.''])
      else if n > betThisRound (players s ! i) + chips (players s ! i)
      then Inr (s, [ErrorMessage pid ''You do not have enough chips for that raise.''])
      else if n < getMinRaiseTo s \<and> n \<noteq> betThisRound (players s ! i) + chips (players s ! i)
      then Inr (s, [ErrorMessage pid (''Minimum raise is to '' @ showInt (getMinRaiseTo s)
                                  @ '', unless you are all-in.'')])
      else advanceAfterAction ev (applyRaise i n s) pid)"
proof -
  have "handleAction ev s pid a = handleRaise ev s pid i (Some n)"
    using assms
    by (simp add: handleAction_def onTurn_def isRaise_def Let_def split: option.splits)
  then show ?thesis
    using assms(1) by (simp add: handleRaise_def onTurn_def sendError_def Let_def toCallOf_def)
qed

text \<open>
  Claim C3.  The player on turn, actionable and connected, submits a raise to the integer
  \<open>n\<close>.  The raise is rejected (the handler returns the table unchanged and sends one
  \<open>errorMessage\<close> to that player) exactly when it is not legal, where legal means: raise
  rights are open, \<open>n > currentBet\<close>, \<open>n \<le> betThisRound + chips\<close>, and
  \<open>n \<ge> minRaiseTo\<close> or \<open>n = betThisRound + chips\<close>.  A legal raise is applied and the
  hand advanced, and whatever is sent then is a state projection, never an error.
\<close>

theorem raise_accepted_iff_legal:
  assumes "onTurn ev s pid i" and "isRaise a n"
  shows "((\<exists>message. handleAction ev s pid a = Inr (s, [ErrorMessage pid message]))
            \<longleftrightarrow> \<not> raiseLegal s (players s ! i) n) \<and>
         (raiseLegal s (players s ! i) n \<longrightarrow>
            handleAction ev s pid a = advanceAfterAction ev (applyRaise i n s) pid \<and>
            (\<forall>s' outs. handleAction ev s pid a = Inr (s', outs) \<longrightarrow> onlyStates outs))"
proof (cases "raiseLegal s (players s ! i) n")
  case True
  have run: "handleAction ev s pid a = advanceAfterAction ev (applyRaise i n s) pid"
    using True by (auto simp: handleAction_raise[OF assms] raiseLegal_def)
  have outs: "\<And>s' outs. handleAction ev s pid a = Inr (s', outs) \<Longrightarrow> onlyStates outs"
    unfolding run by (rule advanceAfterAction_outs)
  have "\<And>message. handleAction ev s pid a \<noteq> Inr (s, [ErrorMessage pid message])"
    using outs not_onlyStates_error by blast
  then show ?thesis using True run outs by blast
next
  case False
  then show ?thesis
    by (auto simp: handleAction_raise[OF assms] raiseLegal_def)
qed


lemma map_update_same: "f y = f (xs ! i) \<Longrightarrow> map f (xs[i := y]) = map f xs"
  by (cases "i < length xs") (simp_all add: map_update list_update_same_conv list_update_beyond)



lemma findPlayerIndex_ids:
  assumes "map playerId (players t) = map playerId (players s)"
  shows "findPlayerIndex t pid = findPlayerIndex s pid"
proof -
  have l: "length (players t) = length (players s)"
    using assms by (metis length_map)
  have "\<And>i. i < length (players s) \<Longrightarrow> playerId (players t ! i) = playerId (players s ! i)"
    using assms l by (metis nth_map)
  then show ?thesis
    unfolding findPlayerIndex_def l by (intro find_cong) auto
qed

lemma ids_modifyPlayer:
  assumes "\<And>p. playerId (f p) = playerId p"
  shows "map playerId (players (modifyPlayer i f s)) = map playerId (players s)"
  using assms by (simp add: map_update_same)

lemma ids_commitBet: "map playerId (players (commitBet i a s)) = map playerId (players s)"
  by (simp add: commitBet_def map_update_same)

lemma ids_applyRaise: "map playerId (players (applyRaise i n s)) = map playerId (players s)"
  by (simp add: applyRaise_def Let_def ids_modifyPlayer ids_commitBet comp_def
      del: modifyPlayer_fields)





lemma findPlayerIndex_turn [simp]:
  "findPlayerIndex (s\<lparr>currentTurnId := x\<rparr>) pid = findPlayerIndex s pid"
  by (simp add: findPlayerIndex_def)

lemma postForcedBet_fields [simp]:
  "bigBlind (postForcedBet i a l s) = bigBlind s" "smallBlind (postForcedBet i a l s) = smallBlind s"
  "length (players (postForcedBet i a l s)) = length (players s)"
  by (simp_all add: postForcedBet_def Let_def)

lemma postForcedBet_other:
  "j \<noteq> i \<Longrightarrow> players (postForcedBet i a l s) ! j = players s ! j"
  by (simp add: postForcedBet_def Let_def commitBet_def)

lemma postForcedBet_self:
  assumes "i < length (players s)"
  shows "betThisRound (players (postForcedBet i a l s) ! i)
           = betThisRound (players s ! i) + max 0 (min a (chips (players s ! i)))"
    "chips (players (postForcedBet i a l s) ! i)
           = chips (players s ! i) - max 0 (min a (chips (players s ! i)))"
    "allIn (players (postForcedBet i a l s) ! i)
           = (allIn (players s ! i) \<or> chips (players s ! i) - max 0 (min a (chips (players s ! i))) = 0)"
  using assms by (auto simp: postForcedBet_def Let_def commitBet_def)

lemma postBlinds_players:
  "players (postBlinds sb bb s) =
     map (\<lambda>p. p\<lparr>acted := \<not> isPlayerActionable p\<rparr>)
       (players (postForcedBet bb (bigBlind s) ''big blind''
          (postForcedBet sb (smallBlind s) ''small blind''
             (s\<lparr>smallBlindId := Some (playerId (players s ! sb)),
                bigBlindId := Some (playerId (players s ! bb))\<rparr>))))"
  by (simp add: postBlinds_def Let_def)

lemma postBlinds_bets:
  "currentBet (postBlinds sb bb s) =
     (let t = postForcedBet bb (bigBlind s) ''big blind''
          (postForcedBet sb (smallBlind s) ''small blind''
             (s\<lparr>smallBlindId := Some (playerId (players s ! sb)),
                bigBlindId := Some (playerId (players s ! bb))\<rparr>))
      in max (bigBlind s) (max (betThisRound (players t ! sb)) (betThisRound (players t ! bb))))"
  "lastRaiseSize (postBlinds sb bb s) = bigBlind s"
  "bigBlind (postBlinds sb bb s) = bigBlind s"
  by (simp_all add: postBlinds_def Let_def)

theorem blinds_set_current_bet_general:
  fixes s :: table and sb bb :: nat
  assumes "sb < length (players s)" and "bb < length (players s)" and "sb \<noteq> bb"
    and "betThisRound (players s ! sb) = 0" and "betThisRound (players s ! bb) = 0"
    and "0 \<le> bigBlind s"
  defines "paidSB \<equiv> min (smallBlind s) (chips (players s ! sb))"
  defines "paidBB \<equiv> min (bigBlind s) (chips (players s ! bb))"
  defines "t \<equiv> postBlinds sb bb s"
  shows "currentBet t = max (bigBlind s) (max paidSB paidBB) \<and>
         lastRaiseSize t = bigBlind s \<and>
         (0 < currentBet t \<longrightarrow> getMinRaiseTo t = currentBet t + bigBlind s)"
proof -
  let ?s0 = "s\<lparr>smallBlindId := Some (playerId (players s ! sb)),
                bigBlindId := Some (playerId (players s ! bb))\<rparr>"
  let ?s1 = "postForcedBet sb (smallBlind s) ''small blind'' ?s0"
  let ?s2 = "postForcedBet bb (bigBlind s) ''big blind'' ?s1"
  have b1: "betThisRound (players ?s2 ! sb) = max 0 paidSB"
    using assms(1,3,4) by (simp add: postForcedBet_other postForcedBet_self paidSB_def)
  have b2: "betThisRound (players ?s2 ! bb) = max 0 paidBB"
    using assms(2,3,5) by (simp add: postForcedBet_other postForcedBet_self paidBB_def)
  have cb: "currentBet t = max (bigBlind s) (max paidSB paidBB)"
    using assms(6) by (simp add: t_def postBlinds_bets Let_def b1 b2)
  have lr: "lastRaiseSize t = bigBlind s" by (simp add: t_def postBlinds_bets)
  have "0 < currentBet t \<Longrightarrow> getMinRaiseTo t = currentBet t + bigBlind s"
    using lr by (simp add: getMinRaiseTo_def)
  then show ?thesis using cb lr by simp
qed

lemma keys_update_present:
  "map_of m k = Some v \<Longrightarrow> map fst (AList.update k w m) = map fst m"
  by (induction m) (auto split: if_splits)

lemma credit_Inr:
  assumes "k \<in> fst ` set m"
  shows "\<exists>v. map_of m k = Some v \<and> credit m k x = Inr (AList.update k (v + x) m)"
proof -
  from assms obtain v where "map_of m k = Some v"
    by (metis domD dom_map_of_conv_image_fst)
  then show ?thesis by (simp add: credit_def)
qed

lemma credit_effect:
  assumes "credit m k x = Inr m'"
  shows "map fst m' = map fst m" "payoutTotal m' = payoutTotal m + x"
    "map_of m' = (map_of m)(k \<mapsto> (case map_of m k of Some v \<Rightarrow> v + x | None \<Rightarrow> 0))"
proof -
  from assms obtain v where v: "map_of m k = Some v" and m': "m' = AList.update k (v + x) m"
    by (auto simp: credit_def split: option.splits)
  show "map fst m' = map fst m" using v m' by (simp add: keys_update_present)
  show "payoutTotal m' = payoutTotal m + x"
    using v m' by (simp add: payoutTotal_def sum_update)
  show "map_of m' = (map_of m)(k \<mapsto> (case map_of m k of Some v \<Rightarrow> v + x | None \<Rightarrow> 0))"
    using v m' by (simp add: update_conv')
qed

lemma keys_set: "map fst m' = map fst m \<Longrightarrow> fst ` set m' = fst ` set m"
  by (metis list.set_map)

lemma addShares_total:
  assumes "playerId ` set winners \<subseteq> fst ` set m"
  shows "\<exists>m'. addShares winners e m = Inr m' \<and> map fst m' = map fst m \<and>
               payoutTotal m' = payoutTotal m + e * int (length winners)"
  using assms
proof (induction winners arbitrary: m)
  case Nil
  then show ?case by simp
next
  case (Cons w ws)
  from Cons.prems credit_Inr[of "playerId w" m e]
  obtain m1 where m1: "credit m (playerId w) e = Inr m1" by auto
  note ce = credit_effect[OF m1]
  have "playerId ` set ws \<subseteq> fst ` set m1"
    using Cons.prems keys_set[OF ce(1)] by auto
  from Cons.IH[OF this] obtain m' where
    "addShares ws e m1 = Inr m'" "map fst m' = map fst m1"
    "payoutTotal m' = payoutTotal m1 + e * int (length ws)" by auto
  then show ?case using m1 ce by (simp add: algebra_simps)
qed

lemma giveChips_total:
  assumes "set ordered \<subseteq> fst ` set m" "ordered \<noteq> []"
  shows "\<exists>m'. giveChips ordered idxs m = Inr m' \<and> map fst m' = map fst m \<and>
               payoutTotal m' = payoutTotal m + int (length idxs)"
  using assms(1)
proof (induction idxs arbitrary: m)
  case Nil
  then show ?case by simp
next
  case (Cons i idxs)
  let ?k = "ordered ! (i mod length ordered)"
  have "?k \<in> set ordered" using assms(2) by simp
  with Cons.prems credit_Inr[of ?k m 1]
  obtain m1 where m1: "credit m ?k 1 = Inr m1" by auto
  note ce = credit_effect[OF m1]
  have "set ordered \<subseteq> fst ` set m1"
    using Cons.prems keys_set[OF ce(1)] by auto
  from Cons.IH[OF this] obtain m' where
    "giveChips ordered idxs m1 = Inr m'" "map fst m' = map fst m1"
    "payoutTotal m' = payoutTotal m1 + int (length idxs)" by auto
  then show ?case using m1 ce assms(2) by simp
qed

lemma getRingSeats_rotate:
  "getRingSeats s (dealerId s) =
     map (\<lambda>i. (i + dealerOffset s) mod length (players s)) [0..<length (players s)]"
proof (cases "players s = []")
  case True
  then show ?thesis by (simp add: getRingSeats_def)
next
  case False
  let ?n = "length (players s)"
  let ?start = "(if truthy (dealerId s)
                 then (case dealerId s of None \<Rightarrow> - 1 | Some pid \<Rightarrow> findIndexOf s pid)
                 else - 1)"
  have st: "?start + 1 = int (dealerOffset s)"
    by (auto simp: dealerOffset_def truthy_def findIndexOf_def split: option.splits)
  have "\<And>i. nat ((?start + int (Suc i)) mod int ?n) = (i + dealerOffset s) mod ?n"
  proof -
    fix i
    have "?start + int (Suc i) = int (i + dealerOffset s)" using st by simp
    then show "nat ((?start + int (Suc i)) mod int ?n) = (i + dealerOffset s) mod ?n"
      by (simp only: zmod_int[symmetric] nat_int)
  qed
  then have "map (\<lambda>i. nat ((?start + int i) mod int ?n)) (map Suc [0..<?n])
           = map (\<lambda>i. (i + dealerOffset s) mod ?n) [0..<?n]"
    by (simp add: comp_def)
  moreover have "[1..<Suc ?n] = map Suc [0..<?n]"
    by (simp add: map_Suc_upt)
  ultimately show ?thesis
    using False by (simp add: getRingSeats_def Let_def del: upt_Suc)
qed

lemma getRingOrder_rotate:
  "getRingOrder s (dealerId s) = rotate (dealerOffset s) (players s)"
proof (rule nth_equalityI)
  show "length (getRingOrder s (dealerId s)) = length (rotate (dealerOffset s) (players s))"
    by (simp add: getRingOrder_def getRingSeats_rotate)
next
  fix i assume "i < length (getRingOrder s (dealerId s))"
  then have i: "i < length (players s)"
    by (simp add: getRingOrder_def getRingSeats_rotate)
  then show "getRingOrder s (dealerId s) ! i = rotate (dealerOffset s) (players s) ! i"
    by (simp add: getRingOrder_def getRingSeats_rotate nth_rotate add.commute)
qed

lemma orderBySeat_rotate:
  "orderBySeatAfterDealer s ids =
     filter (\<lambda>pid. pid \<in> set ids) (map playerId (rotate (dealerOffset s) (players s)))"
  by (simp add: orderBySeatAfterDealer_def getRingOrder_rotate)

lemma orderBySeat_set:
  "set (orderBySeatAfterDealer s ids) = set ids \<inter> playerId ` set (players s)"
  by (auto simp: orderBySeat_rotate)

lemma orderBySeat_distinct:
  "distinct (map playerId (players s)) \<Longrightarrow> distinct (orderBySeatAfterDealer s ids)"
  by (simp add: orderBySeat_rotate rotate_map[symmetric])

lemma orderBySeat_length:
  assumes "distinct (map playerId (players s))" "distinct ids" "set ids \<subseteq> playerId ` set (players s)"
  shows "length (orderBySeatAfterDealer s ids) = length ids"
proof -
  have "length (orderBySeatAfterDealer s ids) = card (set (orderBySeatAfterDealer s ids))"
    using orderBySeat_distinct[OF assms(1)] by (simp add: distinct_card)
  also have "\<dots> = card (set ids)" using assms(3) by (simp add: orderBySeat_set Int_absorb2)
  also have "\<dots> = length ids" using assms(2) by (simp add: distinct_card)
  finally show ?thesis .
qed

lemma awardSidePot_total:
  assumes "playerId ` set winners \<subseteq> fst ` set m" "winners \<noteq> []"
    "set winners \<subseteq> set (players s)" "0 < sidePot"
  shows "\<exists>m'. awardSidePot s winners sidePot m = Inr m' \<and> map fst m' = map fst m \<and>
               payoutTotal m' = payoutTotal m + sidePot"
proof -
  let ?k = "int (length winners)"
  have k: "0 < ?k" using assms(2) by simp
  from addShares_total[OF assms(1), of "sidePot div ?k"]
  obtain m1 where m1: "addShares winners (sidePot div ?k) m = Inr m1" "map fst m1 = map fst m"
    "payoutTotal m1 = payoutTotal m + sidePot div ?k * ?k" by auto
  let ?ord = "orderBySeatAfterDealer s (map playerId winners)"
  have os: "set ?ord = playerId ` set winners"
    using assms(3) by (auto simp: orderBySeat_set)
  then have ne: "?ord \<noteq> []" using assms(2) by auto
  have sub: "set ?ord \<subseteq> fst ` set m1"
    using os assms(1) keys_set[OF m1(2)] by simp
  from giveChips_total[OF sub ne, of "[0..<nat (sidePot mod ?k)]"]
  obtain m2 where m2: "giveChips ?ord [0..<nat (sidePot mod ?k)] m1 = Inr m2"
    "map fst m2 = map fst m1"
    "payoutTotal m2 = payoutTotal m1 + int (length [0..<nat (sidePot mod ?k)])" by auto
  have r: "0 \<le> sidePot mod ?k" using k by simp
  have split: "sidePot div ?k * ?k + sidePot mod ?k = sidePot" by simp
  show ?thesis
  proof (cases "0 < sidePot mod ?k")
    case True
    then have "awardSidePot s winners sidePot m = Inr m2"
      using m1(1) m2(1) by (simp add: awardSidePot_def Let_def)
    moreover have "payoutTotal m2 = payoutTotal m + sidePot"
      using m2(3) m1(3) r split by simp
    ultimately show ?thesis using m2(2) m1(2) by simp
  next
    case False
    then have z: "sidePot mod ?k = 0" using r by simp
    then have "awardSidePot s winners sidePot m = Inr m1"
      using m1(1) by (simp add: awardSidePot_def Let_def)
    moreover have "payoutTotal m1 = payoutTotal m + sidePot"
      using m1(3) z split by simp
    ultimately show ?thesis using m1(2) by simp
  qed
qed

text \<open>Pointwise effect of the even shares and of the remainder chips.\<close>

lemma addShares_pointwise:
  assumes "playerId ` set winners \<subseteq> fst ` set m" "distinct (map playerId winners)"
  shows "\<exists>m'. addShares winners e m = Inr m' \<and> map fst m' = map fst m \<and>
           (\<forall>pid v. map_of m pid = Some v \<longrightarrow>
              map_of m' pid = Some (v + (if pid \<in> playerId ` set winners then e else 0)))"
  using assms
proof (induction winners arbitrary: m)
  case Nil
  then show ?case by simp
next
  case (Cons w ws)
  from Cons.prems credit_Inr[of "playerId w" m e]
  obtain m1 where m1: "credit m (playerId w) e = Inr m1" by auto
  note ce = credit_effect[OF m1]
  have sub: "playerId ` set ws \<subseteq> fst ` set m1"
    using Cons.prems keys_set[OF ce(1)] by auto
  have d: "distinct (map playerId ws)" "playerId w \<notin> playerId ` set ws"
    using Cons.prems(2) by auto
  from Cons.IH[OF sub d(1)] obtain m' where m':
    "addShares ws e m1 = Inr m'" "map fst m' = map fst m1"
    "\<forall>pid v. map_of m1 pid = Some v \<longrightarrow>
        map_of m' pid = Some (v + (if pid \<in> playerId ` set ws then e else 0))" by auto
  have "\<forall>pid v. map_of m pid = Some v \<longrightarrow>
       map_of m' pid = Some (v + (if pid \<in> playerId ` set (w # ws) then e else 0))"
  proof (intro allI impI)
    fix pid v assume v: "map_of m pid = Some v"
    show "map_of m' pid = Some (v + (if pid \<in> playerId ` set (w # ws) then e else 0))"
    proof (cases "pid = playerId w")
      case True
      then have "map_of m1 pid = Some (v + e)" using v ce(3) by simp
      then have "map_of m' pid = Some (v + e + (if pid \<in> playerId ` set ws then e else 0))"
        using m'(3) by blast
      then show ?thesis using True d(2) by simp
    next
      case False
      then have "map_of m1 pid = Some v" using v ce(3) by simp
      then have "map_of m' pid = Some (v + (if pid \<in> playerId ` set ws then e else 0))"
        using m'(3) by blast
      then show ?thesis using False by auto
    qed
  qed
  then show ?case using m1 m'(1,2) ce(1) by simp
qed

lemma giveChips_pointwise:
  assumes "set ordered \<subseteq> fst ` set m" "ordered \<noteq> []"
  shows "\<exists>m'. giveChips ordered idxs m = Inr m' \<and> map fst m' = map fst m \<and>
           (\<forall>pid v. map_of m pid = Some v \<longrightarrow>
              map_of m' pid = Some (v + int (count_list
                 (map (\<lambda>i. ordered ! (i mod length ordered)) idxs) pid)))"
  using assms(1)
proof (induction idxs arbitrary: m)
  case Nil
  then show ?case by simp
next
  case (Cons i idxs)
  let ?k = "ordered ! (i mod length ordered)"
  have "?k \<in> set ordered" using assms(2) by simp
  with Cons.prems credit_Inr[of ?k m 1]
  obtain m1 where m1: "credit m ?k 1 = Inr m1" by auto
  note ce = credit_effect[OF m1]
  have sub: "set ordered \<subseteq> fst ` set m1"
    using Cons.prems keys_set[OF ce(1)] by auto
  from Cons.IH[OF sub] obtain m' where m':
    "giveChips ordered idxs m1 = Inr m'" "map fst m' = map fst m1"
    "\<forall>pid v. map_of m1 pid = Some v \<longrightarrow>
        map_of m' pid = Some (v + int (count_list
                 (map (\<lambda>i. ordered ! (i mod length ordered)) idxs) pid))" by auto
  have "\<forall>pid v. map_of m pid = Some v \<longrightarrow>
       map_of m' pid = Some (v + int (count_list
                 (map (\<lambda>i. ordered ! (i mod length ordered)) (i # idxs)) pid))"
  proof (intro allI impI)
    fix pid v assume v: "map_of m pid = Some v"
    show "map_of m' pid = Some (v + int (count_list
                 (map (\<lambda>i. ordered ! (i mod length ordered)) (i # idxs)) pid))"
    proof (cases "pid = ?k")
      case True
      then have "map_of m1 pid = Some (v + 1)" using v ce(3) by simp
      then have "map_of m' pid = Some (v + 1 + int (count_list
                 (map (\<lambda>i. ordered ! (i mod length ordered)) idxs) pid))"
        using m'(3) by blast
      then show ?thesis using True by simp
    next
      case False
      then have "map_of m1 pid = Some v" using v ce(3) by simp
      then have "map_of m' pid = Some (v + int (count_list
                 (map (\<lambda>i. ordered ! (i mod length ordered)) idxs) pid))"
        using m'(3) by blast
      then show ?thesis using False by simp
    qed
  qed
  then show ?case using m1 m'(1,2) ce(1) assms(2) by simp
qed

lemma take_as_map: "r \<le> length xs \<Longrightarrow> map (\<lambda>i. xs ! (i mod length xs)) [0..<r] = take r xs"
  by (rule nth_equalityI) auto

lemma count_distinct: "distinct xs \<Longrightarrow> count_list xs x = (if x \<in> set xs then 1 else 0)"
  by (induction xs) auto

text \<open>
  Claim C6.  A side pot of \<open>sidePot\<close> chips is split among the \<open>k\<close> tied winners (players
  with distinct ids, all seated, all keys of the payout map).  Every winner's payout grows
  by \<open>sidePot div k\<close>; the \<open>r = sidePot mod k\<close> remainder chips go, one each, to the first
  \<open>r\<close> winners in seat order after the dealer: the seat list rotated so that it starts at
  the seat after the dealer's (at seat 0 when there is no dealer), wrapping the ring, and
  restricted to the winners.  Nobody else's payout changes.
\<close>

theorem odd_chips_follow_seat_order:
  fixes s :: table and winners :: "player list" and sidePot :: int
  assumes "distinct (map playerId (players s))"
    and "distinct (map playerId winners)" and "set winners \<subseteq> set (players s)"
    and "winners \<noteq> []" and "playerId ` set winners \<subseteq> fst ` set payoutMap"
    and "0 < sidePot"
  defines "k \<equiv> int (length winners)"
  defines "r \<equiv> nat (sidePot mod k)"
  defines "ordered \<equiv> filter (\<lambda>pid. pid \<in> playerId ` set winners)
                       (map playerId (rotate (dealerOffset s) (players s)))"
  shows "\<exists>m'. awardSidePot s winners sidePot payoutMap = Inr m' \<and>
           map fst m' = map fst payoutMap \<and>
           (\<forall>pid v. map_of payoutMap pid = Some v \<longrightarrow>
              map_of m' pid = Some (v + (if pid \<in> playerId ` set winners then sidePot div k else 0)
                                      + (if pid \<in> set (take r ordered) then 1 else 0))) \<and>
           orderBySeatAfterDealer s (map playerId winners) = ordered \<and>
           set ordered = playerId ` set winners \<and> distinct ordered \<and>
           length ordered = length winners \<and> length (take r ordered) = r \<and> int r < k"
proof -
  let ?ord = "orderBySeatAfterDealer s (map playerId winners)"
  have kpos: "0 < k" using assms(4) by (simp add: k_def)
  have ord: "?ord = ordered"
    by (simp add: ordered_def orderBySeat_rotate)
  have sub: "set (map playerId winners) \<subseteq> playerId ` set (players s)"
    using assms(3) by auto
  have os: "set ordered = playerId ` set winners"
    using sub orderBySeat_set[of s "map playerId winners"] ord by auto
  have od: "distinct ordered"
    using orderBySeat_distinct[OF assms(1)] ord by metis
  have ol: "length ordered = length winners"
    using orderBySeat_length[OF assms(1,2) sub] ord by simp
  have rk: "int r < k" using kpos by (simp add: r_def)
  then have rl: "r \<le> length ordered" using ol by (simp add: k_def)
  have ne: "ordered \<noteq> []" using ol assms(4) by auto
  from addShares_pointwise[OF assms(5,2), of "sidePot div k"]
  obtain m1 where m1: "addShares winners (sidePot div k) payoutMap = Inr m1"
    "map fst m1 = map fst payoutMap"
    "\<forall>pid v. map_of payoutMap pid = Some v \<longrightarrow>
        map_of m1 pid = Some (v + (if pid \<in> playerId ` set winners then sidePot div k else 0))"
    by auto
  have subm: "set ordered \<subseteq> fst ` set m1"
    using os assms(5) keys_set[OF m1(2)] by simp
  from giveChips_pointwise[OF subm ne, of "[0..<r]"]
  obtain m2 where m2: "giveChips ordered [0..<r] m1 = Inr m2" "map fst m2 = map fst m1"
    "\<forall>pid v. map_of m1 pid = Some v \<longrightarrow>
        map_of m2 pid = Some (v + int (count_list
                 (map (\<lambda>i. ordered ! (i mod length ordered)) [0..<r]) pid))" by auto
  have cnt: "\<And>pid. int (count_list (map (\<lambda>i. ordered ! (i mod length ordered)) [0..<r]) pid)
               = (if pid \<in> set (take r ordered) then 1 else 0)"
    using od by (simp add: take_as_map[OF rl] count_distinct)
  have tail: "set ordered = playerId ` set winners \<and> distinct ordered \<and>
           length ordered = length winners \<and> length (take r ordered) = r \<and> int r < k"
    using os od ol rl rk by simp
  show ?thesis
  proof (cases "0 < sidePot mod k")
    case True
    have run: "awardSidePot s winners sidePot payoutMap = Inr m2"
      using True m1(1) m2(1) ord
      by (simp add: awardSidePot_def Let_def k_def[symmetric] r_def[symmetric])
    have pw: "\<forall>pid v. map_of payoutMap pid = Some v \<longrightarrow>
              map_of m2 pid = Some (v + (if pid \<in> playerId ` set winners then sidePot div k else 0)
                                      + (if pid \<in> set (take r ordered) then 1 else 0))"
    proof (intro allI impI)
      fix pid v assume "map_of payoutMap pid = Some v"
      then have "map_of m1 pid
          = Some (v + (if pid \<in> playerId ` set winners then sidePot div k else 0))"
        using m1(3) by blast
      then have "map_of m2 pid
          = Some (v + (if pid \<in> playerId ` set winners then sidePot div k else 0)
                  + int (count_list (map (\<lambda>i. ordered ! (i mod length ordered)) [0..<r]) pid))"
        using m2(3) by blast
      then show "map_of m2 pid = Some (v + (if pid \<in> playerId ` set winners then sidePot div k else 0)
                                      + (if pid \<in> set (take r ordered) then 1 else 0))"
        by (simp only: cnt)
    qed
    have k2: "map fst m2 = map fst payoutMap" using m1(2) m2(2) by simp
    show ?thesis
      by (rule exI[of _ m2]) (use run pw k2 ord tail in blast)
  next
    case False
    then have z: "r = 0" using kpos by (simp add: r_def)
    have run: "awardSidePot s winners sidePot payoutMap = Inr m1"
      using False m1(1) by (simp add: awardSidePot_def Let_def k_def[symmetric])
    have pw: "\<forall>pid v. map_of payoutMap pid = Some v \<longrightarrow>
              map_of m1 pid = Some (v + (if pid \<in> playerId ` set winners then sidePot div k else 0)
                                      + (if pid \<in> set (take r ordered) then 1 else 0))"
      using m1(3) z by simp
    show ?thesis
      by (rule exI[of _ m1]) (use run pw m1(2) ord tail in blast)
  qed
qed

lemma pickWinners_nonempty:
  assumes "\<forall>p \<in> set eligible. map_of scoreById (playerId p) \<noteq> None"
    and "bestScore \<noteq> None \<longrightarrow> ws \<noteq> []"
  shows "\<exists>w. pickWinners scoreById eligible bestScore ws = Inr w \<and>
             set w \<subseteq> set ws \<union> set eligible \<and> (eligible \<noteq> [] \<or> ws \<noteq> [] \<longrightarrow> w \<noteq> [])"
  using assms
proof (induction eligible arbitrary: bestScore ws)
  case Nil
  then show ?case by simp
next
  case (Cons p ps)
  from Cons.prems(1) obtain sc where sc: "map_of scoreById (playerId p) = Some sc" by auto
  have rest: "\<forall>q \<in> set ps. map_of scoreById (playerId q) \<noteq> None" using Cons.prems(1) by simp
  show ?case
  proof (cases bestScore)
    case None
    from Cons.IH[OF rest, of "Some sc" "[p]"]
    show ?thesis using sc None by auto
  next
    case (Some b)
    then have wn: "ws \<noteq> []" using Cons.prems(2) by simp
    consider "compareScores sc b > 0" | "compareScores sc b = 0" | "compareScores sc b < 0"
      by linarith
    then show ?thesis
    proof cases
      case 1
      from Cons.IH[OF rest, of "Some sc" "[p]"]
      show ?thesis using sc Some 1 by auto
    next
      case 2
      from Cons.IH[OF rest, of bestScore "ws @ [p]"]
      show ?thesis using sc Some 2 by auto
    next
      case 3
      from Cons.IH[OF rest, of bestScore ws] wn
      show ?thesis using sc Some 3 by auto
    qed
  qed
qed

lemma layer:
  assumes "prev < l" "\<forall>c \<in> set cs. c \<le> prev \<or> l \<le> c"
  shows "sum_list (map (\<lambda>c. max 0 (c - prev)) cs)
       = (l - prev) * int (length (filter (\<lambda>c. l \<le> c) cs))
         + sum_list (map (\<lambda>c. max 0 (c - l)) cs)"
  using assms by (induction cs) (auto simp: algebra_simps)

lemma layer_players:
  assumes "prev < l"
    "\<forall>p \<in> set ps. totalContribution p \<le> prev \<or> l \<le> totalContribution p"
  shows "sum_list (map (\<lambda>p. max 0 (totalContribution p - prev)) ps)
       = (l - prev) * int (length (filter (\<lambda>p. l \<le> totalContribution p) ps))
         + sum_list (map (\<lambda>p. max 0 (totalContribution p - l)) ps)"
  using assms by (induction ps) (auto simp: algebra_simps)

lemma sum_list_zero: "\<forall>x \<in> set xs. f x = 0 \<Longrightarrow> sum_list (map f xs) = (0::int)"
  by (induction xs) auto

lemma payoutLevels_total:
  assumes "playerId ` set (players s) \<subseteq> fst ` set m"
    and "set contributors \<subseteq> set (players s)"
    and "sorted_wrt (<) levels" and "\<forall>l \<in> set levels. prev < l"
    and "\<forall>p \<in> set contributors. totalContribution p \<le> prev \<or> totalContribution p \<in> set levels"
    and "\<forall>l \<in> set levels. \<exists>q \<in> set contributors.
            l \<le> totalContribution q \<and> map_of scoreById (playerId q) \<noteq> None"
  shows "\<exists>m'. payoutLevels s scoreById contributors prev levels m = Inr m' \<and>
               map fst m' = map fst m \<and>
               payoutTotal m' = payoutTotal m
                 + sum_list (map (\<lambda>p. max 0 (totalContribution p - prev)) contributors)"
  using assms
proof (induction levels arbitrary: prev m)
  case Nil
  then have "\<forall>p \<in> set contributors. max 0 (totalContribution p - prev) = 0" by auto
  then have "sum_list (map (\<lambda>p. max 0 (totalContribution p - prev)) contributors) = 0"
    by (rule sum_list_zero)
  then show ?case by simp
next
  case (Cons l rest)
  let ?involved = "filter (\<lambda>p. totalContribution p \<ge> l) contributors"
  let ?sidePot = "(l - prev) * int (length ?involved)"
  let ?eligible = "filter (\<lambda>p. map_of scoreById (playerId p) \<noteq> None) ?involved"
  have pl: "prev < l" using Cons.prems(4) by simp
  from Cons.prems(6) obtain q where q: "q \<in> set contributors" "l \<le> totalContribution q"
    "map_of scoreById (playerId q) \<noteq> None" by auto
  then have qe: "q \<in> set ?eligible" and qi: "q \<in> set ?involved" by simp_all
  have ene: "?eligible \<noteq> []" using qe by (metis empty_iff empty_set)
  have ine: "?involved \<noteq> []" using qi by (metis empty_iff empty_set)
  have sp: "0 < ?sidePot" using pl ine by simp
  from pickWinners_nonempty[of ?eligible scoreById None "[]"] ene
  obtain winners where w: "pickWinners scoreById ?eligible None [] = Inr winners"
    "set winners \<subseteq> set ?eligible" "winners \<noteq> []" by auto
  have wsub: "set winners \<subseteq> set (players s)" using w(2) Cons.prems(2) by auto
  then have wk: "playerId ` set winners \<subseteq> fst ` set m" using Cons.prems(1) by auto
  from awardSidePot_total[OF wk w(3) wsub sp]
  obtain m1 where m1: "awardSidePot s winners ?sidePot m = Inr m1" "map fst m1 = map fst m"
    "payoutTotal m1 = payoutTotal m + ?sidePot" by auto
  have k1: "playerId ` set (players s) \<subseteq> fst ` set m1"
    using Cons.prems(1) keys_set[OF m1(2)] by simp
  have srt: "sorted_wrt (<) rest" "\<forall>l' \<in> set rest. l < l'" using Cons.prems(3) by auto
  have cov: "\<forall>p \<in> set contributors. totalContribution p \<le> l \<or> totalContribution p \<in> set rest"
    using Cons.prems(5) pl by auto
  have el: "\<forall>l' \<in> set rest. \<exists>q \<in> set contributors.
            l' \<le> totalContribution q \<and> map_of scoreById (playerId q) \<noteq> None"
    using Cons.prems(6) by simp
  from Cons.IH[OF k1 Cons.prems(2) srt cov el]
  obtain m' where m': "payoutLevels s scoreById contributors l rest m1 = Inr m'"
    "map fst m' = map fst m1"
    "payoutTotal m' = payoutTotal m1
        + sum_list (map (\<lambda>p. max 0 (totalContribution p - l)) contributors)" by auto
  have gap: "\<forall>p \<in> set contributors. totalContribution p \<le> prev \<or> l \<le> totalContribution p"
  proof
    fix p assume p: "p \<in> set contributors"
    from Cons.prems(5) p have "totalContribution p \<le> prev \<or> totalContribution p = l
        \<or> totalContribution p \<in> set rest" by auto
    moreover have "totalContribution p \<in> set rest \<Longrightarrow> l < totalContribution p"
      using srt(2) by blast
    ultimately show "totalContribution p \<le> prev \<or> l \<le> totalContribution p"
      by fastforce
  qed
  have run: "payoutLevels s scoreById contributors prev (l # rest) m = Inr m'"
    using sp ene w(1,3) m1(1) m'(1) by (simp add: Let_def)
  have "payoutTotal m' = payoutTotal m
          + sum_list (map (\<lambda>p. max 0 (totalContribution p - prev)) contributors)"
    using m'(3) m1(3) layer_players[OF pl gap] by simp
  then show ?case using run m'(2) m1(2) by simp
qed

lemma set_uniqueOf: "set (uniqueOf seen xs) = set seen \<union> set xs"
  by (induction xs arbitrary: seen) auto

lemma distinct_uniqueOf: "distinct seen \<Longrightarrow> distinct (uniqueOf seen xs)"
  by (induction xs arbitrary: seen) auto

lemma sorted_insertBy_asc: "sorted ys \<Longrightarrow> sorted (insertBy ascending x ys)"
  by (induction ys) (auto simp: set_insertBy ascending_def)

lemma sorted_sortBy_asc: "sorted (sortBy ascending xs)"
  by (induction xs) (auto simp: sorted_insertBy_asc)

lemma levels_strict:
  "sorted_wrt (<) (sortBy ascending (uniqueOf [] xs))"
  by (simp add: strict_sorted_iff sorted_sortBy_asc distinct_sortBy distinct_uniqueOf)

lemma levels_set: "set (sortBy ascending (uniqueOf [] xs)) = set xs"
  by (simp add: set_sortBy set_uniqueOf)

lemma update_values: "e \<in> set (AList.update k v m) \<Longrightarrow> e = (k, v) \<or> e \<in> set m"
  by (induction m) (auto split: if_splits)

lemma initial_payoutMap:
  "fst ` set (foldl (\<lambda>m p. AList.update (playerId p) (0::int) m) m0 ps)
      = fst ` set m0 \<union> playerId ` set ps"
  "(\<forall>e \<in> set m0. snd e = (0::int)) \<Longrightarrow>
      \<forall>e \<in> set (foldl (\<lambda>m p. AList.update (playerId p) 0 m) m0 ps). snd e = 0"
proof (induction ps arbitrary: m0)
  case Nil
  { case 1 show ?case by simp }
  { case 2 then show ?case by simp }
next
  case (Cons p ps)
  { case 1
    show ?case
      using Cons.IH(1)[of "AList.update (playerId p) 0 m0"] by (auto simp: dom_update) }
  { case 2
    have "\<forall>e \<in> set (AList.update (playerId p) 0 m0). snd e = 0"
      using 2 by (auto dest: update_values)
    from Cons.IH(2)[OF this] show ?case by simp }
qed

lemma positive_part_sum:
  "\<forall>p \<in> set ps. 0 \<le> totalContribution p \<Longrightarrow>
   sum_list (map (\<lambda>p. max 0 (totalContribution p - 0))
                 (filter (\<lambda>p. totalContribution p > 0) ps))
     = sum_list (map totalContribution ps)"
  by (induction ps) (auto simp: max_def)

lemma payoutTotal_zero: "\<forall>e \<in> set m. snd e = (0::int) \<Longrightarrow> payoutTotal m = 0"
  unfolding payoutTotal_def by (rule sum_list_zero)

text \<open>
  Claim C5.  When every contribution is non-negative and every positive contribution
  level is reached by a contributor that has a score at showdown, the payouts computed by
  \<open>calculatePayouts\<close> add up to the sum of \<open>totalContribution\<close> over all players.
\<close>

theorem payouts_conserve_contributions:
  assumes "\<forall>p \<in> set (players s). 0 \<le> totalContribution p"
    and "\<forall>p \<in> set (players s). 0 < totalContribution p \<longrightarrow>
           (\<exists>q \<in> set (players s). totalContribution p \<le> totalContribution q \<and>
                                  map_of scoreById (playerId q) \<noteq> None)"
  shows "\<exists>payouts. calculatePayouts s scoreById = Inr payouts \<and>
           sum_list (map snd payouts) = sum_list (map totalContribution (players s)) \<and>
           fst ` set payouts = playerId ` set (players s)"
proof -
  let ?contributors = "filter (\<lambda>p. totalContribution p > 0) (players s)"
  let ?m0 = "foldl (\<lambda>m p. AList.update (playerId p) (0::int) m) [] (players s)"
  let ?levels = "sortBy ascending (uniqueOf [] (map totalContribution ?contributors))"
  have keys: "fst ` set ?m0 = playerId ` set (players s)"
    using initial_payoutMap(1)[of "[]" "players s"] by simp
  have zero: "payoutTotal ?m0 = 0"
    using initial_payoutMap(2)[of "[]" "players s"] by (intro payoutTotal_zero) simp
  have k: "playerId ` set (players s) \<subseteq> fst ` set ?m0" using keys by simp
  have c: "set ?contributors \<subseteq> set (players s)" by auto
  have pos: "\<forall>l \<in> set ?levels. 0 < l" by (auto simp: levels_set)
  have cov: "\<forall>p \<in> set ?contributors. totalContribution p \<le> 0 \<or> totalContribution p \<in> set ?levels"
    by (auto simp: levels_set)
  have el: "\<forall>l \<in> set ?levels. \<exists>q \<in> set ?contributors.
            l \<le> totalContribution q \<and> map_of scoreById (playerId q) \<noteq> None"
  proof
    fix l assume "l \<in> set ?levels"
    then obtain p where p: "p \<in> set (players s)" "0 < totalContribution p" "l = totalContribution p"
      by (auto simp: levels_set)
    with assms(2) obtain q where q: "q \<in> set (players s)" "totalContribution p \<le> totalContribution q"
      "map_of scoreById (playerId q) \<noteq> None" by blast
    then have "q \<in> set ?contributors" using p(2) by simp
    then show "\<exists>q \<in> set ?contributors.
            l \<le> totalContribution q \<and> map_of scoreById (playerId q) \<noteq> None"
      using q p(3) by blast
  qed
  from payoutLevels_total[OF k c levels_strict pos cov el]
  obtain m' where m': "payoutLevels s scoreById ?contributors 0 ?levels ?m0 = Inr m'"
    "map fst m' = map fst ?m0"
    "payoutTotal m' = payoutTotal ?m0
        + sum_list (map (\<lambda>p. max 0 (totalContribution p - 0)) ?contributors)" by blast
  have run: "calculatePayouts s scoreById = Inr m'"
    using m'(1) by (simp add: calculatePayouts_def Let_def)
  have "sum_list (map (\<lambda>p. max 0 (totalContribution p - 0)) ?contributors)
          = sum_list (map totalContribution (players s))"
    using assms(1) by (rule positive_part_sum)
  then have tot: "sum_list (map snd m') = sum_list (map totalContribution (players s))"
    using m'(3) zero by (simp add: payoutTotal_def)
  have "fst ` set m' = playerId ` set (players s)"
    using keys_set[OF m'(2)] keys by simp
  then show ?thesis using run tot by blast
qed

theorem raise_accepted_iff_legal_witness:
  "onTurn demoEnv underRaiseTable ''p3'' 2 \<and> isRaise (raiseTo 300) 300 \<and> isRaise (raiseTo 260) 260 \<and>
   handleAction demoEnv underRaiseTable ''p3'' (raiseTo 300)
     = advanceAfterAction demoEnv (applyRaise 2 300 underRaiseTable) ''p3'' \<and>
   (\<exists>message. handleAction demoEnv underRaiseTable ''p3'' (raiseTo 260)
                = Inr (underRaiseTable, [ErrorMessage ''p3'' message]))"
proof -
  have t: "onTurn demoEnv underRaiseTable ''p3'' 2" by code_simp
  have r1: "isRaise (raiseTo 300) 300" by code_simp
  have r2: "isRaise (raiseTo 260) 260" by code_simp
  have l1: "raiseLegal underRaiseTable (players underRaiseTable ! 2) 300" by code_simp
  have l2: "\<not> raiseLegal underRaiseTable (players underRaiseTable ! 2) 260" by code_simp
  show ?thesis
    using raise_accepted_iff_legal[OF t r1] raise_accepted_iff_legal[OF t r2] t r1 r2 l1 l2
    by blast
qed

theorem payouts_conserve_contributions_witness:
  "list_all (\<lambda>p. 0 \<le> totalContribution p) (players tiedTable) \<and>
   (\<exists>payouts. calculatePayouts tiedTable tiedScores = Inr payouts \<and>
      sum_list (map snd payouts) = sum_list (map totalContribution (players tiedTable))) \<and>
   sum_list (map totalContribution (players tiedTable)) = 301"
proof -
  have a: "\<forall>p \<in> set (players tiedTable). 0 \<le> totalContribution p" by code_simp
  have b: "\<forall>p \<in> set (players tiedTable). 0 < totalContribution p \<longrightarrow>
           (\<exists>q \<in> set (players tiedTable). totalContribution p \<le> totalContribution q \<and>
                                  map_of tiedScores (playerId q) \<noteq> None)" by code_simp
  have c: "sum_list (map totalContribution (players tiedTable)) = 301" by code_simp
  have d: "list_all (\<lambda>p. 0 \<le> totalContribution p) (players tiedTable)" by code_simp
  show ?thesis
    using payouts_conserve_contributions[OF a b] d c by blast
qed

theorem odd_chips_follow_seat_order_witness:
  "\<exists>m'. awardSidePot tiedTable (players tiedTable) 10 [(''p1'', 0), (''p2'', 0), (''p3'', 0)] = Inr m' \<and>
         map_of m' ''p1'' = Some 3 \<and> map_of m' ''p2'' = Some 4 \<and> map_of m' ''p3'' = Some 3"
proof -
  have a: "distinct (map playerId (players tiedTable))" by code_simp
  have b: "set (players tiedTable) \<subseteq> set (players tiedTable)" by simp
  have c: "players tiedTable \<noteq> []" by code_simp
  have d: "playerId ` set (players tiedTable) \<subseteq> fst ` set [(''p1'', 0::int), (''p2'', 0), (''p3'', 0)]"
    by code_simp
  have e: "(0::int) < 10" by simp
  have k: "int (length (players tiedTable)) = 3" by code_simp
  have o: "take (nat (10 mod 3))
             (filter (\<lambda>pid. pid \<in> playerId ` set (players tiedTable))
                (map playerId (rotate (dealerOffset tiedTable) (players tiedTable)))) = [''p2'']"
    by code_simp
  have w: "playerId ` set (players tiedTable) = {''p1'', ''p2'', ''p3''}" by code_simp
  from odd_chips_follow_seat_order[OF a a b c d e]
  obtain m' where m: "awardSidePot tiedTable (players tiedTable) 10
                        [(''p1'', 0), (''p2'', 0), (''p3'', 0)] = Inr m'"
    and pw: "\<forall>pid v. map_of [(''p1'', 0::int), (''p2'', 0), (''p3'', 0)] pid = Some v \<longrightarrow>
              map_of m' pid = Some (v + (if pid \<in> playerId ` set (players tiedTable)
                                         then 10 div int (length (players tiedTable)) else 0)
                 + (if pid \<in> set (take (nat (10 mod int (length (players tiedTable))))
                      (filter (\<lambda>pid. pid \<in> playerId ` set (players tiedTable))
                        (map playerId (rotate (dealerOffset tiedTable) (players tiedTable)))))
                    then 1 else 0))"
    by blast
  note pw' = pw[unfolded k o]
  have "map_of m' ''p1'' = Some 3" "map_of m' ''p2'' = Some 4" "map_of m' ''p3'' = Some 3"
    using pw'[rule_format, of "''p1''" 0] pw'[rule_format, of "''p2''" 0]
      pw'[rule_format, of "''p3''" 0]
    by (simp_all add: w)
  then show ?thesis using m by blast
qed

theorem setStartingStack_frame_witness:
  "stackRequestOk lobbyTable ''p1'' (Some 500) \<and> \<not> stackRequestOk lobbyTable ''p2'' (Some 500) \<and>
   (\<exists>s'. onSetStartingStack demoEnv lobbyTable ''p1'' (Some 500) = emitting demoEnv s' \<and>
          startingStack s' = 500 \<and>
          map chips (players s') = [500, 1000]) \<and>
   (\<exists>message. onSetStartingStack demoEnv lobbyTable ''p2'' (Some 500)
        = Inr (lobbyTable, [ErrorMessage ''p2'' message]))"
proof -
  have a: "stackRequestOk lobbyTable ''p1'' (Some 500)" by code_simp
  have b: "\<not> stackRequestOk lobbyTable ''p2'' (Some 500)" by code_simp
  have c: "map chips (map (\<lambda>q. if disconnected q then q else q\<lparr>chips := 500\<rparr>) (players lobbyTable))
             = [500, 1000]" by code_simp
  from setStartingStack_frame[of lobbyTable "''p1''" "Some 500" demoEnv] a
  obtain s' where "onSetStartingStack demoEnv lobbyTable ''p1'' (Some 500) = emitting demoEnv s'"
    "startingStack s' = 500"
    "players s' = map (\<lambda>q. if disconnected q then q else q\<lparr>chips := 500\<rparr>) (players lobbyTable)"
    by auto
  then have "\<exists>s'. onSetStartingStack demoEnv lobbyTable ''p1'' (Some 500) = emitting demoEnv s' \<and>
          startingStack s' = 500 \<and> map chips (players s') = [500, 1000]"
    using c by auto
  then show ?thesis
    using setStartingStack_frame[of lobbyTable "''p2''" "Some 500" demoEnv] a b by blast
qed

text \<open>
  Claim C8.  When \<open>startNextHand\<close> posts the blinds for two different seats whose round
  bets are zero (as they are at hand start), \<open>currentBet\<close> becomes the maximum of
  \<open>bigBlind\<close> and the two amounts paid, each the blind capped by the seat's chips, and
  \<open>lastRaiseSize\<close> becomes \<open>bigBlind\<close>, so \<open>minRaiseTo\<close> is \<open>currentBet + bigBlind\<close>.
  In particular a hand started with blinds 10/20 for three players, the big blind holding
  15 chips, ends with that seat all-in for 15, \<open>currentBet\<close> 20 and \<open>minRaiseTo\<close> 40.
\<close>

theorem blinds_set_current_bet:
  fixes s :: table and sb bb :: nat
  assumes "sb < length (players s)" and "bb < length (players s)" and "sb \<noteq> bb"
    and "betThisRound (players s ! sb) = 0" and "betThisRound (players s ! bb) = 0"
    and "0 \<le> bigBlind s"
  shows "currentBet (postBlinds sb bb s)
           = max (bigBlind s) (max (min (smallBlind s) (chips (players s ! sb)))
                                   (min (bigBlind s) (chips (players s ! bb)))) \<and>
         lastRaiseSize (postBlinds sb bb s) = bigBlind s \<and>
         (0 < currentBet (postBlinds sb bb s) \<longrightarrow>
            getMinRaiseTo (postBlinds sb bb s) = currentBet (postBlinds sb bb s) + bigBlind s) \<and>
         map_option blindFacts (stateAfter (startNextHand demoEnv shortBlindTable))
           = Some (20, 40, 20, 15, 0, True, Some ''p3'')"
proof -
  have "map_option blindFacts (stateAfter (startNextHand demoEnv shortBlindTable))
           = Some (20, 40, 20, 15, 0, True, Some ''p3'')"
    by code_simp
  then show ?thesis
    using blinds_set_current_bet_general[OF assms] by simp
qed

theorem blinds_set_current_bet_witness:
  "(1::nat) < length (players shortBlindTable) \<and> (2::nat) < length (players shortBlindTable) \<and>
   betThisRound (players shortBlindTable ! 1) = 0 \<and> betThisRound (players shortBlindTable ! 2) = 0 \<and>
   chips (players shortBlindTable ! 2) = 15 \<and> bigBlind shortBlindTable = 20 \<and>
   currentBet (postBlinds 1 2 shortBlindTable) = 20 \<and>
   getMinRaiseTo (postBlinds 1 2 shortBlindTable) = 40"
proof -
  have a: "(1::nat) < length (players shortBlindTable)" by code_simp
  have b: "(2::nat) < length (players shortBlindTable)" by code_simp
  have c: "(1::nat) \<noteq> 2" by simp
  have d: "betThisRound (players shortBlindTable ! 1) = 0" by code_simp
  have e: "betThisRound (players shortBlindTable ! 2) = 0" by code_simp
  have f: "0 \<le> bigBlind shortBlindTable" by code_simp
  have g: "chips (players shortBlindTable ! 2) = 15" "bigBlind shortBlindTable = 20"
    "smallBlind shortBlindTable = 10" "chips (players shortBlindTable ! 1) = 1000"
    by code_simp+
  show ?thesis
    using blinds_set_current_bet[OF a b c d e f] a b d e g by simp
qed






lemma potMatches_addLog [simp]: "potMatches (addLog m s) = potMatches s"
  by (simp add: potMatches_def totalContributions_def)

lemma tableInv_addLog [simp]: "tableInv (addLog m s) = tableInv s"
  by (simp add: tableInv_def)



lemma postForcedBet_frame [simp]:
  "handInProgress (postForcedBet i a l s) = handInProgress s"
  "gameStarted (postForcedBet i a l s) = gameStarted s"
  "nextHandTimer (postForcedBet i a l s) = nextHandTimer s"
  "length (players (postForcedBet i a l s)) = length (players s)"
  by (simp_all add: postForcedBet_def Let_def)































lemma noContributions_map:
  "noContributions s = (\<forall>x \<in> set (map totalContribution (players s)). x = 0)"
  by (auto simp: noContributions_def)

lemma noContributions_cong:
  "map totalContribution (players t) = map totalContribution (players s) \<Longrightarrow>
   noContributions t = noContributions s"
  by (simp add: noContributions_map)

lemma noContributions_addLog [simp]: "noContributions (addLog m s) = noContributions s"
  by (simp add: noContributions_def)

lemma noContributions_assignAdmin [simp]:
  "noContributions (assignAdminIfNeeded s) = noContributions s"
  by (rule noContributions_cong) simp





lemma settled_addLog [simp]: "settled (addLog m s) = settled s"
  by (simp add: settled_def)








lemma postBlinds_frame [simp]:
  "handInProgress (postBlinds sb bb s) = handInProgress s"
  "nextHandTimer (postBlinds sb bb s) = nextHandTimer s"
  by (simp_all add: postBlinds_def Let_def)







lemma applyCall_frame [simp]:
  "handInProgress (applyCall i s) = handInProgress s"
  "nextHandTimer (applyCall i s) = nextHandTimer s"
  by (simp_all add: applyCall_def Let_def)

lemma applyRaise_timer [simp]: "nextHandTimer (applyRaise i n s) = nextHandTimer s"
  by (simp add: applyRaise_def Let_def)





















lemma evaluateBestKnownHand_total:
  assumes "5 \<le> length cards" "length cards \<le> 7"
  shows "\<exists>best. evaluateBestKnownHand cards = Inr (Some best)"
proof -
  let ?hs = "combos 5 cards"
  have five: "\<forall>h \<in> set ?hs. length h = 5"
    by (simp add: length_in_combos)
  have pk: "pickCards cards [] 0 None = considerAll None ?hs"
    using pick_enumerates(1)[of "[]" cards 0 None] by (simp add: append_Nil[abs_def])
  have "0 < length ?hs"
    using assms(1) by (simp add: length_combos zero_less_binomial)
  then have ne: "?hs \<noteq> []" by auto
  from considerAll_max[OF five, of None] ne
  obtain best where "considerAll None ?hs = Inr (Some best)" by auto
  then show ?thesis
    using assms pk by (simp add: evaluateBestKnownHand_def)
qed

lemma buildHandInsight_total:
  assumes "\<not> handInProgress s \<or> length (communityCards s) \<in> {0, 3, 4, 5}"
  shows "\<exists>ins. buildHandInsight s viewer = Inr ins"
proof (cases viewer)
  case None
  then show ?thesis by (simp add: buildHandInsight_def)
next
  case (Some p)
  show ?thesis
  proof (cases "\<not> handInProgress s \<or> \<not> inHand p \<or> folded p \<or> length (holeCards p) \<noteq> 2
                 \<or> length (communityCards s) = 0")
    case True
    then show ?thesis using Some by (auto simp: buildHandInsight_def)
  next
    case False
    then have "5 \<le> length (holeCards p @ communityCards s)"
      "length (holeCards p @ communityCards s) \<le> 7"
      using assms by auto
    from evaluateBestKnownHand_total[OF this]
    obtain best where "evaluateBestKnownHand (holeCards p @ communityCards s) = Inr (Some best)"
      by blast
    then show ?thesis
      using Some False by (simp add: buildHandInsight_def Let_def)
  qed
qed

lemma buildStateFor_total:
  assumes "\<not> handInProgress s \<or> length (communityCards s) \<in> {0, 3, 4, 5}"
  shows "\<exists>v. buildStateFor s viewerId = Inr v"
proof -
  obtain ins where "buildHandInsight s (findPlayer s viewerId) = Inr ins"
    using buildHandInsight_total[OF assms] by blast
  then show ?thesis by (simp add: buildStateFor_def Let_def)
qed

lemma buildStateFor_hidden:
  assumes "sameButHiddenCards viewerId s t"
  shows "buildStateFor t viewerId
           = map_sum id (\<lambda>v. v\<lparr>vLastShowdown := lastShowdown t\<rparr>) (buildStateFor s viewerId)"
proof -
  from assms have eq: "t = s\<lparr>players := players t, lastShowdown := lastShowdown t\<rparr>"
    and l: "list_all2 (otherCards viewerId) (players s) (players t)"
    by (simp_all add: sameButHiddenCards_def)
  have f: "handInProgress t = handInProgress s" "communityCards t = communityCards s"
     "currentTurnId t = currentTurnId s" "currentBet t = currentBet s" "bigBlind t = bigBlind s"
     "lastRaiseSize t = lastRaiseSize s" "gameStarted t = gameStarted s"
     "handNumber t = handNumber s" "phase t = phase s" "startingStack t = startingStack s"
     "smallBlind t = smallBlind s" "pot t = pot s" "deck t = deck s" "burnCards t = burnCards s"
     "seenCards t = seenCards s" "dealerId t = dealerId s" "smallBlindId t = smallBlindId s"
     "bigBlindId t = bigBlindId s" "logs t = logs s"
    by (subst eq, simp)+
  have v: "findPlayer t viewerId = findPlayer s viewerId"
    using findPlayer_otherCards[OF l] by (simp add: findPlayer_def)
  have sh: "map (playerViewOf t) (filter (\<lambda>p. \<not> disconnected p) (players t))
       = map (playerViewOf s) (filter (\<lambda>p. \<not> disconnected p) (players s))"
    using shown_otherCards[OF l f(3)] .
  have m: "getMinRaiseTo t = getMinRaiseTo s" by (simp add: getMinRaiseTo_def f)
  show ?thesis
    unfolding buildStateFor_def Let_def v sh m
      buildHandInsight_cong[OF f(1,2)] computeAvailableActions_cong[OF f(1,3,4,5,6)] f
    by (cases "buildHandInsight s (findPlayer s viewerId)") simp_all
qed

lemma finishHand_lastShowdown:
  assumes "finishHand ev s = Inr (s', outs)"
  shows "lastShowdown s' = lastShowdown s"
proof -
  have a: "\<And>t. lastShowdown (assignAdminIfNeeded t) = lastShowdown t"
    by (simp add: assignAdminIfNeeded_def Let_def modifyPlayer_def split: option.splits)
  have c: "\<And>t. lastShowdown (cancelNextHandTimer t) = lastShowdown t"
    by (simp add: cancelNextHandTimer_def)
  have q: "\<And>t. lastShowdown (queueNextHand t) = lastShowdown t"
    by (simp add: queueNextHand_def c)
  show ?thesis
    using assms
    by (auto simp: finishHand_def Let_def a c q cleanupDisconnectedPlayers_def
        split: if_splits sum.splits dest!: emitting_Inr)
qed

lemma handRowsOf_cards:
  "handRowsOf scoreById contenders = Inr rows \<Longrightarrow> map hrCards rows = map holeCards contenders"
  by (induction contenders arbitrary: rows) (auto split: option.splits sum.splits)

lemma resolveShowdown_shows:
  assumes "resolveShowdown ev s = Inr (s', outs)"
    "filter (\<lambda>p. inHand p \<and> \<not> folded p) (players s) \<noteq> []"
  shows "shownCards s' = map holeCards (filter (\<lambda>p. inHand p \<and> \<not> folded p) (players s))"
  using assms
  by (auto simp: resolveShowdown_def Let_def shownCards_def
      split: if_splits sum.splits dest!: finishHand_lastShowdown handRowsOf_cards)

lemma remaining_players:
  "map ((!) ps) (filter (\<lambda>i. P (ps ! i)) [0..<length ps]) = filter P ps"
proof -
  have "filter P (map ((!) ps) [0..<length ps])
          = map ((!) ps) (filter (P \<circ> (!) ps) [0..<length ps])"
    by (rule filter_map)
  then show ?thesis by (simp add: map_nth comp_def)
qed

lemma resolveHandByFold_shows:
  assumes "resolveHandByFold ev s = Inr (s', outs)"
    "filter (\<lambda>p. inHand p \<and> \<not> folded p) (players s) \<noteq> []"
  shows "shownCards s' = map holeCards (filter (\<lambda>p. inHand p \<and> \<not> folded p) (players s))"
proof -
  let ?seats = "filter (\<lambda>i. inHand (players s ! i) \<and> \<not> folded (players s ! i))
                  [0..<length (players s)]"
  show ?thesis
  proof (cases "length ?seats = 1")
    case False
    then have "resolveShowdown ev s = Inr (s', outs)"
      using assms(1) by (simp add: resolveHandByFold_def Let_def)
    then show ?thesis using assms(2) by (rule resolveShowdown_shows)
  next
    case True
    then obtain w where w: "?seats = [w]"
      by (cases ?seats) auto
    have "map ((!) (players s)) ?seats = filter (\<lambda>p. inHand p \<and> \<not> folded p) (players s)"
      by (rule remaining_players)
    then have one: "filter (\<lambda>p. inHand p \<and> \<not> folded p) (players s) = [players s ! w]"
      by (simp add: w)
    obtain s3 where f: "finishHand ev s3 = Inr (s', outs)"
      and sd: "shownCards s3 = [holeCards (players s ! w)]"
      using assms(1) True w
      by (simp add: resolveHandByFold_def Let_def shownCards_def)
    from finishHand_lastShowdown[OF f] sd one show ?thesis
      by (simp add: shownCards_def)
  qed
qed

text \<open>
  Claim C9.  The projection for a viewer holds in \<open>yourCards\<close> the viewer's own hole cards
  when the viewer is in the hand and no cards otherwise, and it exists whenever no hand is
  in progress or the board has 0, 3, 4 or 5 cards.  Apart from the \<open>lastShowdown\<close>
  snapshot the projection does not depend on the hole cards of any other player: two
  tables that are equal except for the \<open>holeCards\<close> of players other than the viewer, and
  for their snapshots, have projections that are equal in everything but \<open>lastShowdown\<close>
  (the same view, or the same exception).  The snapshot goes to every viewer as the table
  holds it, and at the end of a hand the engine stores in it the hole cards of every
  player still in the hand: of the winner of a fold-out as of each contender of a showdown.
\<close>

theorem projection_hides_other_hole_cards:
  "(sameButHiddenCards viewerId s t \<longrightarrow>
      liveView (buildStateFor t viewerId) = liveView (buildStateFor s viewerId)) \<and>
   (\<forall>v. buildStateFor s viewerId = Inr v \<longrightarrow>
      yourCards v = (case findPlayer s viewerId of
                       None \<Rightarrow> []
                     | Some p \<Rightarrow> if inHand p then holeCards p else []) \<and>
      vLastShowdown v = lastShowdown s) \<and>
   (\<not> handInProgress s \<or> length (communityCards s) \<in> {0, 3, 4, 5} \<longrightarrow>
      (\<exists>v. buildStateFor s viewerId = Inr v)) \<and>
   (\<forall>ev s' outs.
      (resolveHandByFold ev s = Inr (s', outs) \<or> resolveShowdown ev s = Inr (s', outs)) \<and>
      filter (\<lambda>p. inHand p \<and> \<not> folded p) (players s) \<noteq> [] \<longrightarrow>
      shownCards s' = map holeCards (filter (\<lambda>p. inHand p \<and> \<not> folded p) (players s)))"
proof (intro conjI impI allI)
  assume r: "sameButHiddenCards viewerId s t"
  show "liveView (buildStateFor t viewerId) = liveView (buildStateFor s viewerId)"
    unfolding buildStateFor_hidden[OF r] liveView_def
    by (cases "buildStateFor s viewerId") simp_all
next
  fix v assume "buildStateFor s viewerId = Inr v"
  then show "yourCards v = (case findPlayer s viewerId of
                       None \<Rightarrow> []
                     | Some p \<Rightarrow> if inHand p then holeCards p else [])"
    and "vLastShowdown v = lastShowdown s"
    by (auto simp: buildStateFor_def Let_def split: sum.splits)
next
  assume "\<not> handInProgress s \<or> length (communityCards s) \<in> {0, 3, 4, 5}"
  then show "\<exists>v. buildStateFor s viewerId = Inr v"
    by (rule buildStateFor_total)
next
  fix ev s' outs
  assume "(resolveHandByFold ev s = Inr (s', outs) \<or> resolveShowdown ev s = Inr (s', outs)) \<and>
      filter (\<lambda>p. inHand p \<and> \<not> folded p) (players s) \<noteq> []"
  then show "shownCards s' = map holeCards (filter (\<lambda>p. inHand p \<and> \<not> folded p) (players s))"
    using resolveHandByFold_shows resolveShowdown_shows by blast
qed

theorem projection_hides_other_hole_cards_witness:
  "sameButHiddenCards ''p1'' underRaiseTable otherCardsTable \<and>
   players otherCardsTable \<noteq> players underRaiseTable \<and>
   length (communityCards underRaiseTable) = 3 \<and>
   \<not> isl (buildStateFor underRaiseTable ''p1'') \<and>
   \<not> isl (buildStateFor otherCardsTable ''p1'') \<and>
   yourCards (projr (buildStateFor underRaiseTable ''p1'')) = [''AS'', ''KS''] \<and>
   yourCards (projr (buildStateFor underRaiseTable ''p4'')) = [] \<and>
   liveView (buildStateFor otherCardsTable ''p1'') = liveView (buildStateFor underRaiseTable ''p1'') \<and>
   \<not> isl (resolveHandByFold headsUpEnv foldedTable) \<and>
   map holeCards (filter (\<lambda>p. inHand p \<and> \<not> folded p) (players foldedTable))
     = [[''TC'', ''8C'']] \<and>
   shownCards (fst (projr (resolveHandByFold headsUpEnv foldedTable))) = [[''TC'', ''8C'']]"
proof -
  have a: "sameButHiddenCards ''p1'' underRaiseTable otherCardsTable" by code_simp
  have b: "players otherCardsTable \<noteq> players underRaiseTable" by code_simp
  have c: "length (communityCards underRaiseTable) = 3"
    "length (communityCards otherCardsTable) = 3" by code_simp+
  have d: "(case findPlayer underRaiseTable ''p1'' of
              None \<Rightarrow> []
            | Some p \<Rightarrow> if inHand p then holeCards p else []) = [''AS'', ''KS'']"
    "(case findPlayer underRaiseTable ''p4'' of
              None \<Rightarrow> []
            | Some p \<Rightarrow> if inHand p then holeCards p else []) = []"
    by code_simp+
  have e: "\<not> isl (resolveHandByFold headsUpEnv foldedTable)" by code_simp
  have f: "map holeCards (filter (\<lambda>p. inHand p \<and> \<not> folded p) (players foldedTable))
     = [[''TC'', ''8C'']]" by code_simp
  note A = projection_hides_other_hole_cards[of "''p1''" underRaiseTable otherCardsTable]
  note B = projection_hides_other_hole_cards[of "''p1''" otherCardsTable otherCardsTable]
  note C = projection_hides_other_hole_cards[of "''p4''" underRaiseTable underRaiseTable]
  note D = projection_hides_other_hole_cards[of "''p1''" foldedTable foldedTable]
  obtain v where v: "buildStateFor underRaiseTable ''p1'' = Inr v"
    using A c by auto
  obtain v' where v': "buildStateFor otherCardsTable ''p1'' = Inr v'"
    using B c by auto
  obtain v4 where v4: "buildStateFor underRaiseTable ''p4'' = Inr v4"
    using C c by auto
  have y: "yourCards v = [''AS'', ''KS'']" using A v d by auto
  have y4: "yourCards v4 = []" using C v4 d by auto
  have l: "liveView (buildStateFor otherCardsTable ''p1'')
             = liveView (buildStateFor underRaiseTable ''p1'')"
    using A a by blast
  from e obtain s' outs where r: "resolveHandByFold headsUpEnv foldedTable = Inr (s', outs)"
    by (cases "resolveHandByFold headsUpEnv foldedTable") auto
  have ne: "filter (\<lambda>p. inHand p \<and> \<not> folded p) (players foldedTable) \<noteq> []"
    using f by auto
  have "shownCards s' = map holeCards (filter (\<lambda>p. inHand p \<and> \<not> folded p) (players foldedTable))"
    using D[THEN conjunct2, THEN conjunct2, THEN conjunct2, rule_format, of headsUpEnv s' outs]
      r ne by blast
  then have sh: "shownCards (fst (projr (resolveHandByFold headsUpEnv foldedTable)))
                  = [[''TC'', ''8C'']]"
    using r f by simp
  have i: "\<not> isl (buildStateFor underRaiseTable ''p1'')"
    "\<not> isl (buildStateFor otherCardsTable ''p1'')"
    "yourCards (projr (buildStateFor underRaiseTable ''p1'')) = [''AS'', ''KS'']"
    "yourCards (projr (buildStateFor underRaiseTable ''p4'')) = []"
    using v v' y v4 y4 by simp_all
  show ?thesis
    using a b c(1) i l e f sh by blast
qed

text \<open>After a fold-out the table's snapshot, and with it the \<open>state\<close> message sent to the
  player who folded, holds the winner's hole cards: from two tables that differ only in
  the hole cards dealt to \<open>p2\<close>, the same fold of \<open>p1\<close> sends \<open>p1\<close> two different
  messages.\<close>

theorem fold_out_shows_winner_cards:
  "\<not> isl (runEvents initialState headsUpStart) \<and>
   sameButHiddenCards ''p1'' dealtTable otherDeal \<and>
   lastShowdown otherDeal = lastShowdown dealtTable \<and>
   map playerId (players dealtTable) = [''p1'', ''p2''] \<and>
   map holeCards (players dealtTable) = [[''JC'', ''9C''], [''TC'', ''8C'']] \<and>
   map holeCards (players otherDeal) = [[''JC'', ''9C''], [''AS'', ''AH'']] \<and>
   \<not> isl (handleAction headsUpEnv dealtTable ''p1'' foldAction) \<and>
   \<not> isl (handleAction headsUpEnv otherDeal ''p1'' foldAction) \<and>
   cardsSentTo ''p1'' (handleAction headsUpEnv dealtTable ''p1'' foldAction)
     = [[[''TC'', ''8C'']]] \<and>
   cardsSentTo ''p1'' (handleAction headsUpEnv otherDeal ''p1'' foldAction)
     = [[[''AS'', ''AH'']]]"
proof -
  have "leakFacts headsUpEnv dealtTable otherDeal ''p1'' foldAction
     = (True, [''p1'', ''p2''], [[''JC'', ''9C''], [''TC'', ''8C'']],
        [[''JC'', ''9C''], [''AS'', ''AH'']],
        (False, [[[''TC'', ''8C'']]]), (False, [[[''AS'', ''AH'']]]))"
    by code_simp
  moreover have "\<not> isl (runEvents initialState headsUpStart)" by code_simp
  moreover have "lastShowdown otherDeal = lastShowdown dealtTable"
    by (simp add: otherDeal_def modifyPlayer_def)
  ultimately show ?thesis
    by (simp add: leakFacts_def)
qed

end
